theory Spec2Isabelle
  imports Complex_Main "HOL-Library.Char_ord" "HOL-Library.List_Lexorder"
begin

section \<open>Python values, exceptions and the runtime library\<close>

text \<open>
  The sources are Python 2 (\<^verbatim>\<open>lib/selectors.py\<close>, \<^verbatim>\<open>lib/rmap.py\<close>).
  A \<^verbatim>\<open>str\<close> is a byte string: \<open>string\<close>, compared byte by byte
  (\<open>HOL-Library.Char_ord\<close> with the lexicographic order of \<open>HOL-Library.List_Lexorder\<close>,
  which is also the order of Python tuples).  Numbers are rationals: the sources only
  compare numbers and never compute with them, and comparison of Python's \<^verbatim>\<open>int\<close>,
  \<^verbatim>\<open>long\<close> and (finite) \<^verbatim>\<open>float\<close> values is exact.
\<close>

datatype pyval = Str string | Num rat | Tup "rat list"

text \<open>
  An exception is its class and the text that \<^verbatim>\<open>str(exc)\<close> gives.  The first seven
  classes derive from \<^verbatim>\<open>LookupError\<close> (selectors.py, lines 98 to 119, and
  Python's own \<^verbatim>\<open>KeyError\<close> and \<^verbatim>\<open>IndexError\<close>); \<^verbatim>\<open>FormatError\<close>,
  \<^verbatim>\<open>ChecksumError\<close> and \<^verbatim>\<open>MissingHeaderKeyError\<close> derive from
  \<^verbatim>\<open>MappingError\<close> (rmap.py, lines 91 to 103).  All of them derive from
  \<^verbatim>\<open>Exception\<close>.
\<close>

datatype exc_class =
    MatchingError | AmbiguousMatchError | MissingParameterError | BadValueError
  | UseAfterError | KeyError | IndexError
  | ValueError | TypeError | NameError | AttributeError | SyntaxError
  | MappingError | FormatError | ChecksumError | MissingHeaderKeyError

datatype exc = Exc exc_class string

fun exc_class_of :: "exc \<Rightarrow> exc_class" where
  "exc_class_of (Exc c m) = c"

fun str_exc :: "exc \<Rightarrow> string" where
  "str_exc (Exc c m) = m"

definition LookupError_classes :: "exc_class set" where
  "LookupError_classes =
     {MatchingError, AmbiguousMatchError, MissingParameterError, BadValueError,
      UseAfterError, KeyError, IndexError}"

definition is_LookupError :: "exc \<Rightarrow> bool" where
  "is_LookupError e = (exc_class_of e \<in> LookupError_classes)"

text \<open>
  What the sources take from Python's library and from the module \<^verbatim>\<open>timestamp\<close>
  (imported by selectors.py, not part of the sources) is a parameter of the model:
  \<^item> \<open>re_match p s\<close>: \<^verbatim>\<open>re.compile(p).match(s)\<close> found a match;
  \<^item> \<open>float_of_str s\<close>: \<^verbatim>\<open>float(s)\<close>, \<open>None\<close> where it raises \<^verbatim>\<open>ValueError\<close>;
  \<^item> \<open>inequality_parts k\<close>: groups 1 and 2 (the latter through \<^verbatim>\<open>float\<close>) of the
    regular expression of \<^verbatim>\<open>InequalityMatcher.__init__\<close> matched against \<open>k\<close>;
  \<^item> \<open>num_type_name q\<close>: the name of the Python type of a number (\<^verbatim>\<open>int\<close>,
    \<^verbatim>\<open>long\<close> or \<^verbatim>\<open>float\<close>), which the model does not record;
  \<^item> \<open>str_of_num\<close>, \<open>repr_of_num\<close>: \<^verbatim>\<open>str\<close> and \<^verbatim>\<open>repr\<close> of a number;
  \<^item> \<open>eval_expr s\<close>: \<^verbatim>\<open>eval(s)\<close> on a version expression;
  \<^item> \<open>reformat_date s\<close>: \<^verbatim>\<open>timestamp.reformat_date(s)\<close>.
\<close>

record pylib =
  re_match :: "string \<Rightarrow> string \<Rightarrow> bool"
  float_of_str :: "string \<Rightarrow> rat option"
  inequality_parts :: "string \<Rightarrow> (string \<times> rat) option"
  num_type_name :: "rat \<Rightarrow> string"
  str_of_num :: "rat \<Rightarrow> string"
  repr_of_num :: "rat \<Rightarrow> string"
  eval_expr :: "string \<Rightarrow> exc + pyval"
  reformat_date :: "string \<Rightarrow> exc + string"

type_synonym header = "string \<rightharpoonup> pyval"

subsection \<open>\<^verbatim>\<open>repr\<close>, \<^verbatim>\<open>str\<close>, \<^verbatim>\<open>lower\<close>, \<^verbatim>\<open>join\<close>\<close>

definition sq :: char where
  "sq = CHR 0x27"

definition dq :: char where
  "dq = CHR 0x22"

definition backslash :: char where
  "backslash = CHR 0x5C"

definition hex_digit :: "nat \<Rightarrow> char" where
  "hex_digit n = ''0123456789abcdef'' ! (n mod 16)"

definition repr_char :: "char \<Rightarrow> char \<Rightarrow> string" where
  "repr_char quote c =
     (if c = quote \<or> c = backslash then [backslash, c]
      else if c = CHR 0x09 then [backslash, CHR ''t'']
      else if c = CHR 0x0A then [backslash, CHR ''n'']
      else if c = CHR 0x0D then [backslash, CHR ''r'']
      else if (of_char c :: nat) < 32 \<or> (of_char c :: nat) \<ge> 127
        then [backslash, CHR ''x'', hex_digit (of_char c div 16), hex_digit (of_char c)]
      else [c])"

definition repr_str :: "string \<Rightarrow> string" where
  \<comment> \<open>\<^verbatim>\<open>repr\<close> of a \<^verbatim>\<open>str\<close>: double quotes only when the text has a single quote
      and no double quote\<close>
  "repr_str s =
     (let quote = (if sq \<in> set s \<and> dq \<notin> set s then dq else sq)
      in quote # concat (map (repr_char quote) s) @ [quote])"

fun join :: "string \<Rightarrow> string list \<Rightarrow> string" where
  "join sep [] = []"
| "join sep [x] = x"
| "join sep (x # y # ys) = x @ sep @ join sep (y # ys)"

definition repr_tuple :: "string list \<Rightarrow> string" where
  \<comment> \<open>\<^verbatim>\<open>repr\<close> of a tuple, from the \<^verbatim>\<open>repr\<close> of its items\<close>
  "repr_tuple items =
     (case items of
        [x] \<Rightarrow> ''('' @ x @ '',)''
      | _ \<Rightarrow> ''('' @ join '', '' items @ '')'')"

fun type_name :: "pylib \<Rightarrow> pyval \<Rightarrow> string" where
  "type_name env (Str s) = ''str''"
| "type_name env (Num q) = num_type_name env q"
| "type_name env (Tup qs) = ''tuple''"

fun repr_val :: "pylib \<Rightarrow> pyval \<Rightarrow> string" where
  "repr_val env (Str s) = repr_str s"
| "repr_val env (Num q) = repr_of_num env q"
| "repr_val env (Tup qs) = repr_tuple (map (repr_of_num env) qs)"

fun str_val :: "pylib \<Rightarrow> pyval \<Rightarrow> string" where
  "str_val env (Str s) = s"
| "str_val env (Num q) = str_of_num env q"
| "str_val env (Tup qs) = repr_tuple (map (repr_of_num env) qs)"

definition lower_char :: "char \<Rightarrow> char" where
  "lower_char c =
     (case map_of (zip ''ABCDEFGHIJKLMNOPQRSTUVWXYZ'' ''abcdefghijklmnopqrstuvwxyz'') c of
        Some d \<Rightarrow> d
      | None \<Rightarrow> c)"

definition lower :: "string \<Rightarrow> string" where
  "lower s = map lower_char s"

definition startswith :: "string \<Rightarrow> string \<Rightarrow> bool" where
  "startswith s p = (take (length p) s = p)"


definition key_error :: "string \<Rightarrow> exc" where
  \<comment> \<open>a dictionary lookup of a missing \<^verbatim>\<open>str\<close> key\<close>
  "key_error k = Exc KeyError (repr_str k)"

definition tuple_index_error :: exc where
  "tuple_index_error = Exc IndexError ''tuple index out of range''"

definition list_index_error :: exc where
  "list_index_error = Exc IndexError ''list index out of range''"

text \<open>The three-way comparison \<^verbatim>\<open>cmp\<close> on values of one ordered type.\<close>

definition cmp3 :: "'a::linorder \<Rightarrow> 'a \<Rightarrow> int" where
  "cmp3 a b = (if a < b then - 1 else if a = b then 0 else 1)"

section \<open>Matchers (selectors.py, lines 344 to 431)\<close>

text \<open>
  A field of a match key is a string or a tuple of strings.  The four matcher classes
  are the constructors of \<open>matcher\<close>; \<open>RegexMatcher\<close> keeps the text of the pattern it
  compiled, \<open>InequalityMatcher\<close> its operator and its number.
\<close>

datatype field = FStr string | FTup "string list"

type_synonym mkey = "field list"

datatype matcher =
    Matcher string
  | RegexMatcher string
  | InequalityMatcher string rat
  | WildcardMatcher

definition RegexMatcher_init :: "field \<Rightarrow> matcher" where
  "RegexMatcher_init key =
     (case key of
        FStr k \<Rightarrow> (if k = ''*'' then RegexMatcher ''^.*$'' else RegexMatcher (''^'' @ k @ ''$''))
      | FTup ks \<Rightarrow> RegexMatcher (join ''|'' (map (\<lambda>k. ''^'' @ k @ ''$'') ks)))"

definition InequalityMatcher_init :: "pylib \<Rightarrow> string \<Rightarrow> exc + matcher" where
  "InequalityMatcher_init env key =
     (case inequality_parts env key of
        None \<Rightarrow> Inl (Exc AttributeError
                  (sq # ''NoneType'' @ [sq] @ '' object has no attribute '' @ sq # ''group'' @ [sq]))
      | Some (operator, v) \<Rightarrow> Inr (InequalityMatcher operator v))"

definition matcher :: "pylib \<Rightarrow> field \<Rightarrow> exc + matcher" where
  \<comment> \<open>the factory \<^verbatim>\<open>matcher(key)\<close>\<close>
  "matcher env key =
     (case key of
        FTup ks \<Rightarrow> Inr (RegexMatcher_init key)
      | FStr k \<Rightarrow>
          (if k = ''*'' then Inr WildcardMatcher
           else if startswith k ''>'' \<or> startswith k ''<'' then InequalityMatcher_init env k
           else Inr (Matcher k)))"

fun py_float :: "pylib \<Rightarrow> pyval \<Rightarrow> exc + rat" where
  \<comment> \<open>\<^verbatim>\<open>float(value)\<close>\<close>
  "py_float env (Str s) =
     (case float_of_str env s of
        None \<Rightarrow> Inl (Exc ValueError (''could not convert string to float: '' @ s))
      | Some q \<Rightarrow> Inr q)"
| "py_float env (Num q) = Inr q"
| "py_float env (Tup qs) = Inl (Exc TypeError ''float() argument must be a string or a number'')"

fun match :: "pylib \<Rightarrow> matcher \<Rightarrow> pyval \<Rightarrow> exc + int" where
  \<comment> \<open>the method \<^verbatim>\<open>match(value)\<close>: 1 (match), 0 (don't care) or -1 (no match)\<close>
  "match env (Matcher key) v = Inr (if Str key = v then 1 else - 1)"
| "match env (RegexMatcher p) v =
     (case v of
        Str s \<Rightarrow> Inr (if re_match env p s then 1 else - 1)
      | _ \<Rightarrow> Inl (Exc TypeError ''expected string or buffer''))"
| "match env (InequalityMatcher operator n) v =
     (if operator \<notin> {''>'', ''<'', ''>='', ''<=''} then Inl (key_error operator)
      else
        (case py_float env v of
           Inl e \<Rightarrow> Inl e
         | Inr m \<Rightarrow>
             Inr (if operator = ''>'' then (if m > n then 1 else - 1)
                  else if operator = ''<'' then (if m < n then 1 else - 1)
                  else if operator = ''>='' then (if m \<ge> n then 1 else - 1)
                  else (if m \<le> n then 1 else - 1))))"
| "match env WildcardMatcher v = Inr 0"

section \<open>MatchingSelector: query validation, winnowing, ranking (lines 603 to 736)\<close>

text \<open>
  The dictionaries \<^verbatim>\<open>_required\<close> and \<^verbatim>\<open>_value_map\<close> are maps; \<^verbatim>\<open>_match_selections\<close>
  and the working copy \<^verbatim>\<open>remaining\<close>, which the code iterates over, are association
  lists (match key, (matchers, choice)) with distinct keys; \<^verbatim>\<open>weights\<close> is a map from
  match keys to integers.  The functions are polymorphic in the type \<open>'k\<close> of the match
  keys and the type \<open>'c\<close> of the choices, neither of which they look into.
\<close>

type_synonym ('k, 'c) match_selections = "('k \<times> matcher list \<times> 'c) list"

definition bad_value_message :: "string \<Rightarrow> string \<Rightarrow> string list \<Rightarrow> string" where
  "bad_value_message fitsvar v valid_values =
     ''Key '' @ fitsvar @ ''='' @ v @ '' not in valid values '' @
     repr_tuple (map repr_str valid_values)"

definition missing_parameter_message :: "string \<Rightarrow> string" where
  "missing_parameter_message fitsvar = ''Required parameter '' @ repr_str fitsvar @ '' is missing.''"

fun validate_query ::
  "pylib \<Rightarrow> string list \<Rightarrow> (string \<rightharpoonup> bool) \<Rightarrow> (string \<rightharpoonup> string list) \<Rightarrow> header \<Rightarrow> exc + unit"
where
  "validate_query env [] required value_map h = Inr ()"
| "validate_query env (fitsvar # rest) required value_map h =
     (case h fitsvar of
        Some v \<Rightarrow>
          (case value_map fitsvar of
             None \<Rightarrow> Inl (key_error fitsvar)
           | Some valid_values \<Rightarrow>
               (case required fitsvar of
                  None \<Rightarrow> Inl (key_error fitsvar)
                | Some req \<Rightarrow>
                    if req \<and> v \<notin> Str ` set valid_values \<and> ''*'' \<notin> set valid_values
                    then (case v of
                            Str s \<Rightarrow> Inl (Exc BadValueError (bad_value_message fitsvar s valid_values))
                          | _ \<Rightarrow> Inl (Exc TypeError
                                  (''cannot concatenate '' @ sq # ''str'' @ [sq] @ '' and '' @
                                   sq # type_name env v @ [sq] @ '' objects'')))
                    else validate_query env rest required value_map h))
      | None \<Rightarrow>
          (case required fitsvar of
             None \<Rightarrow> Inl (key_error fitsvar)
           | Some req \<Rightarrow>
               if req then Inl (Exc MissingParameterError (missing_parameter_message fitsvar))
               else validate_query env rest required value_map h))"

definition header_get :: "header \<Rightarrow> string \<Rightarrow> pyval" where
  \<comment> \<open>\<^verbatim>\<open>header.get(parkey, "NOT PRESENT")\<close>\<close>
  "header_get h parkey = (case h parkey of Some v \<Rightarrow> v | None \<Rightarrow> Str ''NOT PRESENT'')"

definition del_key :: "'k \<Rightarrow> ('k, 'c) match_selections \<Rightarrow> ('k, 'c) match_selections" where
  \<comment> \<open>\<^verbatim>\<open>del remaining[match_tuple]\<close>\<close>
  "del_key k remaining = filter (\<lambda>e. fst e \<noteq> k) remaining"

text \<open>
  The inner loop of \<^verbatim>\<open>_winnow\<close> runs over \<^verbatim>\<open>remaining.items()\<close>, a list made before
  the loop starts (Python 2), while the body deletes from \<^verbatim>\<open>remaining\<close> itself: the
  list \<open>items\<close> is the snapshot, the pair (weights, remaining) the state.
\<close>

fun winnow_items ::
  "pylib \<Rightarrow> (string \<rightharpoonup> bool) \<Rightarrow> string \<Rightarrow> nat \<Rightarrow> pyval \<Rightarrow> ('k, 'c) match_selections \<Rightarrow>
   ('k \<rightharpoonup> int) \<times> ('k, 'c) match_selections \<Rightarrow> exc + ('k \<rightharpoonup> int) \<times> ('k, 'c) match_selections"
where
  "winnow_items env required parkey i v [] st = Inr st"
| "winnow_items env required parkey i v ((match_tuple, matchers, sub) # items) (weights, remaining) =
     (if i \<ge> length matchers then Inl tuple_index_error
      else
        (case match env (matchers ! i) v of
           Inl e \<Rightarrow> Inl e
         | Inr match_status \<Rightarrow>
             if match_status = - 1 then
               (case required parkey of
                  None \<Rightarrow> Inl (key_error parkey)
                | Some req \<Rightarrow>
                    if req then winnow_items env required parkey i v items
                                  (weights, del_key match_tuple remaining)
                    else winnow_items env required parkey i v items (weights, remaining))
             else
               (case weights match_tuple of
                  None \<Rightarrow> Inl (Exc KeyError ''match tuple'')
                | Some w \<Rightarrow>
                    winnow_items env required parkey i v items
                      (weights(match_tuple \<mapsto> w - match_status), remaining))))"

fun winnow_parameters ::
  "pylib \<Rightarrow> (string \<rightharpoonup> bool) \<Rightarrow> header \<Rightarrow> nat \<Rightarrow> string list \<Rightarrow>
   ('k \<rightharpoonup> int) \<times> ('k, 'c) match_selections \<Rightarrow> exc + ('k \<rightharpoonup> int) \<times> ('k, 'c) match_selections"
where
  "winnow_parameters env required h i [] st = Inr st"
| "winnow_parameters env required h i (parkey # rest) st =
     (case winnow_items env required parkey i (header_get h parkey) (snd st) st of
        Inl e \<Rightarrow> Inl e
      | Inr st' \<Rightarrow> winnow_parameters env required h (Suc i) rest st')"

definition initial_weights :: "('k, 'c) match_selections \<Rightarrow> ('k \<rightharpoonup> int)" where
  "initial_weights remaining = (\<lambda>k. if k \<in> fst ` set remaining then Some 0 else None)"

definition winnow ::
  "pylib \<Rightarrow> string list \<Rightarrow> (string \<rightharpoonup> bool) \<Rightarrow> header \<Rightarrow> ('k, 'c) match_selections \<Rightarrow>
   exc + ('k \<rightharpoonup> int) \<times> ('k, 'c) match_selections"
where
  \<comment> \<open>\<^verbatim>\<open>_winnow(header, remaining)\<close>\<close>
  "winnow env parameters required h remaining =
     winnow_parameters env required h 0 parameters (initial_weights remaining, remaining)"

text \<open>
  \<^verbatim>\<open>_rank_candidates\<close>: the dictionary \<^verbatim>\<open>candidates\<close> from weights to lists of match
  keys is an association list with one entry per weight; sorting its items sorts them
  by weight.
\<close>

fun add_candidate :: "int \<Rightarrow> 'k \<Rightarrow> (int \<times> 'k list) list \<Rightarrow> (int \<times> 'k list) list" where
  "add_candidate w k [] = [(w, [k])]"
| "add_candidate w k ((w', ks) # cs) =
     (if w' = w then (w', ks @ [k]) # cs else (w', ks) # add_candidate w k cs)"

fun collect_candidates ::
  "('k \<rightharpoonup> int) \<Rightarrow> ('k, 'c) match_selections \<Rightarrow> (int \<times> 'k list) list \<Rightarrow> exc + (int \<times> 'k list) list"
where
  "collect_candidates weights [] cs = Inr cs"
| "collect_candidates weights ((match_tuple, junk) # remaining) cs =
     (case weights match_tuple of
        None \<Rightarrow> Inl (Exc KeyError ''match tuple'')
      | Some w \<Rightarrow> collect_candidates weights remaining (add_candidate w match_tuple cs))"

definition rank_candidates ::
  "('k \<rightharpoonup> int) \<Rightarrow> ('k, 'c) match_selections \<Rightarrow> exc + (int \<times> 'k list) list"
where
  "rank_candidates weights remaining =
     (case collect_candidates weights remaining [] of
        Inl e \<Rightarrow> Inl e
      | Inr candidates \<Rightarrow> Inr (sort_key fst candidates))"

text \<open>
  \<^verbatim>\<open>_winnowing_match\<close> is a generator.  Its run is the list of what it hands to the
  loop of \<^verbatim>\<open>choose\<close>: \<open>Inr\<close> a choice for every \<^verbatim>\<open>yield\<close>, ended by \<open>Inl\<close> an
  exception if it raises one (nothing follows a raise), or by the end of the list when the
  generator is exhausted.
\<close>

fun yield_groups :: "('k, 'c) match_selections \<Rightarrow> (int \<times> 'k list) list \<Rightarrow> (exc + 'c) list" where
  "yield_groups remaining [] = []"
| "yield_groups remaining ((weight, grp) # rest) =
     (if length grp > 1 then [Inl (Exc AmbiguousMatchError ''Ambiguous match.'')]
      else
        (case grp of
           [] \<Rightarrow> [Inl tuple_index_error]
         | k # ks \<Rightarrow>
             (case map_of remaining k of
                None \<Rightarrow> [Inl (Exc KeyError ''match tuple'')]
              | Some (matchers, selector) \<Rightarrow> Inr selector # yield_groups remaining rest)))"

definition winnowing_match ::
  "pylib \<Rightarrow> string list \<Rightarrow> (string \<rightharpoonup> bool) \<Rightarrow> ('k, 'c) match_selections \<Rightarrow> header \<Rightarrow> (exc + 'c) list"
where
  "winnowing_match env parameters required match_selections h =
     (case winnow env parameters required h match_selections of
        Inl e \<Rightarrow> [Inl e]
      | Inr (weights, remaining) \<Rightarrow>
          (case rank_candidates weights remaining of
             Inl e \<Rightarrow> [Inl e]
           | Inr sorted_candidates \<Rightarrow> yield_groups remaining sorted_candidates))"

section \<open>The base class Selector (lines 145 to 177)\<close>

text \<open>
  A dictionary handed to a constructor is an association list with distinct keys, in
  whatever order the dictionary iterates.  \<^verbatim>\<open>sorted(selections.items())\<close> is an insertion
  sort on the keys, by the comparison \<open>lt\<close> of the key type (\<open>a < b\<close> in Python); the keys
  of a dictionary differ, so the comparison of two items never reaches their values.
\<close>

fun insert_item :: "('k \<Rightarrow> 'k \<Rightarrow> bool) \<Rightarrow> 'k \<times> 'v \<Rightarrow> ('k \<times> 'v) list \<Rightarrow> ('k \<times> 'v) list" where
  "insert_item lt x [] = [x]"
| "insert_item lt x (y # ys) = (if lt (fst y) (fst x) then y # insert_item lt x ys else x # y # ys)"

definition sorted_items :: "('k \<Rightarrow> 'k \<Rightarrow> bool) \<Rightarrow> ('k \<times> 'v) list \<Rightarrow> ('k \<times> 'v) list" where
  "sorted_items lt items = foldr (insert_item lt) items []"

definition Selector_init ::
  "('k \<Rightarrow> 'k \<Rightarrow> bool) \<Rightarrow> string list \<Rightarrow> ('k \<times> 'v) list \<Rightarrow> string list \<times> ('k \<times> 'v) list"
where
  \<comment> \<open>\<^verbatim>\<open>Selector.__init__\<close>: the attributes \<^verbatim>\<open>_parameters\<close> and \<^verbatim>\<open>_selections\<close>\<close>
  "Selector_init lt parameters selections = (parameters, sorted_items lt selections)"

definition keys :: "('k \<times> 'v) list \<Rightarrow> 'k list" where
  \<comment> \<open>\<^verbatim>\<open>keys()\<close>, of the attribute \<^verbatim>\<open>_selections\<close>\<close>
  "keys selections = map fst selections"

definition choices :: "('k \<times> 'v) list \<Rightarrow> 'v list" where
  "choices selections = map snd selections"

section \<open>UseAfterSelector.bsearch (lines 862 to 880)\<close>

definition use_after_error :: "string \<Rightarrow> exc" where
  "use_after_error date = Exc UseAfterError (''No selection with time < '' @ repr_str date)"

function bsearch :: "string \<Rightarrow> (string \<times> 'c) list \<Rightarrow> exc + (string \<times> 'c)" where
  "bsearch date selections =
     (if length selections = 0 then Inl (use_after_error date)
      else if length selections > 1 then
        (if date \<ge> fst (drop (length selections div 2) selections ! 0)
         then bsearch date (drop (length selections div 2) selections)
         else bsearch date (take (length selections div 2) selections))
      else
        (if date \<ge> fst (selections ! 0) then Inr (selections ! 0)
         else Inl (use_after_error date)))"
  by pat_completeness auto
termination
  by (relation "measure (\<lambda>(date, selections). length selections)") auto

declare bsearch.simps [simp del]

section \<open>VersionRelation (lines 1008 to 1127)\<close>

record VersionRelation =
  relation :: string
  version :: pyval

definition py_strip :: "string \<Rightarrow> string" where
  \<comment> \<open>\<^verbatim>\<open>s.strip()\<close>\<close>
  "py_strip s =
     (let ws = (\<lambda>c. c \<in> {CHR '' '', CHR 0x09, CHR 0x0A, CHR 0x0D, CHR 0x0B, CHR 0x0C})
      in dropWhile ws (rev (dropWhile ws (rev s))))"

definition RELATION_RE_match :: "string \<Rightarrow> (string \<times> string) option" where
  \<comment> \<open>groups 1 and 2 of \<^verbatim>\<open>^([<=][=]?|default)(.*)$\<close>: the dot matches no newline and
      the dollar matches at the end or before one last newline\<close>
  "RELATION_RE_match s =
     (let parts =
        (if s \<noteq> [] \<and> (s ! 0 = CHR ''<'' \<or> s ! 0 = CHR ''='') then
           (if length s \<ge> 2 \<and> s ! 1 = CHR ''='' then Some (take 2 s, drop 2 s)
            else Some (take 1 s, drop 1 s))
         else if startswith s ''default'' then Some (''default'', drop 7 s)
         else None)
      in case parts of
           None \<Rightarrow> None
         | Some (g1, rest) \<Rightarrow>
             (let g2 = (if rest \<noteq> [] \<and> last rest = CHR 0x0A then butlast rest else rest)
              in if CHR 0x0A \<in> set g2 then None else Some (g1, g2)))"

definition VersionRelation_init :: "pylib \<Rightarrow> string \<Rightarrow> exc + VersionRelation" where
  "VersionRelation_init env relation_str =
     (case RELATION_RE_match relation_str of
        None \<Rightarrow>
          Inl (Exc ValueError (''RelationRelation '' @ repr_str relation_str @
                 '' does not begin with one of >,<,>=,<=,=,==''))
      | Some (g1, g2) \<Rightarrow>
          (let rel = (if g1 = ''=='' then ''='' else g1); v = py_strip g2
           in if rel \<noteq> ''default'' then
                (case eval_expr env v of
                   Inl e \<Rightarrow>
                     (if exc_class_of e = ValueError
                      then Inl (Exc ValueError
                        ''Invalid version expression.  Expression must evaluate to a comparable object.'')
                      else Inl e)
                 | Inr x \<Rightarrow> Inr \<lparr>relation = rel, version = x\<rparr>)
              else if v \<noteq> [] then
                Inl (Exc ValueError (''Illegal version expression '' @ repr_str v))
              else Inr \<lparr>relation = ''default'', version = Str ''default''\<rparr>))"

text \<open>
  \<^verbatim>\<open>cmp\<close> on values (CPython 2): two numbers by value, two strings and two tuples
  lexicographically, and values of different types by the names of their types, a number
  counting as the empty name: number, then \<^verbatim>\<open>str\<close>, then \<^verbatim>\<open>tuple\<close>.
\<close>

fun type_rank :: "pyval \<Rightarrow> nat" where
  "type_rank (Num q) = 0"
| "type_rank (Str s) = 1"
| "type_rank (Tup qs) = 2"

fun py_cmp :: "pyval \<Rightarrow> pyval \<Rightarrow> int" where
  "py_cmp (Num a) (Num b) = cmp3 a b"
| "py_cmp (Str a) (Str b) = cmp3 a b"
| "py_cmp (Tup a) (Tup b) = cmp3 a b"
| "py_cmp a b = cmp3 (type_rank a) (type_rank b)"

definition VersionRelation_cmp :: "VersionRelation \<Rightarrow> VersionRelation \<Rightarrow> int" where
  \<comment> \<open>\<^verbatim>\<open>__cmp__(self, other)\<close> for \<^verbatim>\<open>other\<close> a VersionRelation\<close>
  "VersionRelation_cmp self other =
     (if version self = Str ''default'' then 1
      else if relation self \<noteq> relation other \<and> version self = version other
        then cmp3 (relation self) (relation other)
      else py_cmp (version self) (version other))"

definition compatible_types :: "VersionRelation \<Rightarrow> pyval \<Rightarrow> bool" where
  "compatible_types self other = (type_rank (version self) = type_rank other)"

definition VersionRelation_cmp_value :: "pylib \<Rightarrow> VersionRelation \<Rightarrow> pyval \<Rightarrow> exc + int" where
  \<comment> \<open>\<^verbatim>\<open>__cmp__(self, other)\<close> for \<^verbatim>\<open>other\<close> a version taken from a header\<close>
  "VersionRelation_cmp_value env self other =
     (if version self = Str ''default'' then Inr 1
      else if compatible_types self other then
        (case VersionRelation_init env (''= '' @ str_val env other) of
           Inl e \<Rightarrow> Inl e
         | Inr r \<Rightarrow> Inr (VersionRelation_cmp self r))
      else Inl (Exc ValueError (''Incompatible version expression types: '' @
                  repr_val env (version self) @ '' and '' @ repr_val env other)))"

definition VersionRelation_lt :: "VersionRelation \<Rightarrow> VersionRelation \<Rightarrow> bool" where
  \<comment> \<open>\<^verbatim>\<open>a < b\<close> on VersionRelations, as \<^verbatim>\<open>sorted\<close> uses it\<close>
  "VersionRelation_lt a b = (VersionRelation_cmp a b < 0)"

section \<open>The selector tree\<close>

text \<open>
  A key of a MatchingSelector is a tuple of fields or, for a selector with one parameter, a
  plain string (\<^verbatim>\<open>fix_simple_keys\<close>).  A choice is a file name or a nested selector
  (\<^verbatim>\<open>isinstance(choice, Selector)\<close>).  Four of the Selector subclasses are the
  constructors of \<open>selector\<close>, each with the attributes its methods read:
  MatchingSelector with \<^verbatim>\<open>_parameters\<close>, \<^verbatim>\<open>_required\<close>, \<^verbatim>\<open>_value_map\<close>,
  \<^verbatim>\<open>_selections\<close> and \<^verbatim>\<open>_match_selections\<close>; VersionDepSelector with the class
  attribute \<^verbatim>\<open>versionvar\<close> and \<^verbatim>\<open>_selections\<close>; the other two with
  \<^verbatim>\<open>_parameters\<close> and \<^verbatim>\<open>_selections\<close>.  ClosestTimeSelector and
  ClosestGeometricRatioSelector compute with numpy arrays of 32-bit floats and are not
  modelled; mapping files can only build Match and UseAfter selectors
  (\<^verbatim>\<open>SELECTORS\<close>, line 1296).  A result of \<^verbatim>\<open>choose\<close> is a file name or, from a
  LinearInterpolationSelector, a pair of results.
\<close>

datatype match_key = Plain string | Tuple "field list"

datatype choice = Terminal string | Nested selector
and selector =
    MatchingSelector "string list" "string \<rightharpoonup> bool" "string \<rightharpoonup> string list"
      "(match_key \<times> choice) list" "(match_key, choice) match_selections"
  | UseAfterSelector "string list" "(string \<times> choice) list"
  | LinearInterpolationSelector "string list" "(rat \<times> choice) list"
  | VersionDepSelector string "(VersionRelation \<times> choice) list"

datatype result = Filename string | Tuple2 result result

fun header_values :: "header \<Rightarrow> string list \<Rightarrow> exc + pyval list" where
  "header_values h [] = Inr []"
| "header_values h (x # xs) =
     (case h x of
        None \<Rightarrow> Inl (key_error x)
      | Some v \<Rightarrow> (case header_values h xs of Inl e \<Rightarrow> Inl e | Inr vs \<Rightarrow> Inr (v # vs)))"

function decimal :: "nat \<Rightarrow> string" where
  "decimal n = (if n < 10 then [''0123456789'' ! n] else decimal (n div 10) @ [''0123456789'' ! (n mod 10)])"
  by pat_completeness auto
termination
  by (relation "measure id") auto

declare decimal.simps [simp del]

fun str_items :: "pylib \<Rightarrow> nat \<Rightarrow> pyval list \<Rightarrow> exc + string list" where
  "str_items env i [] = Inr []"
| "str_items env i (v # vs) =
     (case v of
        Str s \<Rightarrow> (case str_items env (Suc i) vs of Inl e \<Rightarrow> Inl e | Inr ss \<Rightarrow> Inr (s # ss))
      | _ \<Rightarrow> Inl (Exc TypeError (''sequence item '' @ decimal i @ '': expected string, '' @
                     type_name env v @ '' found'')))"

definition use_after_date :: "pylib \<Rightarrow> string list \<Rightarrow> header \<Rightarrow> exc + string" where
  "use_after_date env parameters h =
     (case header_values h parameters of
        Inl e \<Rightarrow> Inl e
      | Inr vs \<Rightarrow>
          (case str_items env 0 vs of
             Inl e \<Rightarrow> Inl e
           | Inr ss \<Rightarrow> reformat_date env (join '' '' ss)))"

function li_scan :: "pyval \<Rightarrow> (rat \<times> 'c) list \<Rightarrow> nat \<Rightarrow> nat" where
  "li_scan keyval selections index =
     (if index < length selections \<and> py_cmp keyval (Num (fst (selections ! index))) > 0
      then li_scan keyval selections (index + 1)
      else index)"
  by pat_completeness auto
termination
  by (relation "measure (\<lambda>(keyval, selections, index). length selections - index)") auto

declare li_scan.simps [simp del]

definition li_pick :: "pyval \<Rightarrow> (rat \<times> 'c) list \<Rightarrow> exc + nat \<times> nat" where
  "li_pick keyval selections =
     (let index = li_scan keyval selections 0
      in if index = length selections then
           (if index = 0 then Inl list_index_error else Inr (index - 1, index - 1))
         else if index = 0 \<or> keyval = Num (fst (selections ! index)) then Inr (index, index)
         else Inr (index - 1, index))"

function vd_scan :: "pylib \<Rightarrow> (VersionRelation \<times> 'c) list \<Rightarrow> pyval \<Rightarrow> nat \<Rightarrow> exc + nat" where
  "vd_scan env selections v index =
     (if index \<ge> length selections then Inl list_index_error
      else
        (case VersionRelation_cmp_value env (fst (selections ! index)) v of
           Inl e \<Rightarrow> Inl e
         | Inr c \<Rightarrow> if c < 0 then vd_scan env selections v (index + 1) else Inr index))"
  by pat_completeness auto
termination
  by (relation "measure (\<lambda>(env, selections, v, index). length selections - index)") auto

declare vd_scan.simps [simp del]

lemma bsearch_Nil: "bsearch date [] = Inl (use_after_error date)"
  by (subst bsearch.simps) simp

lemma bsearch_single:
  "bsearch date [x] = (if date \<ge> fst x then Inr x else Inl (use_after_error date))"
  by (subst bsearch.simps) simp

lemma bsearch_split:
  assumes "length selections > 1"
  shows "bsearch date selections =
     (if date \<ge> fst (selections ! (length selections div 2))
      then bsearch date (drop (length selections div 2) selections)
      else bsearch date (take (length selections div 2) selections))"
proof -
  from assms have "length selections div 2 < length selections" by simp
  then have "drop (length selections div 2) selections ! 0 = selections ! (length selections div 2)"
    by simp
  with assms show ?thesis
    by (subst bsearch.simps) auto
qed

lemma bsearch_in_set: "bsearch date selections = Inr x \<Longrightarrow> x \<in> set selections"
proof (induction date selections rule: bsearch.induct)
  case (1 date selections)
  show ?case
  proof (cases "length selections > 1")
    case True
    let ?r = "drop (length selections div 2) selections"
    let ?l = "take (length selections div 2) selections"
    from True have mid: "?r ! 0 = selections ! (length selections div 2)" by simp
    from True have ne: "selections \<noteq> []" by auto
    show ?thesis
    proof (cases "date \<ge> fst (selections ! (length selections div 2))")
      case ge: True
      with True "1.prems" have "bsearch date ?r = Inr x"
        by (simp add: bsearch_split)
      with "1.IH"(1) True ge mid ne have "x \<in> set ?r" by simp
      then show ?thesis by (rule in_set_dropD)
    next
      case lt: False
      with True "1.prems" have "bsearch date ?l = Inr x"
        by (simp add: bsearch_split)
      with "1.IH"(2) True lt mid ne have "x \<in> set ?l" by simp
      then show ?thesis by (rule in_set_takeD)
    qed
  next
    case False
    then consider "selections = []" | y where "selections = [y]"
      by (cases selections) (auto simp: length_Suc_conv)
    then show ?thesis
    proof cases
      case 1
      with "1.prems" show ?thesis by (simp add: bsearch_Nil)
    next
      case 2
      with "1.prems" show ?thesis by (simp add: bsearch_single split: if_splits)
    qed
  qed
qed

lemma li_scan_le: "index \<le> length selections \<Longrightarrow> li_scan keyval selections index \<le> length selections"
proof (induction keyval selections index rule: li_scan.induct)
  case (1 keyval selections index)
  then show ?case by (simp add: li_scan.simps [of keyval selections index])
qed

lemma li_pick_bounds:
  "li_pick keyval selections = Inr (i, j) \<Longrightarrow> i < length selections \<and> j < length selections"
  using li_scan_le [of 0 selections keyval]
  by (auto simp: li_pick_def Let_def split: if_splits)

lemma vd_scan_bound: "vd_scan env selections v index = Inr i \<Longrightarrow> i < length selections"
proof (induction env selections v index rule: vd_scan.induct)
  case (1 env selections v index)
  then show ?case
    by (auto simp: vd_scan.simps [of env selections v index] split: if_splits sum.splits)
qed


subsection \<open>What the generator can yield\<close>

lemma del_key_subset: "set (del_key k remaining) \<subseteq> set remaining"
  by (auto simp: del_key_def)

lemma winnow_items_subset:
  "winnow_items env required parkey i v items (weights, remaining) = Inr (weights', remaining')
   \<Longrightarrow> set remaining' \<subseteq> set remaining"
proof (induction items arbitrary: weights remaining)
  case Nil
  then show ?case by simp
next
  case (Cons item items)
  obtain k ms c where item: "item = (k, ms, c)" by (cases item)
  from Cons.prems show ?case
    unfolding item
    by (auto split: if_splits sum.splits option.splits
        dest!: Cons.IH dest: subsetD [OF del_key_subset])
qed

lemma winnow_parameters_subset:
  "winnow_parameters env required h i parameters (weights, remaining) = Inr (weights', remaining')
   \<Longrightarrow> set remaining' \<subseteq> set remaining"
proof (induction parameters arbitrary: i weights remaining)
  case Nil
  then show ?case by simp
next
  case (Cons parkey rest)
  from Cons.prems obtain w1 r1 where
    step: "winnow_items env required parkey i (header_get h parkey) remaining (weights, remaining)
             = Inr (w1, r1)"
    and more: "winnow_parameters env required h (Suc i) rest (w1, r1) = Inr (weights', remaining')"
    by (auto split: sum.splits)
  from winnow_items_subset [OF step] Cons.IH [OF more] show ?case by blast
qed

lemma winnow_subset:
  "winnow env parameters required h match_selections = Inr (weights, remaining)
   \<Longrightarrow> set remaining \<subseteq> set match_selections"
  unfolding winnow_def by (rule winnow_parameters_subset)

lemma yield_groups_from_remaining:
  "Inr c \<in> set (yield_groups remaining candidates) \<Longrightarrow> \<exists>k ms. (k, ms, c) \<in> set remaining"
proof (induction candidates)
  case Nil
  then show ?case by simp
next
  case (Cons cand candidates)
  obtain w grp where cand: "cand = (w, grp)" by (cases cand)
  from Cons.prems show ?case
    unfolding cand
    by (auto split: if_splits list.splits option.splits dest: map_of_SomeD Cons.IH)
qed

lemma winnowing_match_from_selections:
  assumes "Inr c \<in> set (winnowing_match env parameters required match_selections h)"
  shows "\<exists>k ms. (k, ms, c) \<in> set match_selections"
proof (cases "winnow env parameters required h match_selections")
  case (Inl e)
  with assms show ?thesis by (simp add: winnowing_match_def)
next
  case (Inr st)
  obtain weights remaining where st: "st = (weights, remaining)" by (cases st)
  show ?thesis
  proof (cases "rank_candidates weights remaining")
    case (Inl e)
    with assms Inr st show ?thesis by (simp add: winnowing_match_def)
  next
    case cands: (Inr cands)
    with assms Inr st have "Inr c \<in> set (yield_groups remaining cands)"
      by (simp add: winnowing_match_def)
    from yield_groups_from_remaining [OF this] winnow_subset [OF Inr [unfolded st]]
    show ?thesis by blast
  qed
qed

subsection \<open>choose (lines 603 to 626, 855 to 860, 989 to 1004, 1173 to 1178)\<close>

text \<open>
  \<open>choose_sel\<close> is the method \<^verbatim>\<open>choose\<close> (the name \<open>choose\<close> is taken by the
  binomial coefficient), \<open>get_choice env c h\<close> is \<^verbatim>\<open>get_choice(selection, header)\<close>
  for \<open>c\<close> the choice \<^verbatim>\<open>selection[1]\<close>, and \<open>match_loop\<close> is the \<^verbatim>\<open>for\<close> loop of
  \<^verbatim>\<open>MatchingSelector.choose\<close> over what the generator \<^verbatim>\<open>_winnowing_match\<close> hands it.
\<close>

fun events_bound :: "(exc + choice) list \<Rightarrow> nat" where
  "events_bound [] = 0"
| "events_bound (Inl e # es) = events_bound es"
| "events_bound (Inr c # es) = max (Suc (size c)) (events_bound es)"

lemma events_bound_le:
  "(\<And>c. Inr c \<in> set es \<Longrightarrow> Suc (size c) \<le> n) \<Longrightarrow> events_bound es \<le> n"
  by (induction es rule: events_bound.induct) auto

lemma size_choice_in_selections:
  "(k, c) \<in> set selections \<Longrightarrow> size c < size_list (size_prod f size) selections"
  by (rule size_list_estimation [where x = "(k, c)"]) auto

lemma size_choice_nth:
  "i < length selections \<Longrightarrow> size (snd (selections ! i)) < size_list (size_prod f size) selections"
  by (rule size_choice_in_selections [of "fst (selections ! i)"]) (simp add: nth_mem)

lemma size_choice_in_match_selections:
  "(k, ms, c) \<in> set sels \<Longrightarrow> Suc (size c) < size_list (size_prod f (size_prod g size)) sels"
  by (rule size_list_estimation [where x = "(k, ms, c)"]) auto

function choose_sel :: "pylib \<Rightarrow> selector \<Rightarrow> header \<Rightarrow> exc + result"
  and get_choice :: "pylib \<Rightarrow> choice \<Rightarrow> header \<Rightarrow> exc + result"
  and match_loop :: "pylib \<Rightarrow> header \<Rightarrow> (exc + choice) list \<Rightarrow> exc + result"
where
  "choose_sel env (MatchingSelector parameters required value_map selections match_selections) h =
     (case validate_query env parameters required value_map h of
        Inl e \<Rightarrow> Inl e
      | Inr u \<Rightarrow> match_loop env h (winnowing_match env parameters required match_selections h))"
| "choose_sel env (UseAfterSelector parameters selections) h =
     (case use_after_date env parameters h of
        Inl e \<Rightarrow> Inl e
      | Inr date \<Rightarrow>
          (case bsearch date selections of
             Inl e \<Rightarrow> Inl e
           | Inr selection \<Rightarrow> get_choice env (snd selection) h))"
| "choose_sel env (LinearInterpolationSelector parameters selections) h =
     (case parameters of
        [] \<Rightarrow> Inl list_index_error
      | p # ps \<Rightarrow>
          (case h p of
             None \<Rightarrow> Inl (key_error p)
           | Some keyval \<Rightarrow>
               (case li_pick keyval selections of
                  Inl e \<Rightarrow> Inl e
                | Inr (i, j) \<Rightarrow>
                    if i = j then
                      (case get_choice env (snd (selections ! i)) h of
                         Inl e \<Rightarrow> Inl e
                       | Inr c \<Rightarrow> Inr (Tuple2 c c))
                    else
                      (case get_choice env (snd (selections ! i)) h of
                         Inl e \<Rightarrow> Inl e
                       | Inr choice1 \<Rightarrow>
                           (case get_choice env (snd (selections ! j)) h of
                              Inl e \<Rightarrow> Inl e
                            | Inr choice2 \<Rightarrow> Inr (Tuple2 choice1 choice2))))))"
| "choose_sel env (VersionDepSelector versionvar selections) h =
     (case h versionvar of
        None \<Rightarrow> Inl (key_error versionvar)
      | Some v \<Rightarrow>
          (case vd_scan env selections v 0 of
             Inl e \<Rightarrow> Inl e
           | Inr index \<Rightarrow> get_choice env (snd (selections ! index)) h))"
| "get_choice env (Terminal f) h = Inr (Filename f)"
| "get_choice env (Nested s) h = choose_sel env s h"
| "match_loop env h [] = Inl (Exc MatchingError ''No match.'')"
| "match_loop env h (Inl e # rest) = Inl e"
| "match_loop env h (Inr (Terminal f) # rest) = Inr (Filename f)"
| "match_loop env h (Inr (Nested s) # rest) =
     (case choose_sel env s h of
        Inr r \<Rightarrow> Inr r
      | Inl e \<Rightarrow> if is_LookupError e then match_loop env h rest else Inl e)"
  by pat_completeness auto

termination
proof (relation "inv_image (less_than <*lex*> less_than)
    (\<lambda>x. case x of
       Inl (env, s, h) \<Rightarrow> (size s, 0)
     | Inr (Inl (env, c, h)) \<Rightarrow> (size c, 0)
     | Inr (Inr (env, h, events)) \<Rightarrow> (events_bound events, Suc (length events)))",
    goal_cases)
  case 1
  show ?case by auto
next
  case (2 env parameters required value_map selections match_selections h u)
  have "events_bound (winnowing_match env parameters required match_selections h)
      \<le> size_list (size_prod (\<lambda>_. 0) (size_prod (\<lambda>_. 0) size)) match_selections"
  proof (rule events_bound_le)
    fix c
    assume "Inr c \<in> set (winnowing_match env parameters required match_selections h)"
    from winnowing_match_from_selections [OF this] obtain k ms
      where "(k, ms, c) \<in> set match_selections" by blast
    from size_choice_in_match_selections [OF this, of "\<lambda>_. 0" "\<lambda>_. 0"]
    show "Suc (size c) \<le> size_list (size_prod (\<lambda>_. 0) (size_prod (\<lambda>_. 0) size)) match_selections"
      by simp
  qed
  then show ?case by simp
next
  case (3 env parameters selections h date selection)
  from bsearch_in_set [OF 3(2)] have "(fst selection, snd selection) \<in> set selections" by simp
  from size_choice_in_selections [OF this, of "\<lambda>_. 0"] show ?case by simp
next
  case (4 env parameters selections h p ps keyval ij i j)
  from 4 have "li_pick keyval selections = Inr (i, j)" by simp
  from li_pick_bounds [OF this] have "i < length selections" by simp
  from size_choice_nth [OF this, of "\<lambda>_. 0"] show ?case by simp
next
  case (5 env parameters selections h p ps keyval ij i j)
  from 5 have "li_pick keyval selections = Inr (i, j)" by simp
  from li_pick_bounds [OF this] have "i < length selections" by simp
  from size_choice_nth [OF this, of "\<lambda>_. 0"] show ?case by simp
next
  case (6 env parameters selections h p ps keyval ij i j choice1)
  from 6 have "li_pick keyval selections = Inr (i, j)" by simp
  from li_pick_bounds [OF this] have "j < length selections" by simp
  from size_choice_nth [OF this, of "\<lambda>_. 0"] show ?case by simp
next
  case (7 env versionvar selections h v index)
  from vd_scan_bound [OF 7(2)] have "index < length selections" .
  from size_choice_nth [OF this, of "\<lambda>_. 0"] show ?case by simp
next
  case 8
  show ?case by simp
next
  case 9
  show ?case by (simp add: max_def)
next
  case 10
  show ?case by (simp add: max_def)
qed

section \<open>Constructors\<close>

definition UseAfterSelector_init :: "string list \<Rightarrow> (string \<times> choice) list \<Rightarrow> selector" where
  "UseAfterSelector_init parameters datemapping =
     (case Selector_init (<) parameters datemapping of
        (ps, selections) \<Rightarrow> UseAfterSelector ps selections)"

definition LinearInterpolationSelector_init :: "string \<Rightarrow> (rat \<times> choice) list \<Rightarrow> selector" where
  "LinearInterpolationSelector_init keyname selections =
     (case Selector_init (<) [keyname] selections of
        (ps, sels) \<Rightarrow> LinearInterpolationSelector ps sels)"

text \<open>
  What \<^verbatim>\<open>LinearInterpolationSelector.choose\<close> returns: the same choice twice, got once
  (\<^verbatim>\<open>choice1 = choice2 = self.get_choice(...)\<close>), or two choices got one after the other.
\<close>

definition twin :: "exc + result \<Rightarrow> exc + result" where
  "twin r = (case r of Inl e \<Rightarrow> Inl e | Inr c \<Rightarrow> Inr (Tuple2 c c))"

definition pair_of :: "exc + result \<Rightarrow> exc + result \<Rightarrow> exc + result" where
  "pair_of r1 r2 =
     (case r1 of
        Inl e \<Rightarrow> Inl e
      | Inr choice1 \<Rightarrow> (case r2 of Inl e \<Rightarrow> Inl e | Inr choice2 \<Rightarrow> Inr (Tuple2 choice1 choice2)))"

text \<open>
  A library for closed examples: a pattern matches the one string it spells out between
  \<^verbatim>\<open>^\<close> and \<^verbatim>\<open>$\<close>, no string parses as a number or evaluates as an expression, and
  dates are left as they come (the examples give them in the form
  \<^verbatim>\<open>YYYY-MM-DD HH:MM:SS\<close> already).
\<close>

definition example_pylib :: pylib where
  "example_pylib =
     \<lparr>re_match = (\<lambda>p s. p = ''^'' @ s @ ''$''),
      float_of_str = (\<lambda>s. None),
      inequality_parts = (\<lambda>k. None),
      num_type_name = (\<lambda>q. ''float''),
      str_of_num = (\<lambda>q. ''0''),
      repr_of_num = (\<lambda>q. ''0''),
      eval_expr = (\<lambda>s. Inl (Exc SyntaxError ''invalid syntax'')),
      reformat_date = Inr\<rparr>"

section \<open>Sorted selections\<close>

lemma set_insert_item: "set (insert_item lt x ys) = insert x (set ys)"
  by (induction ys) auto

lemma set_sorted_items: "set (sorted_items lt items) = set items"
  unfolding sorted_items_def by (induction items) (auto simp: set_insert_item)

lemma length_insert_item: "length (insert_item lt x ys) = Suc (length ys)"
  by (induction ys) auto

lemma length_sorted_items: "length (sorted_items lt items) = length items"
  unfolding sorted_items_def by (induction items) (auto simp: length_insert_item)

lemma distinct_insert_item:
  "distinct (map fst (insert_item lt x ys)) = (fst x \<notin> fst ` set ys \<and> distinct (map fst ys))"
  by (induction ys) (auto simp: set_insert_item)

lemma distinct_sorted_items:
  "distinct (map fst (sorted_items lt items)) = distinct (map fst items)"
  unfolding sorted_items_def
  by (induction items) (auto simp: distinct_insert_item set_sorted_items [unfolded sorted_items_def])

lemma sorted_wrt_insert_item:
  assumes asym: "\<And>a b. a \<in> K \<Longrightarrow> b \<in> K \<Longrightarrow> lt a b \<Longrightarrow> \<not> lt b a"
    and trans: "\<And>a b c. a \<in> K \<Longrightarrow> b \<in> K \<Longrightarrow> c \<in> K \<Longrightarrow> \<not> lt b a \<Longrightarrow> \<not> lt c b \<Longrightarrow> \<not> lt c a"
    and x: "fst x \<in> K"
  shows "fst ` set ys \<subseteq> K \<Longrightarrow> sorted_wrt (\<lambda>a b. \<not> lt (fst b) (fst a)) ys
    \<Longrightarrow> sorted_wrt (\<lambda>a b. \<not> lt (fst b) (fst a)) (insert_item lt x ys)"
proof (induction ys)
  case Nil
  then show ?case by simp
next
  case (Cons y ys)
  from Cons.prems have y: "fst y \<in> K" and ys: "fst ` set ys \<subseteq> K" by auto
  from Cons.prems have sys: "sorted_wrt (\<lambda>a b. \<not> lt (fst b) (fst a)) ys"
    and yle: "\<forall>z \<in> set ys. \<not> lt (fst z) (fst y)" by auto
  show ?case
  proof (cases "lt (fst y) (fst x)")
    case True
    from asym [OF y x True] have "\<not> lt (fst x) (fst y)" .
    moreover from Cons.IH [OF ys sys]
    have "sorted_wrt (\<lambda>a b. \<not> lt (fst b) (fst a)) (insert_item lt x ys)" .
    ultimately show ?thesis using True yle by (simp add: set_insert_item)
  next
    case False
    have "\<not> lt (fst z) (fst x)" if z: "z \<in> set ys" for z
    proof -
      from z ys have zK: "fst z \<in> K" by auto
      from z yle have "\<not> lt (fst z) (fst y)" by simp
      from trans [OF x y zK False this] show ?thesis .
    qed
    with False sys yle show ?thesis by simp
  qed
qed

lemma sorted_wrt_sorted_items:
  assumes asym: "\<And>a b. a \<in> K \<Longrightarrow> b \<in> K \<Longrightarrow> lt a b \<Longrightarrow> \<not> lt b a"
    and trans: "\<And>a b c. a \<in> K \<Longrightarrow> b \<in> K \<Longrightarrow> c \<in> K \<Longrightarrow> \<not> lt b a \<Longrightarrow> \<not> lt c b \<Longrightarrow> \<not> lt c a"
  shows "fst ` set items \<subseteq> K
    \<Longrightarrow> sorted_wrt (\<lambda>a b. \<not> lt (fst b) (fst a)) (sorted_items lt items)"
proof (induction items)
  case Nil
  show ?case by (simp add: sorted_items_def)
next
  case (Cons x items)
  from Cons.prems have x: "fst x \<in> K" and K: "fst ` set items \<subseteq> K" by auto
  from Cons.IH [OF K] have s: "sorted_wrt (\<lambda>a b. \<not> lt (fst b) (fst a)) (sorted_items lt items)" .
  have eq: "sorted_items lt (x # items) = insert_item lt x (sorted_items lt items)"
    by (simp add: sorted_items_def)
  from K have K': "fst ` set (sorted_items lt items) \<subseteq> K" by (simp add: set_sorted_items)
  show ?case
    unfolding eq
    by (rule sorted_wrt_insert_item [where K = K, OF asym trans x K' s])
qed

lemma sorted_sorted_items:
  fixes items :: "('k::linorder \<times> 'v) list"
  shows "sorted (map fst (sorted_items (<) items))"
proof -
  have "sorted_wrt (\<lambda>a b. \<not> fst b < fst a) (sorted_items (<) items)"
    by (rule sorted_wrt_sorted_items [where K = UNIV]) auto
  then show ?thesis
    by (simp add: sorted_wrt_map not_less)
qed


lemma bsearch_all_later:
  "\<forall>k \<in> fst ` set selections. date < k \<Longrightarrow> bsearch date selections = Inl (use_after_error date)"
proof (induction date selections rule: bsearch.induct)
  case (1 date selections)
  show ?case
  proof (cases "length selections > 1")
    case True
    let ?m = "length selections div 2"
    from True have m: "?m < length selections" and ne: "selections \<noteq> []" by auto
    then have "selections ! ?m \<in> set selections" by simp
    with "1.prems" have lt: "\<not> date \<ge> fst (selections ! ?m)" by auto
    from True m have mid: "drop ?m selections ! 0 = selections ! ?m" by simp
    have "\<forall>k \<in> fst ` set (take ?m selections). date < k"
      using "1.prems" by (auto dest: in_set_takeD)
    with "1.IH"(2) ne True lt mid have "bsearch date (take ?m selections) = Inl (use_after_error date)"
      by simp
    with True lt show ?thesis by (simp add: bsearch_split)
  next
    case False
    then consider "selections = []" | y where "selections = [y]"
      by (cases selections) (auto simp: length_Suc_conv)
    then show ?thesis
    proof cases
      case 1
      then show ?thesis by (simp add: bsearch_Nil)
    next
      case 2
      with "1.prems" show ?thesis by (simp add: bsearch_single)
    qed
  qed
qed

lemma sorted_take_drop_le:
  fixes xs :: "'a::linorder list"
  assumes "sorted xs" "x \<in> set (take n xs)" "y \<in> set (drop n xs)"
  shows "x \<le> y"
proof -
  from assms(1) have "sorted (take n xs @ drop n xs)" by simp
  with assms(2,3) show ?thesis unfolding sorted_append by blast
qed

lemma bsearch_greatest:
  assumes "sorted (map fst selections)" "distinct (map fst selections)"
    and "(k, c) \<in> set selections" "k \<le> date"
    and "\<forall>k' \<in> fst ` set selections. k' \<le> date \<longrightarrow> k' \<le> k"
  shows "bsearch date selections = Inr (k, c)"
  using assms
proof (induction date selections rule: bsearch.induct)
  case (1 date selections)
  show ?case
  proof (cases "length selections > 1")
    case True
    let ?m = "length selections div 2"
    let ?l = "take ?m selections"
    let ?r = "drop ?m selections"
    from True have m: "?m < length selections" and ne: "selections \<noteq> []" by auto
    from True m have mid: "?r ! 0 = selections ! ?m" by simp
    from m have hd_r: "?r = selections ! ?m # drop (Suc ?m) selections"
      by (simp add: Cons_nth_drop_Suc)
    have mid_r: "selections ! ?m \<in> set ?r"
      by (subst hd_r) simp
    have set_lr: "set ?l \<union> set ?r = set selections"
      using set_append [of ?l ?r] by simp
    have sl: "sorted (map fst ?l)"
      using sorted_wrt_take [OF "1.prems"(1), of ?m] by (simp add: take_map)
    have sr: "sorted (map fst ?r)"
      using sorted_wrt_drop [OF "1.prems"(1), of ?m] by (simp add: drop_map)
    have dl: "distinct (map fst ?l)"
      using distinct_take [OF "1.prems"(2), of ?m] by (simp add: take_map)
    have dr: "distinct (map fst ?r)"
      using distinct_drop [OF "1.prems"(2), of ?m] by (simp add: drop_map)
    have disj: "fst ` set ?l \<inter> fst ` set ?r = {}"
    proof -
      have "map fst ?l @ map fst ?r = map fst selections"
        using map_append [of fst ?l ?r] by simp
      with "1.prems"(2) have "distinct (map fst ?l @ map fst ?r)" by simp
      then show ?thesis by auto
    qed
    have le_lr: "x \<le> y" if "x \<in> fst ` set ?l" "y \<in> fst ` set ?r" for x y
    proof -
      from that have "x \<in> set (take ?m (map fst selections))" "y \<in> set (drop ?m (map fst selections))"
        by (simp_all add: take_map drop_map)
      with "1.prems"(1) show ?thesis by (rule sorted_take_drop_le)
    qed
    from "1.prems"(3) set_lr have where_k: "(k, c) \<in> set ?l \<or> (k, c) \<in> set ?r"
      by blast
    show ?thesis
    proof (cases "date \<ge> fst (selections ! ?m)")
      case ge: True
      from mid_r have mk: "fst (selections ! ?m) \<in> fst ` set selections"
        by (auto dest: in_set_dropD)
      with "1.prems"(5) ge have mid_le: "fst (selections ! ?m) \<le> k" by blast
      have in_r: "(k, c) \<in> set ?r"
      proof (rule ccontr)
        assume "(k, c) \<notin> set ?r"
        with where_k have kl: "(k, c) \<in> set ?l" by simp
        then have "k \<in> fst ` set ?l" by force
        moreover from mid_r have mr: "fst (selections ! ?m) \<in> fst ` set ?r" by simp
        ultimately have "k \<le> fst (selections ! ?m)" by (rule le_lr)
        with mid_le have "k = fst (selections ! ?m)" by simp
        with \<open>k \<in> fst ` set ?l\<close> mr disj show False by auto
      qed
      have max_r: "\<forall>k' \<in> fst ` set ?r. k' \<le> date \<longrightarrow> k' \<le> k"
        using "1.prems"(5) by (auto dest: in_set_dropD)
      from "1.IH"(1) ne True ge mid sr dr in_r "1.prems"(4) max_r
      have "bsearch date ?r = Inr (k, c)" by simp
      with True ge show ?thesis by (simp add: bsearch_split)
    next
      case lt: False
      have in_l: "(k, c) \<in> set ?l"
      proof (rule ccontr)
        assume "(k, c) \<notin> set ?l"
        with where_k have "(k, c) \<in> set ?r" by simp
        then have kr: "k \<in> fst ` set ?r" by force
        have "fst (selections ! ?m) \<le> k"
        proof -
          from sr have "sorted (map fst (selections ! ?m # drop (Suc ?m) selections))"
            by (simp only: hd_r [symmetric])
          moreover from kr have "k \<in> fst ` set (selections ! ?m # drop (Suc ?m) selections)"
            by (simp only: hd_r [symmetric])
          ultimately show ?thesis by auto
        qed
        with lt "1.prems"(4) show False by simp
      qed
      have max_l: "\<forall>k' \<in> fst ` set ?l. k' \<le> date \<longrightarrow> k' \<le> k"
        using "1.prems"(5) by (auto dest: in_set_takeD)
      from "1.IH"(2) ne True lt mid sl dl in_l "1.prems"(4) max_l
      have "bsearch date ?l = Inr (k, c)" by simp
      with True lt show ?thesis by (simp add: bsearch_split)
    qed
  next
    case False
    with "1.prems"(3) obtain y where "selections = [y]"
      by (cases selections) (auto simp: length_Suc_conv)
    with "1.prems"(3,4) show ?thesis by (auto simp: bsearch_single)
  qed
qed

section \<open>UseAfterSelector.choose\<close>

lemma header_values_Some:
  "map h parameters = map (\<lambda>s. Some (Str s)) ss \<Longrightarrow> header_values h parameters = Inr (map Str ss)"
  by (induction parameters arbitrary: ss) auto

lemma str_items_Str: "str_items env i (map Str ss) = Inr ss"
  by (induction ss arbitrary: i) auto

lemma use_after_date_strings:
  "map h parameters = map (\<lambda>s. Some (Str s)) ss \<Longrightarrow>
   use_after_date env parameters h = reformat_date env (join '' '' ss)"
  by (simp add: use_after_date_def header_values_Some str_items_Str)

text \<open>
  Claim C2.  A UseAfterSelector built from a dictionary \<open>datemapping\<close>, asked with a header
  that gives each of its parameters a string: \<^verbatim>\<open>choose\<close> joins these strings with one
  space, has \<^verbatim>\<open>timestamp.reformat_date\<close> normalize the result to \<open>date\<close>, and returns
  what \<^verbatim>\<open>get_choice\<close> makes of the value stored under the greatest key that is at most
  \<open>date\<close> (the file name itself for a terminal value); if every key is greater than
  \<open>date\<close> it raises UseAfterError.  Keys and date are compared as Python compares strings.
\<close>

theorem UseAfterSelector_choose_greatest_key:
  assumes dict: "distinct (map fst datemapping)"
    and supplied: "map h parameters = map (\<lambda>s. Some (Str s)) ss"
    and normalized: "reformat_date env (join '' '' ss) = Inr date"
  shows "(\<forall>k c. (k, c) \<in> set datemapping \<and> k \<le> date \<and>
              (\<forall>k' \<in> fst ` set datemapping. k' \<le> date \<longrightarrow> k' \<le> k) \<longrightarrow>
            choose_sel env (UseAfterSelector_init parameters datemapping) h = get_choice env c h)
       \<and> ((\<forall>k \<in> fst ` set datemapping. date < k) \<longrightarrow>
            choose_sel env (UseAfterSelector_init parameters datemapping) h
              = Inl (Exc UseAfterError (''No selection with time < '' @ repr_str date)))"
proof -
  let ?sels = "sorted_items (<) datemapping"
  have init: "UseAfterSelector_init parameters datemapping = UseAfterSelector parameters ?sels"
    by (simp add: UseAfterSelector_init_def Selector_init_def)
  have date: "use_after_date env parameters h = Inr date"
    using use_after_date_strings [OF supplied] normalized by simp
  have sorted: "sorted (map fst ?sels)" by (rule sorted_sorted_items)
  have distinct: "distinct (map fst ?sels)" using dict by (simp add: distinct_sorted_items)
  have found: "choose_sel env (UseAfterSelector_init parameters datemapping) h = get_choice env c h"
    if "(k, c) \<in> set datemapping" "k \<le> date"
      "\<forall>k' \<in> fst ` set datemapping. k' \<le> date \<longrightarrow> k' \<le> k" for k c
  proof -
    from that have "bsearch date ?sels = Inr (k, c)"
      by (intro bsearch_greatest [OF sorted distinct]) (simp_all add: set_sorted_items)
    then show ?thesis by (simp add: init date)
  qed
  have none: "choose_sel env (UseAfterSelector_init parameters datemapping) h
      = Inl (Exc UseAfterError (''No selection with time < '' @ repr_str date))"
    if "\<forall>k \<in> fst ` set datemapping. date < k"
  proof -
    from that have "bsearch date ?sels = Inl (use_after_error date)"
      by (intro bsearch_all_later) (simp add: set_sorted_items)
    then show ?thesis by (simp add: init date use_after_error_def)
  qed
  from found none show ?thesis by blast
qed



theorem UseAfterSelector_choose_witness:
  "choose_sel example_pylib
     (UseAfterSelector_init [''DATE-OBS'', ''TIME-OBS'']
        [(''2004-04-25 21:31:00'', Terminal ''B''), (''2004-02-14 00:00:00'', Terminal ''A'')])
     [''DATE-OBS'' \<mapsto> Str ''2004-07-02'', ''TIME-OBS'' \<mapsto> Str ''08:09:00'']
   = Inr (Filename ''B'')
   \<and> choose_sel example_pylib
     (UseAfterSelector_init [''DATE-OBS'', ''TIME-OBS'']
        [(''2004-04-25 21:31:00'', Terminal ''B''), (''2004-02-14 00:00:00'', Terminal ''A'')])
     [''DATE-OBS'' \<mapsto> Str ''2003-01-01'', ''TIME-OBS'' \<mapsto> Str ''00:00:00'']
   = Inl (Exc UseAfterError (''No selection with time < '' @ repr_str ''2003-01-01 00:00:00''))"
proof -
  let ?dm = "[(''2004-04-25 21:31:00'', Terminal ''B''), (''2004-02-14 00:00:00'', Terminal ''A'')]"
  let ?ps = "[''DATE-OBS'', ''TIME-OBS'']"
  let ?h1 = "[''DATE-OBS'' \<mapsto> Str ''2004-07-02'', ''TIME-OBS'' \<mapsto> Str ''08:09:00'']"
  let ?h2 = "[''DATE-OBS'' \<mapsto> Str ''2003-01-01'', ''TIME-OBS'' \<mapsto> Str ''00:00:00'']"
  have d: "distinct (map fst ?dm)" by simp
  have s1: "map ?h1 ?ps = map (\<lambda>s. Some (Str s)) [''2004-07-02'', ''08:09:00'']" by simp
  have s2: "map ?h2 ?ps = map (\<lambda>s. Some (Str s)) [''2003-01-01'', ''00:00:00'']" by simp
  have n1: "reformat_date example_pylib (join '' '' [''2004-07-02'', ''08:09:00'']) = Inr ''2004-07-02 08:09:00''"
    by (simp add: example_pylib_def)
  have n2: "reformat_date example_pylib (join '' '' [''2003-01-01'', ''00:00:00'']) = Inr ''2003-01-01 00:00:00''"
    by (simp add: example_pylib_def)
  have "choose_sel example_pylib (UseAfterSelector_init ?ps ?dm) ?h1
      = get_choice example_pylib (Terminal ''B'') ?h1"
    using UseAfterSelector_choose_greatest_key [OF d s1 n1, THEN conjunct1,
        THEN spec, THEN spec, of "''2004-04-25 21:31:00''" "Terminal ''B''"]
    by simp
  moreover have "choose_sel example_pylib (UseAfterSelector_init ?ps ?dm) ?h2
      = Inl (Exc UseAfterError (''No selection with time < '' @ repr_str ''2003-01-01 00:00:00''))"
    using UseAfterSelector_choose_greatest_key [OF d s2 n2, THEN conjunct2]
    by simp
  ultimately show ?thesis by simp
qed

section \<open>LinearInterpolationSelector.choose\<close>

lemma li_scan_takeWhile:
  "index \<le> length selections \<Longrightarrow>
   li_scan keyval selections index =
     index + length (takeWhile (\<lambda>e. py_cmp keyval (Num (fst e)) > 0) (drop index selections))"
proof (induction keyval selections index rule: li_scan.induct)
  case (1 keyval selections index)
  show ?case
  proof (cases "index < length selections")
    case True
    then have d: "drop index selections = selections ! index # drop (Suc index) selections"
      by (simp add: Cons_nth_drop_Suc)
    show ?thesis
    proof (cases "py_cmp keyval (Num (fst (selections ! index))) > 0")
      case gt: True
      with True "1.IH" have "li_scan keyval selections (index + 1) =
          index + 1 + length (takeWhile (\<lambda>e. py_cmp keyval (Num (fst e)) > 0) (drop (index + 1) selections))"
        by simp
      with True gt show ?thesis
        by (simp add: li_scan.simps [of keyval selections index] d)
    next
      case False
      with True show ?thesis
        by (simp add: li_scan.simps [of keyval selections index] d)
    qed
  next
    case False
    with "1.prems" have "index = length selections" by simp
    then show ?thesis
      by (subst li_scan.simps) simp
  qed
qed

lemma cmp3_gt: "(0 < cmp3 a b) = (b < a)"
  by (auto simp: cmp3_def)

lemma takeWhile_below_sorted:
  fixes sels :: "('k::linorder \<times> 'v) list"
  assumes "sorted (map fst sels)"
  shows "takeWhile (\<lambda>e. fst e < q) sels = filter (\<lambda>e. fst e < q) sels"
proof (rule takeWhile_eq_filter)
  let ?P = "\<lambda>e::'k \<times> 'v. fst e < q"
  fix x assume "x \<in> set (dropWhile ?P sels)"
  then obtain y ys where dw: "dropWhile ?P sels = y # ys" and x: "x = y \<or> x \<in> set ys"
    by (cases "dropWhile ?P sels") auto
  from dw have ny: "\<not> ?P y" using hd_dropWhile [of ?P sels] by simp
  have "sorted (map fst (takeWhile ?P sels @ dropWhile ?P sels))" using assms by simp
  then have "sorted (map fst (y # ys))" unfolding dw [symmetric] map_append sorted_append by blast
  with x have "fst y \<le> fst x" by auto
  with ny show "\<not> ?P x" by simp
qed

lemma li_scan_sorted:
  assumes "sorted (map fst sels)"
  shows "li_scan (Num q) sels 0 = length (filter (\<lambda>e. fst e < q) sels)"
  using li_scan_takeWhile [of 0 sels "Num q"] takeWhile_below_sorted [OF assms, of q]
  by (simp add: cmp3_gt)

lemma LinearInterpolation_position:
  fixes selections :: "(rat \<times> choice) list" and q :: rat
  assumes dict: "distinct (map fst selections)"
  defines "sels \<equiv> sorted_items (<) selections"
  defines "i \<equiv> length (filter (\<lambda>k. k < q) (map fst selections))"
  shows "li_scan (Num q) sels 0 = i"
    and "i \<le> length sels"
    and "\<forall>j < i. fst (sels ! j) < q"
    and "\<forall>j. i \<le> j \<and> j < length sels \<longrightarrow> q \<le> fst (sels ! j)"
proof -
  let ?P = "\<lambda>e::rat \<times> choice. fst e < q"
  have sorted: "sorted (map fst sels)" unfolding sels_def by (rule sorted_sorted_items)
  have d: "distinct (map fst sels)" unfolding sels_def using dict by (simp add: distinct_sorted_items)
  have "length (filter ?P sels) = length (filter (\<lambda>k. k < q) (map fst sels))"
    by (simp add: filter_map comp_def)
  also have "\<dots> = card ({k. k < q} \<inter> set (map fst sels))"
    using d by (rule distinct_length_filter)
  also have "set (map fst sels) = set (map fst selections)"
    by (simp add: sels_def set_sorted_items)
  also have "card ({k. k < q} \<inter> set (map fst selections)) = i"
    unfolding i_def using dict by (rule distinct_length_filter [symmetric])
  finally have len: "length (filter ?P sels) = i" .
  from li_scan_sorted [OF sorted, of q] len show scan: "li_scan (Num q) sels 0 = i" by simp
  from len have "i \<le> length sels" using length_filter_le [of ?P sels] by simp
  then show "i \<le> length sels" .
  have tw: "takeWhile ?P sels = filter ?P sels"
    using sorted by (rule takeWhile_below_sorted)
  with len have ltw: "length (takeWhile ?P sels) = i" by simp
  show "\<forall>j < i. fst (sels ! j) < q"
  proof (intro allI impI)
    fix j assume "j < i"
    with ltw have jl: "j < length (takeWhile ?P sels)" by simp
    then have "takeWhile ?P sels ! j \<in> set (takeWhile ?P sels)" by (rule nth_mem)
    then have "?P (takeWhile ?P sels ! j)" by (rule set_takeWhileD [THEN conjunct2])
    moreover from jl have "takeWhile ?P sels ! j = sels ! j" by (rule takeWhile_nth)
    ultimately show "fst (sels ! j) < q" by simp
  qed
  show "\<forall>j. i \<le> j \<and> j < length sels \<longrightarrow> q \<le> fst (sels ! j)"
  proof (intro allI impI)
    fix j assume j: "i \<le> j \<and> j < length sels"
    from j ltw have "length (takeWhile ?P sels) < length sels" by simp
    from nth_length_takeWhile [OF this] ltw have nP: "\<not> ?P (sels ! i)" by simp
    from j have "i \<le> j" "j < length (map fst sels)" by simp_all
    with sorted have "map fst sels ! i \<le> map fst sels ! j" by (rule sorted_nth_mono)
    with j have "fst (sels ! i) \<le> fst (sels ! j)" by simp
    with nP show "q \<le> fst (sels ! j)" by simp
  qed
qed


lemma LinearInterpolation_choose_cases:
  fixes selections :: "(rat \<times> choice) list" and q :: rat
  assumes dict: "distinct (map fst selections)"
    and nonempty: "selections \<noteq> []"
    and query: "h keyname = Some (Num q)"
  defines "sels \<equiv> sorted_items (<) selections"
  defines "i \<equiv> length (filter (\<lambda>k. k < q) (map fst selections))"
  shows "choose_sel env (LinearInterpolationSelector_init keyname selections) h =
     (if i = length sels then twin (get_choice env (snd (sels ! (i - 1))) h)
      else if i = 0 \<or> fst (sels ! i) = q then twin (get_choice env (snd (sels ! i)) h)
      else pair_of (get_choice env (snd (sels ! (i - 1))) h) (get_choice env (snd (sels ! i)) h))"
proof -
  have init: "LinearInterpolationSelector_init keyname selections
      = LinearInterpolationSelector [keyname] sels"
    by (simp add: LinearInterpolationSelector_init_def Selector_init_def sels_def)
  have scan: "li_scan (Num q) sels 0 = i"
    unfolding sels_def i_def by (rule LinearInterpolation_position(1) [OF dict])
  have len: "length sels \<noteq> 0"
    using nonempty by (simp add: sels_def length_sorted_items)
  show ?thesis
  proof (cases "i = length sels")
    case True
    with len have "li_pick (Num q) sels = Inr (i - 1, i - 1)"
      by (simp add: li_pick_def scan Let_def)
    then show ?thesis using True by (simp add: init query twin_def)
  next
    case False
    show ?thesis
    proof (cases "i = 0 \<or> fst (sels ! i) = q")
      case eq: True
      with False have "li_pick (Num q) sels = Inr (i, i)"
        by (auto simp: li_pick_def scan Let_def)
      then show ?thesis using False eq by (simp add: init query twin_def)
    next
      case ne: False
      with False have "li_pick (Num q) sels = Inr (i - 1, i)"
        by (auto simp: li_pick_def scan Let_def)
      moreover from ne have "i - 1 \<noteq> i" by auto
      ultimately show ?thesis using False ne by (simp add: init query pair_of_def)
    qed
  qed
qed

text \<open>
  Claim C9.  The selector of the claim, built from the dictionary
  \<^verbatim>\<open>{1.2:'a', 1.5:'b', 5.0:'c'}\<close> (in any order of its items; here 5.0 comes first),
  returns ('a','b') for the query 1.25, ('a','a') for 1.2 and ('c','c') for 6.0.  In
  general, for a selector built from a non-empty dictionary with numeric keys and a header
  that gives its parameter the number \<open>q\<close>: with the selections in ascending key order
  and \<open>i\<close> the number of keys below \<open>q\<close>, position \<open>i\<close> holds the first key that is
  greater than or equal to \<open>q\<close> (every key before it is smaller, every key from it on is at
  least \<open>q\<close>).  \<^verbatim>\<open>choose\<close> returns the pair of the choices at positions \<open>i - 1\<close> and
  \<open>i\<close> when \<open>q\<close> lies strictly between these two keys, and an equal pair of the choice
  at \<open>i\<close> on an exact hit or below the first key, and of the last choice beyond the last
  key.  The decimal literals stand for the floats Python reads them as; the order and the
  equalities among the numbers of the examples are the same.
\<close>

theorem LinearInterpolationSelector_choose_bracket:
  fixes selections :: "(rat \<times> choice) list" and q :: rat
  shows
    "choose_sel env
       (LinearInterpolationSelector_init ''w''
          [(5, Terminal ''c''), (6 / 5, Terminal ''a''), (3 / 2, Terminal ''b'')])
       [''w'' \<mapsto> Num (5 / 4)]
     = Inr (Tuple2 (Filename ''a'') (Filename ''b''))
   \<and> choose_sel env
       (LinearInterpolationSelector_init ''w''
          [(5, Terminal ''c''), (6 / 5, Terminal ''a''), (3 / 2, Terminal ''b'')])
       [''w'' \<mapsto> Num (6 / 5)]
     = Inr (Tuple2 (Filename ''a'') (Filename ''a''))
   \<and> choose_sel env
       (LinearInterpolationSelector_init ''w''
          [(5, Terminal ''c''), (6 / 5, Terminal ''a''), (3 / 2, Terminal ''b'')])
       [''w'' \<mapsto> Num 6]
     = Inr (Tuple2 (Filename ''c'') (Filename ''c''))
   \<and> (distinct (map fst selections) \<and> selections \<noteq> [] \<and> h keyname = Some (Num q) \<longrightarrow>
       (let sels = sorted_items (<) selections;
            i = length (filter (\<lambda>k. k < q) (map fst selections))
        in sorted (map fst sels)
           \<and> i \<le> length sels
           \<and> (\<forall>j < i. fst (sels ! j) < q)
           \<and> (\<forall>j. i \<le> j \<and> j < length sels \<longrightarrow> q \<le> fst (sels ! j))
           \<and> choose_sel env (LinearInterpolationSelector_init keyname selections) h =
               (if i = length sels then twin (get_choice env (snd (sels ! (i - 1))) h)
                else if i = 0 \<or> fst (sels ! i) = q then twin (get_choice env (snd (sels ! i)) h)
                else pair_of (get_choice env (snd (sels ! (i - 1))) h)
                       (get_choice env (snd (sels ! i)) h))))"
proof (intro conjI impI)
  assume a: "distinct (map fst selections) \<and> selections \<noteq> [] \<and> h keyname = Some (Num q)"
  then have dict: "distinct (map fst selections)" and ne: "selections \<noteq> []"
    and query: "h keyname = Some (Num q)" by simp_all
  show "let sels = sorted_items (<) selections;
            i = length (filter (\<lambda>k. k < q) (map fst selections))
        in sorted (map fst sels)
           \<and> i \<le> length sels
           \<and> (\<forall>j < i. fst (sels ! j) < q)
           \<and> (\<forall>j. i \<le> j \<and> j < length sels \<longrightarrow> q \<le> fst (sels ! j))
           \<and> choose_sel env (LinearInterpolationSelector_init keyname selections) h =
               (if i = length sels then twin (get_choice env (snd (sels ! (i - 1))) h)
                else if i = 0 \<or> fst (sels ! i) = q then twin (get_choice env (snd (sels ! i)) h)
                else pair_of (get_choice env (snd (sels ! (i - 1))) h)
                       (get_choice env (snd (sels ! i)) h))"
    unfolding Let_def
    using sorted_sorted_items [of selections] LinearInterpolation_position(2-4) [OF dict, of q]
      LinearInterpolation_choose_cases [where h = h and keyname = keyname and env = env,
        OF dict ne query]
    by (intro conjI)
qed (simp_all add: LinearInterpolationSelector_init_def Selector_init_def sorted_items_def
      li_pick_def li_scan.simps cmp3_def)

theorem LinearInterpolationSelector_choose_witness:
  "choose_sel example_pylib
     (LinearInterpolationSelector_init ''w''
        [(5, Terminal ''c''), (6 / 5, Terminal ''a''), (3 / 2, Terminal ''b'')])
     [''w'' \<mapsto> Num 3]
   = Inr (Tuple2 (Filename ''b'') (Filename ''c''))"
proof -
  let ?sel = "[(5, Terminal ''c''), (6 / 5, Terminal ''a''), (3 / 2, Terminal ''b'')] :: (rat \<times> choice) list"
  let ?h = "[''w'' \<mapsto> Num 3]"
  have hyp: "distinct (map fst ?sel) \<and> ?sel \<noteq> [] \<and> ?h ''w'' = Some (Num 3)" by simp
  have sorted: "sorted_items (<) ?sel = [(6 / 5, Terminal ''a''), (3 / 2, Terminal ''b''), (5, Terminal ''c'')]"
    by (simp add: sorted_items_def)
  from LinearInterpolationSelector_choose_bracket [of example_pylib ?sel ?h "''w''" 3,
      THEN conjunct2, THEN conjunct2, THEN conjunct2, THEN mp, OF hyp]
  show ?thesis
    by (simp add: Let_def sorted pair_of_def)
qed

section \<open>The order of VersionRelations\<close>

lemma cmp3_self: "cmp3 a a = 0"
  by (simp add: cmp3_def)

lemma cmp3_neg: "cmp3 a b = - cmp3 b a"
  by (auto simp: cmp3_def)

lemma cmp3_zero: "(cmp3 a b = 0) = (a = b)"
  by (auto simp: cmp3_def)

lemma cmp3_le: "(cmp3 a b \<le> 0) = (a \<le> b)"
  by (auto simp: cmp3_def)

lemma cmp3_lt: "(cmp3 a b < 0) = (a < b)"
  by (auto simp: cmp3_def)

lemma cmp3_range: "cmp3 a b \<in> {- 1, 0, 1}"
  by (auto simp: cmp3_def)

lemma py_cmp_self: "py_cmp a a = 0"
  by (cases a) (simp_all add: cmp3_self)

lemma py_cmp_neg: "py_cmp a b = - py_cmp b a"
  by (cases a; cases b) (auto simp: cmp3_def)

lemma py_cmp_zero: "(py_cmp a b = 0) = (a = b)"
  by (cases a; cases b) (simp_all add: cmp3_zero)

lemma py_cmp_range: "py_cmp a b \<in> {- 1, 0, 1}"
  by (cases a; cases b) (simp_all only: py_cmp.simps cmp3_range)

lemma py_cmp_trans: "py_cmp a b \<le> 0 \<Longrightarrow> py_cmp b c \<le> 0 \<Longrightarrow> py_cmp a c \<le> 0"
  by (cases a; cases b; cases c) (simp_all add: cmp3_le)

lemma py_cmp_strict_trans: "py_cmp a b < 0 \<Longrightarrow> py_cmp b c \<le> 0 \<Longrightarrow> py_cmp a c < 0"
  by (cases a; cases b; cases c) (simp_all add: cmp3_le cmp3_lt)

lemma py_cmp_strict_trans2: "py_cmp a b \<le> 0 \<Longrightarrow> py_cmp b c < 0 \<Longrightarrow> py_cmp a c < 0"
  by (cases a; cases b; cases c) (simp_all add: cmp3_le cmp3_lt)


lemma VersionRelation_cmp_le:
  assumes "version r \<noteq> Str ''default''"
  shows "(VersionRelation_cmp r s \<le> 0) =
         (py_cmp (version r) (version s) < 0 \<or> version r = version s \<and> relation r \<le> relation s)"
  using assms py_cmp_zero [of "version r" "version s"]
  by (auto simp: VersionRelation_cmp_def cmp3_le py_cmp_self)

lemma VersionRelation_cmp_refl:
  "version r \<noteq> Str ''default'' \<Longrightarrow> VersionRelation_cmp r r = 0"
  by (simp add: VersionRelation_cmp_def py_cmp_self)

lemma VersionRelation_cmp_neg:
  assumes "version r \<noteq> Str ''default''" "version s \<noteq> Str ''default''"
  shows "VersionRelation_cmp r s = - VersionRelation_cmp s r"
  using assms py_cmp_neg [of "version r" "version s"] cmp3_neg [of "relation r" "relation s"]
  by (auto simp: VersionRelation_cmp_def)

lemma VersionRelation_cmp_zero:
  assumes "version r \<noteq> Str ''default''"
  shows "(VersionRelation_cmp r s = 0) = (r = s)"
  using assms by (cases r; cases s) (auto simp: VersionRelation_cmp_def cmp3_zero py_cmp_zero)

lemma VersionRelation_cmp_trans:
  assumes "version r \<noteq> Str ''default''" "version s \<noteq> Str ''default''"
    and rs: "VersionRelation_cmp r s \<le> 0" and st: "VersionRelation_cmp s t \<le> 0"
  shows "VersionRelation_cmp r t \<le> 0"
proof -
  from rs assms(1) have rs': "py_cmp (version r) (version s) < 0 \<or>
      version r = version s \<and> relation r \<le> relation s"
    by (simp add: VersionRelation_cmp_le)
  from st assms(2) have st': "py_cmp (version s) (version t) < 0 \<or>
      version s = version t \<and> relation s \<le> relation t"
    by (simp add: VersionRelation_cmp_le)
  have "py_cmp (version r) (version t) < 0 \<or> version r = version t \<and> relation r \<le> relation t"
  proof (cases "py_cmp (version r) (version s) < 0")
    case True
    moreover from st' have "py_cmp (version s) (version t) \<le> 0" by (auto simp: py_cmp_self)
    ultimately have "py_cmp (version r) (version t) < 0" by (rule py_cmp_strict_trans)
    then show ?thesis ..
  next
    case False
    with rs' have eq: "version r = version s" and le: "relation r \<le> relation s" by simp_all
    from st' show ?thesis using eq le by auto
  qed
  with assms(1) show ?thesis by (simp add: VersionRelation_cmp_le)
qed

lemma VersionRelation_cmp_range: "VersionRelation_cmp r s \<in> {- 1, 0, 1}"
  using py_cmp_range [of "version r" "version s"] cmp3_range [of "relation r" "relation s"]
  by (simp add: VersionRelation_cmp_def)

text \<open>
  Claim C5, as amended.  On VersionRelations other than 'default' (those whose version is
  not the string \<^verbatim>\<open>"default"\<close>), \<^verbatim>\<open>__cmp__\<close> is a total order: a relation compared
  with itself gives 0, \<^verbatim>\<open>cmp(r, s)\<close> is the negative of \<^verbatim>\<open>cmp(s, r)\<close> and is 0 only
  for equal relations, the comparison is transitive, and its value is one of -1, 0, 1, so
  any two relations are comparable.  The order is by version first and by relation symbol
  second, so among relations with equal versions '<' comes strictly before '='.  A
  'default' relation \<open>d\<close> compares greater than whatever it is compared with
  (\<^verbatim>\<open>cmp(d, x) = 1\<close> for every \<open>x\<close>, \<open>d\<close> itself included), and every relation with a
  numeric version compares less than 'default'.
\<close>

theorem VersionRelation_cmp_order:
  assumes "version r \<noteq> Str ''default''" "version s \<noteq> Str ''default''"
  shows "VersionRelation_cmp r r = 0
    \<and> VersionRelation_cmp r s = - VersionRelation_cmp s r
    \<and> (VersionRelation_cmp r s = 0) = (r = s)
    \<and> (VersionRelation_cmp r s \<le> 0 \<and> VersionRelation_cmp s t \<le> 0 \<longrightarrow> VersionRelation_cmp r t \<le> 0)
    \<and> VersionRelation_cmp r s \<in> {- 1, 0, 1}
    \<and> (version d = Str ''default'' \<longrightarrow> VersionRelation_cmp d x = 1)
    \<and> (version d = Str ''default'' \<and> version r = Num q \<longrightarrow> VersionRelation_cmp r d = - 1)
    \<and> (relation r = ''<'' \<and> relation s = ''='' \<and> version r = version s \<longrightarrow>
         VersionRelation_cmp r s = - 1)"
proof (intro conjI impI)
  show "VersionRelation_cmp r r = 0" using assms(1) by (rule VersionRelation_cmp_refl)
  show "VersionRelation_cmp r s = - VersionRelation_cmp s r" using assms by (rule VersionRelation_cmp_neg)
  show "(VersionRelation_cmp r s = 0) = (r = s)" using assms(1) by (rule VersionRelation_cmp_zero)
  show "VersionRelation_cmp r t \<le> 0"
    if "VersionRelation_cmp r s \<le> 0 \<and> VersionRelation_cmp s t \<le> 0"
    using assms that by (blast intro: VersionRelation_cmp_trans)
  show "VersionRelation_cmp r s \<in> {- 1, 0, 1}" by (rule VersionRelation_cmp_range)
  show "VersionRelation_cmp d x = 1" if "version d = Str ''default''"
    using that by (simp add: VersionRelation_cmp_def)
  show "VersionRelation_cmp r d = - 1" if "version d = Str ''default'' \<and> version r = Num q"
    using that by (auto simp: VersionRelation_cmp_def cmp3_def)
  show "VersionRelation_cmp r s = - 1"
    if "relation r = ''<'' \<and> relation s = ''='' \<and> version r = version s"
    using that assms by (simp add: VersionRelation_cmp_def cmp3_def)
qed

text \<open>
  The claim as stated fails where it says that comparing any relation with itself yields
  equality: \<^verbatim>\<open>VersionRelation("default")\<close> compared with itself gives 1, because
  \<^verbatim>\<open>__cmp__\<close> answers 1 as soon as \<^verbatim>\<open>self.version == "default"\<close>, whatever the other
  operand is.
\<close>

theorem VersionRelation_cmp_default_itself:
  "VersionRelation_init example_pylib ''default''
     = Inr \<lparr>relation = ''default'', version = Str ''default''\<rparr>
   \<and> VersionRelation_cmp \<lparr>relation = ''default'', version = Str ''default''\<rparr>
         \<lparr>relation = ''default'', version = Str ''default''\<rparr> = 1
   \<and> \<not> (\<forall>r. VersionRelation_cmp r r = 0)"
proof -
  have init: "VersionRelation_init example_pylib ''default''
     = Inr \<lparr>relation = ''default'', version = Str ''default''\<rparr>"
    by (simp add: VersionRelation_init_def RELATION_RE_match_def startswith_def py_strip_def Let_def)
  have one: "VersionRelation_cmp \<lparr>relation = ''default'', version = Str ''default''\<rparr>
         \<lparr>relation = ''default'', version = Str ''default''\<rparr> = 1"
    by (simp add: VersionRelation_cmp_def)
  then have "\<not> (\<forall>r. VersionRelation_cmp r r = 0)"
    by (metis one_neq_zero)
  with init one show ?thesis by simp
qed

theorem VersionRelation_cmp_order_witness:
  "VersionRelation_cmp \<lparr>relation = ''<'', version = Num 5\<rparr> \<lparr>relation = ''='', version = Num 5\<rparr> = - 1
   \<and> VersionRelation_cmp \<lparr>relation = ''='', version = Num 5\<rparr> \<lparr>relation = ''<'', version = Num 5\<rparr> = 1
   \<and> VersionRelation_cmp \<lparr>relation = ''<'', version = Num 5\<rparr> \<lparr>relation = ''<'', version = Num 6\<rparr> \<le> 0
   \<and> VersionRelation_cmp \<lparr>relation = ''<'', version = Num 5\<rparr>
         \<lparr>relation = ''default'', version = Str ''default''\<rparr> = - 1
   \<and> VersionRelation_cmp \<lparr>relation = ''default'', version = Str ''default''\<rparr>
         \<lparr>relation = ''<'', version = Num 5\<rparr> = 1"
proof -
  let ?r = "\<lparr>relation = ''<'', version = Num 5\<rparr>"
  let ?s = "\<lparr>relation = ''='', version = Num 5\<rparr>"
  let ?t = "\<lparr>relation = ''<'', version = Num 6\<rparr>"
  let ?d = "\<lparr>relation = ''default'', version = Str ''default''\<rparr>"
  have r: "version ?r \<noteq> Str ''default''" and s: "version ?s \<noteq> Str ''default''" by simp_all
  have st: "VersionRelation_cmp ?s ?t \<le> 0" by (simp add: VersionRelation_cmp_def cmp3_def)
  from VersionRelation_cmp_order [OF r s, of ?t ?d ?r 5] st show ?thesis by simp
qed

text \<open>
  A relation whose version is a tuple is not below 'default': CPython 2 orders a tuple
  after a string, and \<^verbatim>\<open>__cmp__\<close> compares the tuple with the string
  \<^verbatim>\<open>"default"\<close>.
\<close>

lemma VersionRelation_cmp_tuple_default:
  "VersionRelation_cmp \<lparr>relation = ''<'', version = Tup [5, 0, 1]\<rparr>
     \<lparr>relation = ''default'', version = Str ''default''\<rparr> = 1"
  by (simp add: VersionRelation_cmp_def cmp3_def)

section \<open>MatchingSelector.__init__ (lines 520 to 598, 699 to 718)\<close>

fun key_items :: "match_key \<Rightarrow> field list" where
  "key_items (Tuple fs) = fs"
| "key_items (Plain s) = map (\<lambda>c. FStr [c]) s"

fun field_lt :: "field \<Rightarrow> field \<Rightarrow> bool" where
  "field_lt (FStr a) (FStr b) = (a < b)"
| "field_lt (FStr a) (FTup b) = True"
| "field_lt (FTup a) (FStr b) = False"
| "field_lt (FTup a) (FTup b) = (a < b)"

fun tuple_lt :: "field list \<Rightarrow> field list \<Rightarrow> bool" where
  "tuple_lt [] [] = False"
| "tuple_lt [] (y # ys) = True"
| "tuple_lt (x # xs) [] = False"
| "tuple_lt (x # xs) (y # ys) = (if x = y then tuple_lt xs ys else field_lt x y)"

fun match_key_lt :: "match_key \<Rightarrow> match_key \<Rightarrow> bool" where
  "match_key_lt (Plain a) (Plain b) = (a < b)"
| "match_key_lt (Plain a) (Tuple b) = True"
| "match_key_lt (Tuple a) (Plain b) = False"
| "match_key_lt (Tuple a) (Tuple b) = tuple_lt a b"

fun setup_parameters ::
  "string list \<Rightarrow> string list \<times> (string \<rightharpoonup> bool) \<Rightarrow> string list \<times> (string \<rightharpoonup> bool)"
where
  "setup_parameters [] st = st"
| "setup_parameters (par # rest) (parameters, required) =
     (if startswith par ''*''
      then setup_parameters rest (parameters @ [drop 1 par], required(drop 1 par \<mapsto> False))
      else setup_parameters rest (parameters @ [par], required(par \<mapsto> True)))"

definition dict_set :: "'k \<Rightarrow> 'v \<Rightarrow> ('k \<times> 'v) list \<Rightarrow> ('k \<times> 'v) list" where
  \<comment> \<open>\<^verbatim>\<open>d[k] = v\<close> on a dictionary kept as an association list\<close>
  "dict_set k v d =
     (if k \<in> fst ` set d then map (\<lambda>e. if fst e = k then (k, v) else e) d else d @ [(k, v)])"

definition fix_simple_keys :: "string list \<Rightarrow> (match_key \<times> 'c) list \<Rightarrow> (match_key \<times> 'c) list" where
  "fix_simple_keys parameters selections =
     (if length parameters \<noteq> 1 then selections
      else fold (\<lambda>(key, v) new_selections.
                   dict_set (case key of Plain s \<Rightarrow> Tuple [FStr s] | Tuple fs \<Rightarrow> key) v new_selections)
             selections [])"

fun matchers_of :: "pylib \<Rightarrow> field list \<Rightarrow> exc + matcher list" where
  "matchers_of env [] = Inr []"
| "matchers_of env (parkey # rest) =
     (case matcher env parkey of
        Inl e \<Rightarrow> Inl e
      | Inr m \<Rightarrow> (case matchers_of env rest of Inl e \<Rightarrow> Inl e | Inr ms \<Rightarrow> Inr (m # ms)))"

fun get_matcher_selections ::
  "pylib \<Rightarrow> (match_key \<times> 'c) list \<Rightarrow> exc + (match_key, 'c) match_selections"
where
  "get_matcher_selections env [] = Inr []"
| "get_matcher_selections env ((keytuple, choice) # mappings) =
     (case matchers_of env (key_items keytuple) of
        Inl e \<Rightarrow> Inl e
      | Inr matchers \<Rightarrow>
          (case get_matcher_selections env mappings of
             Inl e \<Rightarrow> Inl e
           | Inr selections \<Rightarrow> Inr ((keytuple, matchers, choice) # selections)))"

fun repr_field :: "field \<Rightarrow> string" where
  "repr_field (FStr s) = repr_str s"
| "repr_field (FTup ks) = repr_tuple (map repr_str ks)"

fun repr_key :: "match_key \<Rightarrow> string" where
  "repr_key (Plain s) = repr_str s"
| "repr_key (Tuple fs) = repr_tuple (map repr_field fs)"

fun field_values :: "field \<Rightarrow> string list" where
  "field_values (FStr s) = [s]"
| "field_values (FTup ks) = ks"

fun key_values :: "string list \<Rightarrow> nat \<Rightarrow> match_key list \<Rightarrow> exc + string list" where
  "key_values parameters i [] = Inr []"
| "key_values parameters i (key # rest) =
     (if i \<ge> length (key_items key) then
        Inl (Exc ValueError (''Match tuple '' @ repr_key key @ '' wrong length for parameter list '' @
               repr_tuple (map repr_str parameters)))
      else
        (case key_values parameters i rest of
           Inl e \<Rightarrow> Inl e
         | Inr vs \<Rightarrow> Inr (field_values (key_items key ! i) @ vs)))"

fun value_map_loop ::
  "string list \<Rightarrow> match_key list \<Rightarrow> nat \<Rightarrow> string list \<Rightarrow> (string \<rightharpoonup> string list) \<Rightarrow>
   exc + (string \<rightharpoonup> string list)"
where
  "value_map_loop parameters ks i [] vmap = Inr vmap"
| "value_map_loop parameters ks i (fitsvar # rest) vmap =
     (case key_values parameters i ks of
        Inl e \<Rightarrow> Inl e
      | Inr vs \<Rightarrow> value_map_loop parameters ks (Suc i) rest (vmap(fitsvar \<mapsto> sort (remdups vs))))"

definition get_value_map :: "string list \<Rightarrow> match_key list \<Rightarrow> exc + (string \<rightharpoonup> string list)" where
  "get_value_map parameters ks = value_map_loop parameters ks 0 parameters Map.empty"

definition MatchingSelector_init ::
  "pylib \<Rightarrow> string list \<Rightarrow> (match_key \<times> choice) list \<Rightarrow> exc + selector"
where
  "MatchingSelector_init env parameters selections =
     (let sorted_selections = sorted_items match_key_lt selections;
          (ps, required) = setup_parameters parameters ([], Map.empty);
          fixed = fix_simple_keys ps selections
      in case get_matcher_selections env fixed of
           Inl e \<Rightarrow> Inl e
         | Inr match_selections \<Rightarrow>
             (case get_value_map ps (keys sorted_selections) of
                Inl e \<Rightarrow> Inl e
              | Inr value_map \<Rightarrow>
                  Inr (MatchingSelector ps required value_map sorted_selections match_selections)))"

definition example_selections :: "(match_key \<times> choice) list" where
  "example_selections =
     [(Tuple [FStr ''1.0'', FStr ''*''], Terminal ''100''),
      (Tuple [FStr ''1.0'', FStr ''2.0''], Terminal ''200''),
      (Tuple [FStr ''*'', FStr ''*''], Terminal ''300'')]"

definition example_match :: selector where
  "example_match =
     MatchingSelector [''foo'', ''bar''] [''foo'' \<mapsto> False, ''bar'' \<mapsto> True]
       [''foo'' \<mapsto> [''*'', ''1.0''], ''bar'' \<mapsto> [''*'', ''2.0'']]
       [(Tuple [FStr ''*'', FStr ''*''], Terminal ''300''),
        (Tuple [FStr ''1.0'', FStr ''*''], Terminal ''100''),
        (Tuple [FStr ''1.0'', FStr ''2.0''], Terminal ''200'')]
       [(Tuple [FStr ''1.0'', FStr ''*''], [Matcher ''1.0'', WildcardMatcher], Terminal ''100''),
        (Tuple [FStr ''1.0'', FStr ''2.0''], [Matcher ''1.0'', Matcher ''2.0''], Terminal ''200''),
        (Tuple [FStr ''*'', FStr ''*''], [WildcardMatcher, WildcardMatcher], Terminal ''300'')]"

lemma example_match_init:
  "MatchingSelector_init env [''*foo'', ''bar''] example_selections = Inr example_match"
  unfolding MatchingSelector_init_def example_selections_def example_match_def
  by (simp add: Let_def sorted_items_def startswith_def fix_simple_keys_def matcher_def
      get_value_map_def keys_def)


text \<open>
  The documented example of the class docstring (lines 452 to 474): the selector built from
  \<^verbatim>\<open>("*foo", "bar")\<close> and its three cases, and the three documented lookups.
\<close>

lemmas match_eval = winnowing_match_def winnow_def initial_weights_def header_get_def del_key_def
  rank_candidates_def missing_parameter_message_def repr_str_def repr_char_def sq_def dq_def
  backslash_def

lemma ex_both: "choose_sel env example_match [''foo'' \<mapsto> Str ''1.0'', ''bar'' \<mapsto> Str ''2.0'']
    = Inr (Filename ''200'')"
  by (simp add: example_match_def match_eval)

lemma ex_bar: "choose_sel env example_match [''bar'' \<mapsto> Str ''2.0''] = Inr (Filename ''200'')"
  by (simp add: example_match_def match_eval)

lemma ex_empty: "choose_sel env example_match Map.empty
    = Inl (Exc MissingParameterError (''Required parameter '' @ [sq] @ ''bar'' @ [sq] @ '' is missing.''))"
  by (simp add: example_match_def match_eval Let_def)

section \<open>What winnowing and ranking compute (lines 651 to 697)\<close>

definition counted :: "exc + int \<Rightarrow> int" where
  \<comment> \<open>what a match status takes off a weight: the status itself unless it is -1\<close>
  "counted r = (case r of Inr match_status \<Rightarrow> if match_status = - 1 then 0 else match_status | Inl e \<Rightarrow> 0)"

lemma winnow_items_result:
  assumes "winnow_items env required parkey i v items (weights, remaining) = Inr (weights', remaining')"
    and "distinct (map fst items)"
  shows "remaining' = filter (\<lambda>e. \<not> (\<exists>ms c. (fst e, ms, c) \<in> set items \<and>
              match env (ms ! i) v = Inr (- 1) \<and> required parkey = Some True)) remaining
       \<and> (\<forall>k ms c. (k, ms, c) \<in> set items \<longrightarrow>
              weights' k = map_option (\<lambda>w. w - counted (match env (ms ! i) v)) (weights k))
       \<and> (\<forall>k. k \<notin> fst ` set items \<longrightarrow> weights' k = weights k)"
  using assms
proof (induction items arbitrary: weights remaining)
  case Nil
  then show ?case by simp
next
  case (Cons item items)
  obtain k ms c where item: "item = (k, ms, c)" by (cases item)
  from Cons.prems(2) item have knew: "k \<notin> fst ` set items" and d: "distinct (map fst items)"
    by auto
  from Cons.prems(1) item have len: "i < length ms"
    by (auto split: if_splits)
  from Cons.prems(1) item len obtain st where st: "match env (ms ! i) v = Inr st"
    by (cases "match env (ms ! i) v") auto
  let ?dropped = "\<lambda>its e. \<exists>ms c. (fst e, ms, c) \<in> set its \<and>
              match env (ms ! i) v = Inr (- 1) \<and> required parkey = Some True"
  show ?case
  proof (cases "st = - 1")
    case True
    from Cons.prems(1) item len st True obtain req where req: "required parkey = Some req"
      by (cases "required parkey") auto
    show ?thesis
    proof (cases req)
      case True
      with Cons.prems(1) item len st \<open>st = - 1\<close> req
      have run: "winnow_items env required parkey i v items (weights, del_key k remaining)
          = Inr (weights', remaining')" by simp
      note ih = Cons.IH [OF run d]
      have "remaining' = filter (\<lambda>e. \<not> ?dropped items e) (del_key k remaining)"
        using ih by simp
      also have "\<dots> = filter (\<lambda>e. \<not> ?dropped (item # items) e) remaining"
        unfolding del_key_def filter_filter
        by (rule filter_cong) (use item st \<open>st = - 1\<close> req True in auto)
      finally have A: "remaining' = filter (\<lambda>e. \<not> ?dropped (item # items) e) remaining" .
      from ih knew have "weights' k = weights k" by simp
      then have Bk: "weights' k = map_option (\<lambda>w. w - counted (match env (ms ! i) v)) (weights k)"
        using st \<open>st = - 1\<close> by (simp add: counted_def option.map_ident)
      have B: "\<forall>k' ms' c'. (k', ms', c') \<in> set (item # items) \<longrightarrow>
              weights' k' = map_option (\<lambda>w. w - counted (match env (ms' ! i) v)) (weights k')"
        using ih Bk item by auto
      have C: "\<forall>k'. k' \<notin> fst ` set (item # items) \<longrightarrow> weights' k' = weights k'"
        using ih by simp
      from A B C show ?thesis by blast
    next
      case False
      with Cons.prems(1) item len st \<open>st = - 1\<close> req
      have run: "winnow_items env required parkey i v items (weights, remaining)
          = Inr (weights', remaining')" by simp
      note ih = Cons.IH [OF run d]
      have "remaining' = filter (\<lambda>e. \<not> ?dropped items e) remaining"
        using ih by simp
      also have "\<dots> = filter (\<lambda>e. \<not> ?dropped (item # items) e) remaining"
        by (rule filter_cong) (use item req False in auto)
      finally have A: "remaining' = filter (\<lambda>e. \<not> ?dropped (item # items) e) remaining" .
      from ih knew have "weights' k = weights k" by simp
      then have Bk: "weights' k = map_option (\<lambda>w. w - counted (match env (ms ! i) v)) (weights k)"
        using st \<open>st = - 1\<close> by (simp add: counted_def option.map_ident)
      have B: "\<forall>k' ms' c'. (k', ms', c') \<in> set (item # items) \<longrightarrow>
              weights' k' = map_option (\<lambda>w. w - counted (match env (ms' ! i) v)) (weights k')"
        using ih Bk item by auto
      have C: "\<forall>k'. k' \<notin> fst ` set (item # items) \<longrightarrow> weights' k' = weights k'"
        using ih by simp
      from A B C show ?thesis by blast
    qed
  next
    case False
    from Cons.prems(1) item len st False obtain w where w: "weights k = Some w"
      by (cases "weights k") auto
    with Cons.prems(1) item len st False
    have run: "winnow_items env required parkey i v items (weights(k \<mapsto> w - st), remaining)
        = Inr (weights', remaining')" by simp
    note ih = Cons.IH [OF run d]
    have "remaining' = filter (\<lambda>e. \<not> ?dropped items e) remaining"
      using ih by simp
    also have "\<dots> = filter (\<lambda>e. \<not> ?dropped (item # items) e) remaining"
      by (rule filter_cong) (use item st False in auto)
    finally have A: "remaining' = filter (\<lambda>e. \<not> ?dropped (item # items) e) remaining" .
    from ih knew have "weights' k = Some (w - st)" by simp
    then have Bk: "weights' k = map_option (\<lambda>w. w - counted (match env (ms ! i) v)) (weights k)"
      using st False w by (simp add: counted_def)
    have B: "\<forall>k' ms' c'. (k', ms', c') \<in> set (item # items) \<longrightarrow>
            weights' k' = map_option (\<lambda>w. w - counted (match env (ms' ! i) v)) (weights k')"
    proof (intro allI impI)
      fix k' ms' c' assume mem: "(k', ms', c') \<in> set (item # items)"
      show "weights' k' = map_option (\<lambda>w. w - counted (match env (ms' ! i) v)) (weights k')"
      proof (cases "(k', ms', c') = item")
        case True
        with item Bk show ?thesis by simp
      next
        case False
        with mem have in_items: "(k', ms', c') \<in> set items" by simp
        then have "k' \<in> fst ` set items" by force
        with knew have ne: "k' \<noteq> k" by auto
        from ih [THEN conjunct2, THEN conjunct1, rule_format, OF in_items]
        have "weights' k' = map_option (\<lambda>w. w - counted (match env (ms' ! i) v))
                ((weights(k \<mapsto> w - st)) k')" .
        with ne show ?thesis by simp
      qed
    qed
    have C: "\<forall>k'. k' \<notin> fst ` set (item # items) \<longrightarrow> weights' k' = weights k'"
      using ih item by auto
    from A B C show ?thesis by blast
  qed
qed


definition status :: "pylib \<Rightarrow> header \<Rightarrow> string list \<Rightarrow> matcher list \<Rightarrow> nat \<Rightarrow> exc + int" where
  "status env h parameters matchers i = match env (matchers ! i) (header_get h (parameters ! i))"

definition survives ::
  "pylib \<Rightarrow> (string \<rightharpoonup> bool) \<Rightarrow> header \<Rightarrow> string list \<Rightarrow> matcher list \<Rightarrow> bool"
where
  "survives env required h parameters matchers =
     (\<forall>i < length parameters.
        \<not> (status env h parameters matchers i = Inr (- 1) \<and> required (parameters ! i) = Some True))"

definition final_weight :: "pylib \<Rightarrow> header \<Rightarrow> string list \<Rightarrow> matcher list \<Rightarrow> int" where
  "final_weight env h parameters matchers =
     0 - (\<Sum>i\<leftarrow>[0..<length parameters]. counted (status env h parameters matchers i))"

lemma sum_list_upt_Suc_shift:
  "(\<Sum>j\<leftarrow>[0..<Suc m]. f j) = (f 0 :: int) + (\<Sum>j\<leftarrow>[0..<m]. f (Suc j))"
proof -
  have "[0..<Suc m] = 0 # map Suc [0..<m]"
    by (simp add: upt_conv_Cons map_Suc_upt del: upt_Suc)
  then show ?thesis by (simp add: comp_def del: upt_Suc)
qed

lemma distinct_keys_entry:
  assumes "distinct (map fst xs)" "e \<in> set xs" "(fst e, ms, c) \<in> set xs"
  shows "ms = fst (snd e) \<and> c = snd (snd e)"
proof -
  from assms(2) have "(fst e, snd e) \<in> set xs" by simp
  with assms(1,3) have "(ms, c) = snd e" by (meson eq_key_imp_eq_value)
  then show ?thesis by (metis fst_conv snd_conv)
qed

lemma winnow_parameters_result:
  assumes "winnow_parameters env required h n rest (weights, remaining) = Inr (weights', remaining')"
    and "distinct (map fst remaining)"
  shows "remaining' = filter (\<lambda>e. \<forall>j < length rest.
              \<not> (match env (fst (snd e) ! (n + j)) (header_get h (rest ! j)) = Inr (- 1) \<and>
                 required (rest ! j) = Some True)) remaining
       \<and> (\<forall>e \<in> set remaining'. weights' (fst e) =
              map_option (\<lambda>w. w - (\<Sum>j\<leftarrow>[0..<length rest].
                 counted (match env (fst (snd e) ! (n + j)) (header_get h (rest ! j))))) (weights (fst e)))"
  using assms
proof (induction rest arbitrary: n weights remaining)
  case Nil
  then show ?case by (simp add: option.map_ident)
next
  case (Cons p rest)
  let ?v = "header_get h p"
  from Cons.prems(1) obtain w1 r1 where
    inner: "winnow_items env required p n ?v remaining (weights, remaining) = Inr (w1, r1)"
    and outer: "winnow_parameters env required h (Suc n) rest (w1, r1) = Inr (weights', remaining')"
    by (auto split: sum.splits)
  note step = winnow_items_result [OF inner Cons.prems(2)]
  let ?P = "\<lambda>e. \<not> (match env (fst (snd e) ! n) ?v = Inr (- 1) \<and> required p = Some True)"
  let ?Q = "\<lambda>e. \<forall>j < length rest.
              \<not> (match env (fst (snd e) ! (Suc n + j)) (header_get h (rest ! j)) = Inr (- 1) \<and>
                 required (rest ! j) = Some True)"
  have r1: "r1 = filter ?P remaining"
  proof -
    from step have "r1 = filter (\<lambda>e. \<not> (\<exists>ms c. (fst e, ms, c) \<in> set remaining \<and>
              match env (ms ! n) ?v = Inr (- 1) \<and> required p = Some True)) remaining" by blast
    also have "\<dots> = filter ?P remaining"
    proof (rule filter_cong [OF refl])
      fix e assume e: "e \<in> set remaining"
      then have self: "(fst e, fst (snd e), snd (snd e)) \<in> set remaining" by simp
      show "(\<not> (\<exists>ms c. (fst e, ms, c) \<in> set remaining \<and>
              match env (ms ! n) ?v = Inr (- 1) \<and> required p = Some True)) = ?P e"
        using distinct_keys_entry [OF Cons.prems(2) e] self by blast
    qed
    finally show ?thesis .
  qed
  have w1: "w1 (fst e) = map_option (\<lambda>w. w - counted (match env (fst (snd e) ! n) ?v)) (weights (fst e))"
    if "e \<in> set remaining" for e
  proof -
    from that have "(fst e, fst (snd e), snd (snd e)) \<in> set remaining" by simp
    with step show ?thesis by blast
  qed
  have d1: "distinct (map fst r1)"
    unfolding r1 using Cons.prems(2) by (rule distinct_map_filter)
  note ih = Cons.IH [OF outer d1]
  have A: "remaining' = filter (\<lambda>e. \<forall>j < length (p # rest).
              \<not> (match env (fst (snd e) ! (n + j)) (header_get h ((p # rest) ! j)) = Inr (- 1) \<and>
                 required ((p # rest) ! j) = Some True)) remaining"
  proof -
    from ih have "remaining' = filter ?Q r1" by simp
    also have "\<dots> = filter (\<lambda>e. ?P e \<and> ?Q e) remaining"
      unfolding r1 filter_filter ..
    also have "\<dots> = filter (\<lambda>e. \<forall>j < length (p # rest).
              \<not> (match env (fst (snd e) ! (n + j)) (header_get h ((p # rest) ! j)) = Inr (- 1) \<and>
                 required ((p # rest) ! j) = Some True)) remaining"
      by (rule filter_cong [OF refl]) (simp add: All_less_Suc2)
    finally show ?thesis .
  qed
  have B: "\<forall>e \<in> set remaining'. weights' (fst e) =
              map_option (\<lambda>w. w - (\<Sum>j\<leftarrow>[0..<length (p # rest)].
                 counted (match env (fst (snd e) ! (n + j)) (header_get h ((p # rest) ! j)))))
                (weights (fst e))"
  proof
    fix e assume e: "e \<in> set remaining'"
    with ih have "e \<in> set r1" by simp
    with r1 have er: "e \<in> set remaining" by simp
    from ih e have "weights' (fst e) =
        map_option (\<lambda>w. w - (\<Sum>j\<leftarrow>[0..<length rest].
          counted (match env (fst (snd e) ! (Suc n + j)) (header_get h (rest ! j))))) (w1 (fst e))"
      by blast
    also note w1 [OF er]
    finally show "weights' (fst e) =
              map_option (\<lambda>w. w - (\<Sum>j\<leftarrow>[0..<length (p # rest)].
                 counted (match env (fst (snd e) ! (n + j)) (header_get h ((p # rest) ! j)))))
                (weights (fst e))"
      by (simp add: option.map_comp comp_def sum_list_upt_Suc_shift diff_diff_eq del: upt_Suc)
  qed
  from A B show ?case by blast
qed

lemma winnow_result:
  assumes run: "winnow env parameters required h match_selections = Inr (weights, remaining)"
    and dict: "distinct (map fst match_selections)"
  shows "remaining = filter (\<lambda>e. survives env required h parameters (fst (snd e))) match_selections"
    and "\<forall>e \<in> set remaining. weights (fst e) = Some (final_weight env h parameters (fst (snd e)))"
proof -
  note r = winnow_parameters_result [OF run [unfolded winnow_def] dict]
  from r show rem: "remaining = filter (\<lambda>e. survives env required h parameters (fst (snd e))) match_selections"
    by (simp add: survives_def status_def)
  show "\<forall>e \<in> set remaining. weights (fst e) = Some (final_weight env h parameters (fst (snd e)))"
  proof
    fix e assume e: "e \<in> set remaining"
    with rem have "e \<in> set match_selections" by simp
    then have "initial_weights match_selections (fst e) = Some 0"
      by (simp add: initial_weights_def)
    with r e show "weights (fst e) = Some (final_weight env h parameters (fst (snd e)))"
      by (simp add: final_weight_def status_def)
  qed
qed


definition group_of :: "(int \<times> 'k list) list \<Rightarrow> int \<Rightarrow> 'k list" where
  "group_of cs w = (case map_of cs w of None \<Rightarrow> [] | Some g \<Rightarrow> g)"

lemma map_of_add_candidate:
  "map_of (add_candidate w k cs) w' = (if w' = w then Some (group_of cs w @ [k]) else map_of cs w')"
  by (induction cs) (auto simp: group_of_def)

lemma map_fst_add_candidate:
  "map fst (add_candidate w k cs) = (if w \<in> set (map fst cs) then map fst cs else map fst cs @ [w])"
  by (induction cs) (force split: if_splits)+

lemma distinct_add_candidate:
  "distinct (map fst cs) \<Longrightarrow> distinct (map fst (add_candidate w k cs))"
  by (simp add: map_fst_add_candidate)

lemma collect_candidates_result:
  assumes "\<forall>e \<in> set remaining. weights (fst e) \<noteq> None" "distinct (map fst cs)"
  shows "\<exists>cs'. collect_candidates weights remaining cs = Inr cs'
       \<and> distinct (map fst cs')
       \<and> (\<forall>w. map_of cs' w =
             (if filter (\<lambda>e. weights (fst e) = Some w) remaining = [] then map_of cs w
              else Some (group_of cs w @ map fst (filter (\<lambda>e. weights (fst e) = Some w) remaining))))"
  using assms
proof (induction remaining arbitrary: cs)
  case Nil
  then show ?case by simp
next
  case (Cons e remaining)
  obtain k junk where e: "e = (k, junk)" by (cases e)
  from Cons.prems e obtain wk where wk: "weights k = Some wk" by auto
  let ?cs1 = "add_candidate wk k cs"
  from Cons.prems(2) have d1: "distinct (map fst ?cs1)" by (rule distinct_add_candidate)
  from Cons.prems(1) have "\<forall>e \<in> set remaining. weights (fst e) \<noteq> None" by simp
  from Cons.IH [OF this d1] obtain cs' where
    run: "collect_candidates weights remaining ?cs1 = Inr cs'"
    and d: "distinct (map fst cs')"
    and m: "\<forall>w. map_of cs' w =
             (if filter (\<lambda>e. weights (fst e) = Some w) remaining = [] then map_of ?cs1 w
              else Some (group_of ?cs1 w @ map fst (filter (\<lambda>e. weights (fst e) = Some w) remaining)))"
    by blast
  have run': "collect_candidates weights (e # remaining) cs = Inr cs'"
    using run wk e by simp
  have "map_of cs' w =
             (if filter (\<lambda>e. weights (fst e) = Some w) (e # remaining) = [] then map_of cs w
              else Some (group_of cs w @ map fst (filter (\<lambda>e. weights (fst e) = Some w) (e # remaining))))"
    for w
    using m [rule_format, of w] wk e
    by (auto simp: map_of_add_candidate group_of_def)
  with run' d show ?case by blast
qed

lemma rank_candidates_result:
  assumes "\<forall>e \<in> set remaining. weights (fst e) \<noteq> None"
  shows "\<exists>groups. rank_candidates weights remaining = Inr groups
       \<and> sorted (map fst groups) \<and> distinct (map fst groups)
       \<and> (\<forall>w g. (w, g) \<in> set groups \<longrightarrow>
              g \<noteq> [] \<and> g = map fst (filter (\<lambda>e. weights (fst e) = Some w) remaining))
       \<and> (\<forall>e \<in> set remaining. \<exists>w g. weights (fst e) = Some w \<and> (w, g) \<in> set groups)"
proof -
  from collect_candidates_result [OF assms, of "[]"] obtain cs where
    run: "collect_candidates weights remaining [] = Inr cs"
    and d: "distinct (map fst cs)"
    and m: "\<forall>w. map_of cs w =
             (if filter (\<lambda>e. weights (fst e) = Some w) remaining = [] then None
              else Some (map fst (filter (\<lambda>e. weights (fst e) = Some w) remaining)))"
    by (auto simp: group_of_def)
  let ?groups = "sort_key fst cs"
  have r: "rank_candidates weights remaining = Inr ?groups"
    by (simp add: rank_candidates_def run)
  have s: "sorted (map fst ?groups)" by (rule sorted_sort_key)
  have dg: "distinct (map fst ?groups)" using d by (simp add: distinct_map)
  have g: "g \<noteq> [] \<and> g = map fst (filter (\<lambda>e. weights (fst e) = Some w) remaining)"
    if "(w, g) \<in> set ?groups" for w g
  proof -
    from that have "(w, g) \<in> set cs" by simp
    with d have "map_of cs w = Some g" by simp
    with m [rule_format, of w] show ?thesis by (auto split: if_splits)
  qed
  have c: "\<exists>w g. weights (fst e) = Some w \<and> (w, g) \<in> set ?groups" if e: "e \<in> set remaining" for e
  proof -
    from assms e obtain w where w: "weights (fst e) = Some w" by auto
    with e have "filter (\<lambda>e. weights (fst e) = Some w) remaining \<noteq> []"
      by (auto simp: filter_empty_conv)
    with m [rule_format, of w] obtain g where "map_of cs w = Some g" by auto
    then have "(w, g) \<in> set cs" by (rule map_of_SomeD)
    with w show ?thesis by auto
  qed
  from r s dg g c show ?thesis by blast
qed

section \<open>Winnowing weights and ranked groups\<close>

definition claimed_weight :: "pylib \<Rightarrow> header \<Rightarrow> string list \<Rightarrow> matcher list \<Rightarrow> int" where
  "claimed_weight env h parameters matchers =
     0 - (\<Sum>i\<leftarrow>[0..<length parameters].
            (case status env h parameters matchers i of Inr match_status \<Rightarrow> match_status | Inl e \<Rightarrow> 0))"

definition example_match_selections :: "(match_key, choice) match_selections" where
  "example_match_selections =
     [(Tuple [FStr ''1.0'', FStr ''*''], [Matcher ''1.0'', WildcardMatcher], Terminal ''100''),
      (Tuple [FStr ''1.0'', FStr ''2.0''], [Matcher ''1.0'', Matcher ''2.0''], Terminal ''200''),
      (Tuple [FStr ''*'', FStr ''*''], [WildcardMatcher, WildcardMatcher], Terminal ''300'')]"

text \<open>
  Claim C3, as amended. \<^verbatim>\<open>_winnow\<close> starts every case at weight 0. Binding the
  positional parameters in order to the header's value, or to \<^verbatim>\<open>"NOT PRESENT"\<close>
  when the parameter is absent, it removes a case exactly when its matcher for that field
  returns -1 on a required parameter (\<^const>\<open>survives\<close>). A status of +1 or 0 is
  subtracted from the weight of the case; a status of -1 on an optional parameter leaves the
  weight as it is (\<^const>\<open>counted\<close>, \<^const>\<open>final_weight\<close>).
  \<^verbatim>\<open>_rank_candidates\<close> then groups the survivors by weight: the groups come out
  in strictly ascending order of weight, each group is non-empty and holds exactly the surviving
  keys of its weight, and every survivor is in a group.
\<close>

theorem winnow_and_rank:
  assumes dict: "distinct (map fst match_selections)"
    and run: "winnow env parameters required h match_selections = Inr (weights, remaining)"
  shows "(\<forall>e \<in> set match_selections. initial_weights match_selections (fst e) = Some 0)
       \<and> remaining = filter (\<lambda>e. survives env required h parameters (fst (snd e))) match_selections
       \<and> (\<forall>e \<in> set remaining. weights (fst e) = Some (final_weight env h parameters (fst (snd e))))
       \<and> (\<exists>groups. rank_candidates weights remaining = Inr groups
            \<and> sorted (map fst groups) \<and> distinct (map fst groups)
            \<and> (\<forall>w g. (w, g) \<in> set groups \<longrightarrow>
                  g \<noteq> [] \<and>
                  g = map fst (filter (\<lambda>e. final_weight env h parameters (fst (snd e)) = w) remaining))
            \<and> (\<forall>e \<in> set remaining. final_weight env h parameters (fst (snd e)) \<in> fst ` set groups))"
proof -
  have init: "\<forall>e \<in> set match_selections. initial_weights match_selections (fst e) = Some 0"
    by (simp add: initial_weights_def)
  note w = winnow_result [OF run dict]
  from w(2) have defined: "\<forall>e \<in> set remaining. weights (fst e) \<noteq> None" by simp
  from rank_candidates_result [OF defined] obtain groups where
    r: "rank_candidates weights remaining = Inr groups"
    and s: "sorted (map fst groups)" and d: "distinct (map fst groups)"
    and g: "\<forall>w g. (w, g) \<in> set groups \<longrightarrow>
              g \<noteq> [] \<and> g = map fst (filter (\<lambda>e. weights (fst e) = Some w) remaining)"
    and c: "\<forall>e \<in> set remaining. \<exists>w g. weights (fst e) = Some w \<and> (w, g) \<in> set groups"
    by blast
  have same: "filter (\<lambda>e. weights (fst e) = Some w) remaining
      = filter (\<lambda>e. final_weight env h parameters (fst (snd e)) = w) remaining" for w
    by (rule filter_cong [OF refl]) (use w(2) in auto)
  have g': "\<forall>w g. (w, g) \<in> set groups \<longrightarrow>
                  g \<noteq> [] \<and>
                  g = map fst (filter (\<lambda>e. final_weight env h parameters (fst (snd e)) = w) remaining)"
    using g by (simp add: same)
  have c': "\<forall>e \<in> set remaining. final_weight env h parameters (fst (snd e)) \<in> fst ` set groups"
  proof
    fix e assume e: "e \<in> set remaining"
    with c obtain w g where "weights (fst e) = Some w" "(w, g) \<in> set groups" by blast
    moreover from w(2) e have "weights (fst e) = Some (final_weight env h parameters (fst (snd e)))"
      by blast
    ultimately show "final_weight env h parameters (fst (snd e)) \<in> fst ` set groups" by force
  qed
  from init w(1) w(2) r s d g' c' show ?thesis by blast
qed

text \<open>
  The theorem at the documented selector and the header \<^verbatim>\<open>{bar: '2.0'}\<close>: no
  case is removed, the weights are 0, -1 and 0, and the exact match on bar ranks first.
\<close>

lemmas winnow_eval = winnow_def initial_weights_def header_get_def del_key_def

theorem winnow_and_rank_witness:
  "\<exists>weights remaining.
     winnow example_pylib [''foo'', ''bar''] [''foo'' \<mapsto> False, ''bar'' \<mapsto> True]
       [''bar'' \<mapsto> Str ''2.0''] example_match_selections = Inr (weights, remaining)
     \<and> remaining = example_match_selections
     \<and> weights (Tuple [FStr ''1.0'', FStr ''*'']) = Some 0
     \<and> weights (Tuple [FStr ''1.0'', FStr ''2.0'']) = Some (- 1)
     \<and> weights (Tuple [FStr ''*'', FStr ''*'']) = Some 0
     \<and> rank_candidates weights remaining =
         Inr [(- 1, [Tuple [FStr ''1.0'', FStr ''2.0'']]),
              (0, [Tuple [FStr ''1.0'', FStr ''*''], Tuple [FStr ''*'', FStr ''*'']])]"
proof -
  let ?ps = "[''foo'', ''bar'']"
  let ?req = "[''foo'' \<mapsto> False, ''bar'' \<mapsto> True]"
  let ?h = "[''bar'' \<mapsto> Str ''2.0'']"
  obtain weights remaining where
    run: "winnow example_pylib ?ps ?req ?h example_match_selections = Inr (weights, remaining)"
    by (simp add: example_match_selections_def winnow_eval)
  have dict: "distinct (map fst example_match_selections)"
    by (simp add: example_match_selections_def)
  note t = winnow_and_rank [OF dict run]
  have surv: "filter (\<lambda>e. survives example_pylib ?req ?h ?ps (fst (snd e))) example_match_selections
      = example_match_selections"
    by (simp add: example_match_selections_def survives_def status_def header_get_def
        All_less_Suc2 numeral_2_eq_2)
  with t have rem: "remaining = example_match_selections" by simp
  have fw: "final_weight example_pylib ?h ?ps [Matcher ''1.0'', WildcardMatcher] = 0"
    "final_weight example_pylib ?h ?ps [Matcher ''1.0'', Matcher ''2.0''] = - 1"
    "final_weight example_pylib ?h ?ps [WildcardMatcher, WildcardMatcher] = 0"
    by (simp_all add: final_weight_def status_def header_get_def counted_def upt_rec)
  from t rem fw have w: "weights (Tuple [FStr ''1.0'', FStr ''*'']) = Some 0"
    "weights (Tuple [FStr ''1.0'', FStr ''2.0'']) = Some (- 1)"
    "weights (Tuple [FStr ''*'', FStr ''*'']) = Some 0"
    by (simp_all add: example_match_selections_def)
  have rank: "rank_candidates weights remaining =
         Inr [(- 1, [Tuple [FStr ''1.0'', FStr ''2.0'']]),
              (0, [Tuple [FStr ''1.0'', FStr ''*''], Tuple [FStr ''*'', FStr ''*'']])]"
    by (simp add: rem example_match_selections_def rank_candidates_def w)
  from run rem w rank show ?thesis by blast
qed

text \<open>
  Claim C3 as stated has the status -1 of a mismatch on an optional parameter subtracted from
  the weight as well (\<^const>\<open>claimed_weight\<close>). For the documented selector and the
  header \<^verbatim>\<open>{bar: '2.0'}\<close>, the case \<^verbatim>\<open>('1.0', '2.0')\<close> has status -1 on the
  absent optional foo and +1 on bar: the code leaves it at weight -1, where subtracting both
  statuses gives 0.
\<close>

theorem winnow_optional_mismatch_counterexample:
  "(case winnow example_pylib [''foo'', ''bar''] [''foo'' \<mapsto> False, ''bar'' \<mapsto> True]
           [''bar'' \<mapsto> Str ''2.0''] example_match_selections of
      Inl e \<Rightarrow> None
    | Inr (weights, remaining) \<Rightarrow> weights (Tuple [FStr ''1.0'', FStr ''2.0''])) = Some (- 1)
   \<and> status example_pylib [''bar'' \<mapsto> Str ''2.0''] [''foo'', ''bar'']
        [Matcher ''1.0'', Matcher ''2.0''] 0 = Inr (- 1)
   \<and> status example_pylib [''bar'' \<mapsto> Str ''2.0''] [''foo'', ''bar'']
        [Matcher ''1.0'', Matcher ''2.0''] 1 = Inr 1
   \<and> claimed_weight example_pylib [''bar'' \<mapsto> Str ''2.0''] [''foo'', ''bar'']
        [Matcher ''1.0'', Matcher ''2.0''] = 0"
  by (simp add: example_match_selections_def winnow_eval claimed_weight_def status_def upt_rec)

section \<open>MatchingSelector.choose over the ranked groups (lines 603 to 649)\<close>

definition try_groups ::
  "pylib \<Rightarrow> header \<Rightarrow> (match_key, choice) match_selections \<Rightarrow> (int \<times> match_key list) list \<Rightarrow>
   exc + result"
where
  "try_groups env h remaining groups = match_loop env h (yield_groups remaining groups)"

lemma try_groups_all_fail:
  "(\<forall>(w, g) \<in> set groups. \<exists>k ms s e. g = [k] \<and> map_of remaining k = Some (ms, Nested s) \<and>
        choose_sel env s h = Inl e \<and> is_LookupError e)
   \<Longrightarrow> try_groups env h remaining groups = Inl (Exc MatchingError ''No match.'')"
  unfolding try_groups_def
  by (induction groups) auto

text \<open>
  When \<^verbatim>\<open>_winnow\<close> raises, a matcher raised: on a selector whose cases have a matcher
  for every parameter and whose parameters are all known as required or optional, the exception
  is the one some matcher raised on the value bound to its parameter.
\<close>

lemma winnow_items_defined:
  "winnow_items env required parkey i v items (weights, remaining) = Inr (weights', remaining')
   \<Longrightarrow> weights k \<noteq> None \<Longrightarrow> weights' k \<noteq> None"
proof (induction items arbitrary: weights remaining)
  case Nil
  then show ?case by simp
next
  case (Cons item items)
  obtain k' ms c where item: "item = (k', ms, c)" by (cases item)
  from Cons.prems item show ?case
    by (auto split: if_splits sum.splits option.splits dest: Cons.IH)
qed

lemma winnow_items_error:
  assumes "winnow_items env required parkey i v items (weights, remaining) = Inl e"
    and "\<forall>entry \<in> set items. i < length (fst (snd entry))"
    and "required parkey \<noteq> None"
    and "\<forall>entry \<in> set items. weights (fst entry) \<noteq> None"
  shows "\<exists>entry \<in> set items. match env (fst (snd entry) ! i) v = Inl e"
  using assms
proof (induction items arbitrary: weights remaining)
  case Nil
  then show ?case by simp
next
  case (Cons item items)
  obtain k ms c where item: "item = (k, ms, c)" by (cases item)
  from Cons.prems(2) item have len: "i < length ms"
    and lens: "\<forall>entry \<in> set items. i < length (fst (snd entry))" by auto
  from Cons.prems(3) obtain req where req: "required parkey = Some req" by auto
  from Cons.prems(4) item obtain w where w: "weights k = Some w" by auto
  from Cons.prems(4) have defined: "\<forall>entry \<in> set items. weights (fst entry) \<noteq> None" by simp
  show ?case
  proof (cases "match env (ms ! i) v")
    case (Inl e')
    with Cons.prems(1) item len have "e' = e" by simp
    with Inl item show ?thesis by simp
  next
    case (Inr st)
    show ?thesis
    proof (cases "st = - 1")
      case True
      with Cons.prems(1) item len Inr req
      have "\<exists>remaining'. winnow_items env required parkey i v items (weights, remaining') = Inl e"
        by (cases req) auto
      then obtain remaining' where
        "winnow_items env required parkey i v items (weights, remaining') = Inl e" ..
      from Cons.IH [OF this lens Cons.prems(3) defined] show ?thesis by simp
    next
      case False
      with Cons.prems(1) item len Inr w
      have run: "winnow_items env required parkey i v items (weights(k \<mapsto> w - st), remaining) = Inl e"
        by simp
      from defined have "\<forall>entry \<in> set items. (weights(k \<mapsto> w - st)) (fst entry) \<noteq> None" by simp
      from Cons.IH [OF run lens Cons.prems(3) this] show ?thesis by simp
    qed
  qed
qed

lemma winnow_parameters_error:
  assumes "winnow_parameters env required h i ps (weights, remaining) = Inl e"
    and "\<forall>entry \<in> set remaining. i + length ps \<le> length (fst (snd entry))"
    and "\<forall>p \<in> set ps. required p \<noteq> None"
    and "\<forall>entry \<in> set remaining. weights (fst entry) \<noteq> None"
  shows "\<exists>entry \<in> set remaining. \<exists>j < length ps.
           match env (fst (snd entry) ! (i + j)) (header_get h (ps ! j)) = Inl e"
  using assms
proof (induction ps arbitrary: i weights remaining)
  case Nil
  then show ?case by simp
next
  case (Cons parkey rest)
  from Cons.prems(2) have len: "\<forall>entry \<in> set remaining. i < length (fst (snd entry))" by auto
  from Cons.prems(3) have req: "required parkey \<noteq> None" by simp
  show ?case
  proof (cases "winnow_items env required parkey i (header_get h parkey) remaining (weights, remaining)")
    case (Inl e')
    with Cons.prems(1) have "e' = e" by simp
    with Inl have run: "winnow_items env required parkey i (header_get h parkey) remaining
        (weights, remaining) = Inl e" by simp
    from winnow_items_error [OF run len req Cons.prems(4)]
    obtain entry where "entry \<in> set remaining"
      "match env (fst (snd entry) ! i) (header_get h parkey) = Inl e" by blast
    then have "entry \<in> set remaining \<and> 0 < length (parkey # rest) \<and>
        match env (fst (snd entry) ! (i + 0)) (header_get h ((parkey # rest) ! 0)) = Inl e" by simp
    then show ?thesis by blast
  next
    case (Inr st)
    obtain weights' remaining' where st: "st = (weights', remaining')" by (cases st)
    from Inr st Cons.prems(1)
    have run: "winnow_parameters env required h (Suc i) rest (weights', remaining') = Inl e" by simp
    from winnow_items_subset Inr st have sub: "set remaining' \<subseteq> set remaining" by metis
    from Cons.prems(2) sub
    have len': "\<forall>entry \<in> set remaining'. Suc i + length rest \<le> length (fst (snd entry))" by auto
    from Cons.prems(3) have req': "\<forall>p \<in> set rest. required p \<noteq> None" by simp
    have defined': "\<forall>entry \<in> set remaining'. weights' (fst entry) \<noteq> None"
      using winnow_items_defined [OF Inr [unfolded st]] Cons.prems(4) sub by blast
    from Cons.IH [OF run len' req' defined'] obtain entry j where
      entry: "entry \<in> set remaining'" and j: "j < length rest"
      and m: "match env (fst (snd entry) ! (Suc i + j)) (header_get h (rest ! j)) = Inl e" by blast
    from entry sub j m
    have "entry \<in> set remaining \<and> Suc j < length (parkey # rest) \<and>
        match env (fst (snd entry) ! (i + Suc j)) (header_get h ((parkey # rest) ! Suc j)) = Inl e"
      by auto
    then show ?thesis by blast
  qed
qed

lemma winnow_error:
  assumes "winnow env parameters required h match_selections = Inl e"
    and "\<forall>entry \<in> set match_selections. length parameters \<le> length (fst (snd entry))"
    and "\<forall>p \<in> set parameters. required p \<noteq> None"
  shows "\<exists>entry \<in> set match_selections. \<exists>i < length parameters.
           status env h parameters (fst (snd entry)) i = Inl e"
proof -
  have "\<forall>entry \<in> set match_selections. initial_weights match_selections (fst entry) \<noteq> None"
    by (simp add: initial_weights_def)
  from winnow_parameters_error [OF assms(1) [unfolded winnow_def] _ assms(3) this] assms(2)
  show ?thesis by (simp add: status_def)
qed

text \<open>
  Claim C1, as amended. For a header that passes \<^verbatim>\<open>validate_query\<close>,
  \<^verbatim>\<open>choose\<close> first winnows. When \<^verbatim>\<open>_winnow\<close> raises, which is when a matcher
  raises on the value bound to its parameter, \<^verbatim>\<open>choose\<close> raises that exception. When
  \<^verbatim>\<open>_winnow\<close> returns, the remaining cases are the survivors, ranking yields groups in
  strictly ascending order of weight, each group holding exactly the survivors of its weight
  and every survivor being in a group, and \<^verbatim>\<open>choose\<close> is \<^const>\<open>try_groups\<close> on
  them, from the lowest weight on: no group left raises MatchingError "No match."; a first group
  of more than one case raises AmbiguousMatchError whatever the weaker groups are; a single case
  holding a terminal string returns it; a single case holding a nested selector returns what the
  nested \<^verbatim>\<open>choose\<close> returns, continues with the remaining groups when it raises a
  LookupError (UseAfterError is one), and lets any other exception through. When the nested
  selector of every group raises a LookupError, \<^verbatim>\<open>choose\<close> raises MatchingError.
\<close>

theorem MatchingSelector_choose_groups:
  assumes valid: "validate_query env parameters required value_map h = Inr ()"
    and dict: "distinct (map fst match_selections)"
  shows "(\<forall>e. winnow env parameters required h match_selections = Inl e \<longrightarrow>
            choose_sel env (MatchingSelector parameters required value_map selections match_selections) h
              = Inl e)
     \<and> (\<forall>e. winnow env parameters required h match_selections = Inl e
            \<and> (\<forall>entry \<in> set match_selections. length parameters \<le> length (fst (snd entry)))
            \<and> (\<forall>p \<in> set parameters. required p \<noteq> None) \<longrightarrow>
            (\<exists>entry \<in> set match_selections. \<exists>i < length parameters.
               status env h parameters (fst (snd entry)) i = Inl e))
     \<and> (\<forall>weights remaining.
           winnow env parameters required h match_selections = Inr (weights, remaining) \<longrightarrow>
           remaining = filter (\<lambda>e. survives env required h parameters (fst (snd e))) match_selections
           \<and> (\<exists>groups. rank_candidates weights remaining = Inr groups
                \<and> sorted (map fst groups) \<and> distinct (map fst groups)
                \<and> (\<forall>w g. (w, g) \<in> set groups \<longrightarrow>
                      g \<noteq> [] \<and>
                      g = map fst (filter (\<lambda>e. final_weight env h parameters (fst (snd e)) = w) remaining))
                \<and> (\<forall>e \<in> set remaining. final_weight env h parameters (fst (snd e)) \<in> fst ` set groups)
                \<and> choose_sel env
                     (MatchingSelector parameters required value_map selections match_selections) h
                     = try_groups env h remaining groups
                \<and> ((\<forall>(w, g) \<in> set groups. \<exists>k ms s e. g = [k] \<and> map_of remaining k = Some (ms, Nested s) \<and>
                        choose_sel env s h = Inl e \<and> is_LookupError e) \<longrightarrow>
                     choose_sel env
                       (MatchingSelector parameters required value_map selections match_selections) h
                       = Inl (Exc MatchingError ''No match.''))))
     \<and> try_groups env h cases [] = Inl (Exc MatchingError ''No match.'')
     \<and> (\<forall>w g rest. length g > 1 \<longrightarrow>
           try_groups env h cases ((w, g) # rest) = Inl (Exc AmbiguousMatchError ''Ambiguous match.''))
     \<and> (\<forall>w k rest ms f. map_of cases k = Some (ms, Terminal f) \<longrightarrow>
           try_groups env h cases ((w, [k]) # rest) = Inr (Filename f))
     \<and> (\<forall>w k rest ms s. map_of cases k = Some (ms, Nested s) \<longrightarrow>
           try_groups env h cases ((w, [k]) # rest) =
             (case choose_sel env s h of
                Inr r \<Rightarrow> Inr r
              | Inl e \<Rightarrow> if is_LookupError e then try_groups env h cases rest else Inl e))
     \<and> (\<forall>m. is_LookupError (Exc UseAfterError m))"
proof -
  let ?choose = "choose_sel env
      (MatchingSelector parameters required value_map selections match_selections) h"
  have raised: "\<forall>e. winnow env parameters required h match_selections = Inl e \<longrightarrow> ?choose = Inl e"
    by (simp add: valid winnowing_match_def)
  have matcher: "\<forall>e. winnow env parameters required h match_selections = Inl e
            \<and> (\<forall>entry \<in> set match_selections. length parameters \<le> length (fst (snd entry)))
            \<and> (\<forall>p \<in> set parameters. required p \<noteq> None) \<longrightarrow>
            (\<exists>entry \<in> set match_selections. \<exists>i < length parameters.
               status env h parameters (fst (snd entry)) i = Inl e)"
    using winnow_error [of env parameters required h match_selections] by blast
  have returned: "remaining = filter (\<lambda>e. survives env required h parameters (fst (snd e))) match_selections
           \<and> (\<exists>groups. rank_candidates weights remaining = Inr groups
                \<and> sorted (map fst groups) \<and> distinct (map fst groups)
                \<and> (\<forall>w g. (w, g) \<in> set groups \<longrightarrow>
                      g \<noteq> [] \<and>
                      g = map fst (filter (\<lambda>e. final_weight env h parameters (fst (snd e)) = w) remaining))
                \<and> (\<forall>e \<in> set remaining. final_weight env h parameters (fst (snd e)) \<in> fst ` set groups)
                \<and> ?choose = try_groups env h remaining groups
                \<and> ((\<forall>(w, g) \<in> set groups. \<exists>k ms s e. g = [k] \<and> map_of remaining k = Some (ms, Nested s) \<and>
                        choose_sel env s h = Inl e \<and> is_LookupError e) \<longrightarrow>
                     ?choose = Inl (Exc MatchingError ''No match.'')))"
    if winnowed: "winnow env parameters required h match_selections = Inr (weights, remaining)"
    for weights remaining
  proof -
    note w = winnow_result [OF winnowed dict]
    from w(2) have defined: "\<forall>e \<in> set remaining. weights (fst e) \<noteq> None" by simp
    from rank_candidates_result [OF defined] obtain groups where
      r: "rank_candidates weights remaining = Inr groups"
      and s: "sorted (map fst groups)" and d: "distinct (map fst groups)"
      and g: "\<forall>w g. (w, g) \<in> set groups \<longrightarrow>
                g \<noteq> [] \<and> g = map fst (filter (\<lambda>e. weights (fst e) = Some w) remaining)"
      and c: "\<forall>e \<in> set remaining. \<exists>w g. weights (fst e) = Some w \<and> (w, g) \<in> set groups"
      by blast
    have same: "filter (\<lambda>e. weights (fst e) = Some w) remaining
        = filter (\<lambda>e. final_weight env h parameters (fst (snd e)) = w) remaining" for w
      by (rule filter_cong [OF refl]) (use w(2) in auto)
    have g': "\<forall>w g. (w, g) \<in> set groups \<longrightarrow>
                    g \<noteq> [] \<and>
                    g = map fst (filter (\<lambda>e. final_weight env h parameters (fst (snd e)) = w) remaining)"
      using g by (simp add: same)
    have c': "\<forall>e \<in> set remaining. final_weight env h parameters (fst (snd e)) \<in> fst ` set groups"
    proof
      fix e assume e: "e \<in> set remaining"
      with c obtain w g where "weights (fst e) = Some w" "(w, g) \<in> set groups" by blast
      moreover from w(2) e have "weights (fst e) = Some (final_weight env h parameters (fst (snd e)))"
        by blast
      ultimately show "final_weight env h parameters (fst (snd e)) \<in> fst ` set groups" by force
    qed
    have ch: "?choose = try_groups env h remaining groups"
      by (simp add: valid winnowing_match_def winnowed r try_groups_def)
    have f: "(\<forall>(w, g) \<in> set groups. \<exists>k ms s e. g = [k] \<and> map_of remaining k = Some (ms, Nested s) \<and>
               choose_sel env s h = Inl e \<and> is_LookupError e) \<longrightarrow>
             ?choose = Inl (Exc MatchingError ''No match.'')"
      using try_groups_all_fail [of groups remaining env h] ch by simp
    have "\<exists>groups. rank_candidates weights remaining = Inr groups
                \<and> sorted (map fst groups) \<and> distinct (map fst groups)
                \<and> (\<forall>w g. (w, g) \<in> set groups \<longrightarrow>
                      g \<noteq> [] \<and>
                      g = map fst (filter (\<lambda>e. final_weight env h parameters (fst (snd e)) = w) remaining))
                \<and> (\<forall>e \<in> set remaining. final_weight env h parameters (fst (snd e)) \<in> fst ` set groups)
                \<and> ?choose = try_groups env h remaining groups
                \<and> ((\<forall>(w, g) \<in> set groups. \<exists>k ms s e. g = [k] \<and> map_of remaining k = Some (ms, Nested s) \<and>
                        choose_sel env s h = Inl e \<and> is_LookupError e) \<longrightarrow>
                     ?choose = Inl (Exc MatchingError ''No match.''))"
      by (intro exI [of _ groups] conjI r s d g' c' ch f)
    with w(1) show ?thesis by (intro conjI)
  qed
  have e: "try_groups env h cases [] = Inl (Exc MatchingError ''No match.'')"
    by (simp add: try_groups_def)
  have a: "\<forall>w g rest. length g > 1 \<longrightarrow>
           try_groups env h cases ((w, g) # rest) = Inl (Exc AmbiguousMatchError ''Ambiguous match.'')"
    by (simp add: try_groups_def)
  have t: "\<forall>w k rest ms f. map_of cases k = Some (ms, Terminal f) \<longrightarrow>
           try_groups env h cases ((w, [k]) # rest) = Inr (Filename f)"
    by (simp add: try_groups_def)
  have n: "\<forall>w k rest ms s. map_of cases k = Some (ms, Nested s) \<longrightarrow>
           try_groups env h cases ((w, [k]) # rest) =
             (case choose_sel env s h of
                Inr r \<Rightarrow> Inr r
              | Inl e \<Rightarrow> if is_LookupError e then try_groups env h cases rest else Inl e)"
    by (simp add: try_groups_def split: sum.splits)
  have u: "\<forall>m. is_LookupError (Exc UseAfterError m)"
    by (simp add: is_LookupError_def LookupError_classes_def)
  from returned have returned': "\<forall>weights remaining.
           winnow env parameters required h match_selections = Inr (weights, remaining) \<longrightarrow>
           remaining = filter (\<lambda>e. survives env required h parameters (fst (snd e))) match_selections
           \<and> (\<exists>groups. rank_candidates weights remaining = Inr groups
                \<and> sorted (map fst groups) \<and> distinct (map fst groups)
                \<and> (\<forall>w g. (w, g) \<in> set groups \<longrightarrow>
                      g \<noteq> [] \<and>
                      g = map fst (filter (\<lambda>e. final_weight env h parameters (fst (snd e)) = w) remaining))
                \<and> (\<forall>e \<in> set remaining. final_weight env h parameters (fst (snd e)) \<in> fst ` set groups)
                \<and> ?choose = try_groups env h remaining groups
                \<and> ((\<forall>(w, g) \<in> set groups. \<exists>k ms s e. g = [k] \<and> map_of remaining k = Some (ms, Nested s) \<and>
                        choose_sel env s h = Inl e \<and> is_LookupError e) \<longrightarrow>
                     ?choose = Inl (Exc MatchingError ''No match.'')))"
    by (intro allI impI)
  show ?thesis
    by (intro conjI raised matcher returned' e a t n u)
qed

text \<open>
  The theorem at a selector over two nested UseAfter selectors: for an observation of 2003 the
  exact match on foo ranks first but its UseAfter selector has no date early enough, so the
  lookup continues with the wildcard case and returns its file.
\<close>

definition fallthrough_example :: selector where
  "fallthrough_example =
     MatchingSelector [''foo''] [''foo'' \<mapsto> True] [''foo'' \<mapsto> [''*'', ''1.0'']]
       [(Tuple [FStr ''*''],
           Nested (UseAfterSelector [''DATE-OBS'', ''TIME-OBS''] [(''2000-01-01 00:00:00'', Terminal ''old'')])),
        (Tuple [FStr ''1.0''],
           Nested (UseAfterSelector [''DATE-OBS'', ''TIME-OBS''] [(''2005-01-01 00:00:00'', Terminal ''new'')]))]
       [(Tuple [FStr ''1.0''], [Matcher ''1.0''],
           Nested (UseAfterSelector [''DATE-OBS'', ''TIME-OBS''] [(''2005-01-01 00:00:00'', Terminal ''new'')])),
        (Tuple [FStr ''*''], [WildcardMatcher],
           Nested (UseAfterSelector [''DATE-OBS'', ''TIME-OBS''] [(''2000-01-01 00:00:00'', Terminal ''old'')]))]"

definition fallthrough_header :: header where
  "fallthrough_header =
     [''foo'' \<mapsto> Str ''1.0'', ''DATE-OBS'' \<mapsto> Str ''2003-01-01'', ''TIME-OBS'' \<mapsto> Str ''00:00:00'']"

lemma fallthrough_example_init:
  "MatchingSelector_init env [''foo'']
     [(Tuple [FStr ''1.0''],
         Nested (UseAfterSelector_init [''DATE-OBS'', ''TIME-OBS''] [(''2005-01-01 00:00:00'', Terminal ''new'')])),
      (Tuple [FStr ''*''],
         Nested (UseAfterSelector_init [''DATE-OBS'', ''TIME-OBS''] [(''2000-01-01 00:00:00'', Terminal ''old'')]))]
   = Inr fallthrough_example"
  by (simp add: MatchingSelector_init_def fallthrough_example_def Let_def sorted_items_def
      startswith_def fix_simple_keys_def dict_set_def matcher_def get_value_map_def keys_def
      UseAfterSelector_init_def Selector_init_def)

theorem MatchingSelector_choose_witness:
  "choose_sel example_pylib fallthrough_example fallthrough_header = Inr (Filename ''old'')
   \<and> (\<exists>weights. winnow example_pylib [''foo''] [''foo'' \<mapsto> True] fallthrough_header
          [(Tuple [FStr ''1.0''], [Matcher ''1.0''],
              Nested (UseAfterSelector [''DATE-OBS'', ''TIME-OBS''] [(''2005-01-01 00:00:00'', Terminal ''new'')])),
           (Tuple [FStr ''*''], [WildcardMatcher],
              Nested (UseAfterSelector [''DATE-OBS'', ''TIME-OBS''] [(''2000-01-01 00:00:00'', Terminal ''old'')]))]
        = Inr (weights,
          [(Tuple [FStr ''1.0''], [Matcher ''1.0''],
              Nested (UseAfterSelector [''DATE-OBS'', ''TIME-OBS''] [(''2005-01-01 00:00:00'', Terminal ''new'')])),
           (Tuple [FStr ''*''], [WildcardMatcher],
              Nested (UseAfterSelector [''DATE-OBS'', ''TIME-OBS''] [(''2000-01-01 00:00:00'', Terminal ''old'')]))])
        \<and> rank_candidates weights
          [(Tuple [FStr ''1.0''], [Matcher ''1.0''],
              Nested (UseAfterSelector [''DATE-OBS'', ''TIME-OBS''] [(''2005-01-01 00:00:00'', Terminal ''new'')])),
           (Tuple [FStr ''*''], [WildcardMatcher],
              Nested (UseAfterSelector [''DATE-OBS'', ''TIME-OBS''] [(''2000-01-01 00:00:00'', Terminal ''old'')]))]
        = Inr [(- 1, [Tuple [FStr ''1.0'']]), (0, [Tuple [FStr ''*'']])])"
proof -
  let ?ua_new = "UseAfterSelector [''DATE-OBS'', ''TIME-OBS''] [(''2005-01-01 00:00:00'', Terminal ''new'')]"
  let ?ua_old = "UseAfterSelector [''DATE-OBS'', ''TIME-OBS''] [(''2000-01-01 00:00:00'', Terminal ''old'')]"
  let ?ms = "[(Tuple [FStr ''1.0''], [Matcher ''1.0''], Nested ?ua_new),
              (Tuple [FStr ''*''], [WildcardMatcher], Nested ?ua_old)]"
  let ?ps = "[''foo'']"
  let ?req = "[''foo'' \<mapsto> True]"
  let ?vm = "[''foo'' \<mapsto> [''*'', ''1.0'']]"
  let ?h = "fallthrough_header"
  have valid: "validate_query example_pylib ?ps ?req ?vm ?h = Inr ()"
    by (simp add: fallthrough_header_def)
  have dict: "distinct (map fst ?ms)" by simp
  obtain weights where
    run: "winnow example_pylib ?ps ?req ?h ?ms = Inr (weights, ?ms)"
    and w: "weights (Tuple [FStr ''1.0'']) = Some (- 1)" "weights (Tuple [FStr ''*'']) = Some 0"
    by (simp add: winnow_eval fallthrough_header_def)
  have rank: "rank_candidates weights ?ms = Inr [(- 1, [Tuple [FStr ''1.0'']]), (0, [Tuple [FStr ''*'']])]"
    by (simp add: rank_candidates_def w)
  have new: "choose_sel example_pylib ?ua_new ?h
      = Inl (Exc UseAfterError (''No selection with time < '' @ repr_str ''2003-01-01 00:00:00''))"
    by (simp add: fallthrough_header_def use_after_date_def example_pylib_def bsearch_single
        use_after_error_def)
  have old: "choose_sel example_pylib ?ua_old ?h = Inr (Filename ''old'')"
    by (simp add: fallthrough_header_def use_after_date_def example_pylib_def bsearch_single)
  let ?sel = "[(Tuple [FStr ''*''], Nested ?ua_old), (Tuple [FStr ''1.0''], Nested ?ua_new)]"
  note t = MatchingSelector_choose_groups [OF valid dict, where cases = ?ms and selections = ?sel]
  note returned = t [THEN conjunct2, THEN conjunct2, THEN conjunct1, rule_format, OF run,
      THEN conjunct2]
  from returned obtain groups where
    g: "rank_candidates weights ?ms = Inr groups"
    and c0: "choose_sel example_pylib (MatchingSelector ?ps ?req ?vm ?sel ?ms) ?h
        = try_groups example_pylib ?h ?ms groups"
    by (elim exE conjE) (rule that; assumption)
  from g rank have "groups = [(- 1, [Tuple [FStr ''1.0'']]), (0, [Tuple [FStr ''*'']])]" by simp
  with c0 have c: "choose_sel example_pylib fallthrough_example ?h
      = try_groups example_pylib ?h ?ms [(- 1, [Tuple [FStr ''1.0'']]), (0, [Tuple [FStr ''*'']])]"
    by (simp add: fallthrough_example_def)
  note n = t [THEN conjunct2, THEN conjunct2, THEN conjunct2, THEN conjunct2, THEN conjunct2,
      THEN conjunct2, THEN conjunct1]
  note u = t [THEN conjunct2, THEN conjunct2, THEN conjunct2, THEN conjunct2, THEN conjunct2,
      THEN conjunct2, THEN conjunct2]
  have "try_groups example_pylib ?h ?ms [(0, [Tuple [FStr ''*'']])] = Inr (Filename ''old'')"
    using n [rule_format, of "Tuple [FStr ''*'']" "[WildcardMatcher]" ?ua_old 0 "[]"] old by simp
  moreover have "try_groups example_pylib ?h ?ms [(- 1, [Tuple [FStr ''1.0'']]), (0, [Tuple [FStr ''*'']])]
      = try_groups example_pylib ?h ?ms [(0, [Tuple [FStr ''*'']])]"
    using n [rule_format, of "Tuple [FStr ''1.0'']" "[Matcher ''1.0'']" ?ua_new "- 1"
        "[(0, [Tuple [FStr ''*'']])]"] new u
    by simp
  ultimately have "choose_sel example_pylib fallthrough_example ?h = Inr (Filename ''old'')"
    using c by simp
  with run rank show ?thesis by blast
qed

text \<open>
  Claim C1 as stated gives every header that passes validation one of four outcomes. An
  inequality matcher converts the value of the header to a number: for
  \<^verbatim>\<open>Match(("foo",), {('>1.2',): 'a', ('*',): 'b'})\<close> the header \<^verbatim>\<open>{foo: 'abc'}\<close>
  passes validation, '*' being declared, and \<^verbatim>\<open>choose\<close> raises the ValueError of
  \<^verbatim>\<open>float('abc')\<close>; for \<^verbatim>\<open>Match(("*foo",), {('>1.2',): 'a'})\<close> the empty header
  passes validation, foo being optional, and \<^verbatim>\<open>choose\<close> raises the ValueError of
  \<^verbatim>\<open>float('NOT PRESENT')\<close>. The library of the example reads '>1.2' as the operator
  '>' with the number 1.2 and the string '1.3' as a number, and no other string.
\<close>

definition inequality_pylib :: pylib where
  "inequality_pylib =
     example_pylib
       \<lparr>float_of_str := (\<lambda>s. if s = ''1.3'' then Some (13 / 10) else None),
        inequality_parts := (\<lambda>k. if k = ''>1.2'' then Some (''>'', 12 / 10) else None)\<rparr>"

definition inequality_example :: selector where
  "inequality_example =
     MatchingSelector [''foo''] [''foo'' \<mapsto> True] [''foo'' \<mapsto> [''*'', ''>1.2'']]
       [(Tuple [FStr ''*''], Terminal ''b''), (Tuple [FStr ''>1.2''], Terminal ''a'')]
       [(Tuple [FStr ''>1.2''], [InequalityMatcher ''>'' (12 / 10)], Terminal ''a''),
        (Tuple [FStr ''*''], [WildcardMatcher], Terminal ''b'')]"

definition optional_inequality_example :: selector where
  "optional_inequality_example =
     MatchingSelector [''foo''] [''foo'' \<mapsto> False] [''foo'' \<mapsto> [''>1.2'']]
       [(Tuple [FStr ''>1.2''], Terminal ''a'')]
       [(Tuple [FStr ''>1.2''], [InequalityMatcher ''>'' (12 / 10)], Terminal ''a'')]"

theorem MatchingSelector_choose_matcher_raises:
  "MatchingSelector_init inequality_pylib [''foo'']
       [(Tuple [FStr ''>1.2''], Terminal ''a''), (Tuple [FStr ''*''], Terminal ''b'')]
     = Inr inequality_example
   \<and> validate_query inequality_pylib [''foo''] [''foo'' \<mapsto> True] [''foo'' \<mapsto> [''*'', ''>1.2'']]
        [''foo'' \<mapsto> Str ''abc''] = Inr ()
   \<and> choose_sel inequality_pylib inequality_example [''foo'' \<mapsto> Str ''1.3''] = Inr (Filename ''a'')
   \<and> choose_sel inequality_pylib inequality_example [''foo'' \<mapsto> Str ''abc'']
       = Inl (Exc ValueError ''could not convert string to float: abc'')
   \<and> MatchingSelector_init inequality_pylib [''*foo''] [(Tuple [FStr ''>1.2''], Terminal ''a'')]
     = Inr optional_inequality_example
   \<and> validate_query inequality_pylib [''foo''] [''foo'' \<mapsto> False] [''foo'' \<mapsto> [''>1.2'']]
        Map.empty = Inr ()
   \<and> choose_sel inequality_pylib optional_inequality_example Map.empty
       = Inl (Exc ValueError ''could not convert string to float: NOT PRESENT'')"
  by (simp add: MatchingSelector_init_def Let_def sorted_items_def startswith_def
      fix_simple_keys_def dict_set_def matcher_def InequalityMatcher_init_def get_value_map_def
      keys_def inequality_pylib_def example_pylib_def match_eval inequality_example_def
      optional_inequality_example_def)

section \<open>MatchingSelector.validate_query (lines 720 to 736)\<close>

text \<open>
  \<^verbatim>\<open>validate_query\<close> walks the parameters in their order and raises at the first one
  it does not accept. A parameter is accepted when the header has it and it is optional, or its
  value is among the values of the value map, or the value map has \<^verbatim>\<open>'*'\<close> for it; and
  when the header does not have it and it is optional.
\<close>

definition accepted ::
  "(string \<rightharpoonup> bool) \<Rightarrow> (string \<rightharpoonup> string list) \<Rightarrow> header \<Rightarrow> string \<Rightarrow> bool"
where
  "accepted required value_map h fitsvar =
     (case h fitsvar of
        Some v \<Rightarrow>
          (case (value_map fitsvar, required fitsvar) of
             (Some valid_values, Some req) \<Rightarrow>
               \<not> req \<or> v \<in> Str ` set valid_values \<or> ''*'' \<in> set valid_values
           | _ \<Rightarrow> False)
      | None \<Rightarrow> required fitsvar = Some False)"

lemma validate_query_accepted:
  "validate_query env parameters required value_map h = Inr ()
   \<longleftrightarrow> (\<forall>p \<in> set parameters. accepted required value_map h p)"
  by (induction parameters)
     (auto simp: accepted_def split: option.splits pyval.splits)

lemma validate_query_append:
  "\<forall>q \<in> set pre. accepted required value_map h q \<Longrightarrow>
   validate_query env (pre @ rest) required value_map h = validate_query env rest required value_map h"
  by (induction pre) (auto simp: accepted_def split: option.splits pyval.splits)

definition order_example :: selector where
  "order_example =
     MatchingSelector [''a'', ''b''] [''a'' \<mapsto> True, ''b'' \<mapsto> True]
       [''a'' \<mapsto> [''x''], ''b'' \<mapsto> [''y'']]
       [(Tuple [FStr ''x'', FStr ''y''], Terminal ''f'')]
       [(Tuple [FStr ''x'', FStr ''y''], [Matcher ''x'', Matcher ''y''], Terminal ''f'')]"

lemma order_example_init:
  "MatchingSelector_init example_pylib [''a'', ''b''] [(Tuple [FStr ''x'', FStr ''y''], Terminal ''f'')]
   = Inr order_example"
  by (simp add: MatchingSelector_init_def order_example_def Let_def sorted_items_def
      startswith_def fix_simple_keys_def matcher_def get_value_map_def keys_def example_pylib_def
      RegexMatcher_init_def InequalityMatcher_init_def)

text \<open>
  Claim C7, as amended. The selector of the class docstring is what the constructor builds from
  \<^verbatim>\<open>("*foo", "bar")\<close> and the three cases; on \<^verbatim>\<open>{foo: '1.0', bar: '2.0'}\<close> it
  returns '200'; on \<^verbatim>\<open>{bar: '2.0'}\<close> it returns '200' as well, winnowing removing no
  case and leaving the exact match on bar at weight -1, the two wildcard cases at 0; on the
  empty header it raises MissingParameterError naming 'bar'. In general the query passes
  validation exactly when every parameter is accepted; and when the parameters before
  \<^verbatim>\<open>p\<close> are accepted, \<^verbatim>\<open>choose\<close> raises MissingParameterError naming
  \<^verbatim>\<open>p\<close> if \<^verbatim>\<open>p\<close> is required and missing, and BadValueError if
  \<^verbatim>\<open>p\<close> is required and its string value is outside its declared values, none of
  them \<^verbatim>\<open>'*'\<close>: whatever the cases are, so before any winnowing.
\<close>

theorem validate_query_first_offender:
  "MatchingSelector_init env [''*foo'', ''bar''] example_selections = Inr example_match
   \<and> choose_sel env example_match [''foo'' \<mapsto> Str ''1.0'', ''bar'' \<mapsto> Str ''2.0''] = Inr (Filename ''200'')
   \<and> choose_sel env example_match [''bar'' \<mapsto> Str ''2.0''] = Inr (Filename ''200'')
   \<and> (\<exists>weights.
         winnow env [''foo'', ''bar''] [''foo'' \<mapsto> False, ''bar'' \<mapsto> True] [''bar'' \<mapsto> Str ''2.0'']
           example_match_selections = Inr (weights, example_match_selections)
         \<and> weights (Tuple [FStr ''1.0'', FStr ''2.0'']) = Some (- 1)
         \<and> weights (Tuple [FStr ''1.0'', FStr ''*'']) = Some 0
         \<and> weights (Tuple [FStr ''*'', FStr ''*'']) = Some 0)
   \<and> choose_sel env example_match Map.empty
        = Inl (Exc MissingParameterError (''Required parameter '' @ [sq] @ ''bar'' @ [sq] @ '' is missing.''))
   \<and> (validate_query env parameters required value_map h = Inr ()
        \<longleftrightarrow> (\<forall>p \<in> set parameters. accepted required value_map h p))
   \<and> (\<forall>pre p post.
         parameters = pre @ p # post \<and> (\<forall>q \<in> set pre. accepted required value_map h q)
         \<and> h p = None \<and> required p = Some True \<longrightarrow>
         choose_sel env (MatchingSelector parameters required value_map selections match_selections) h
           = Inl (Exc MissingParameterError (''Required parameter '' @ repr_str p @ '' is missing.'')))
   \<and> (\<forall>pre p post s valid_values.
         parameters = pre @ p # post \<and> (\<forall>q \<in> set pre. accepted required value_map h q)
         \<and> h p = Some (Str s) \<and> required p = Some True \<and> value_map p = Some valid_values
         \<and> s \<notin> set valid_values \<and> ''*'' \<notin> set valid_values \<longrightarrow>
         choose_sel env (MatchingSelector parameters required value_map selections match_selections) h
           = Inl (Exc BadValueError
                (''Key '' @ p @ ''='' @ s @ '' not in valid values '' @
                 repr_tuple (map repr_str valid_values))))"
proof -
  have i: "MatchingSelector_init env [''*foo'', ''bar''] example_selections = Inr example_match"
    by (rule example_match_init)
  have a: "choose_sel env example_match [''foo'' \<mapsto> Str ''1.0'', ''bar'' \<mapsto> Str ''2.0''] = Inr (Filename ''200'')"
    by (rule ex_both)
  have b: "choose_sel env example_match [''bar'' \<mapsto> Str ''2.0''] = Inr (Filename ''200'')"
    by (rule ex_bar)
  have w: "\<exists>weights.
         winnow env [''foo'', ''bar''] [''foo'' \<mapsto> False, ''bar'' \<mapsto> True] [''bar'' \<mapsto> Str ''2.0'']
           example_match_selections = Inr (weights, example_match_selections)
         \<and> weights (Tuple [FStr ''1.0'', FStr ''2.0'']) = Some (- 1)
         \<and> weights (Tuple [FStr ''1.0'', FStr ''*'']) = Some 0
         \<and> weights (Tuple [FStr ''*'', FStr ''*'']) = Some 0"
    by (simp add: example_match_selections_def winnow_eval)
  have c: "choose_sel env example_match Map.empty
        = Inl (Exc MissingParameterError (''Required parameter '' @ [sq] @ ''bar'' @ [sq] @ '' is missing.''))"
    by (rule ex_empty)
  have v: "validate_query env parameters required value_map h = Inr ()
        \<longleftrightarrow> (\<forall>p \<in> set parameters. accepted required value_map h p)"
    by (rule validate_query_accepted)
  have m: "\<forall>pre p post.
         parameters = pre @ p # post \<and> (\<forall>q \<in> set pre. accepted required value_map h q)
         \<and> h p = None \<and> required p = Some True \<longrightarrow>
         choose_sel env (MatchingSelector parameters required value_map selections match_selections) h
           = Inl (Exc MissingParameterError (''Required parameter '' @ repr_str p @ '' is missing.''))"
    by (simp add: validate_query_append missing_parameter_message_def)
  have bv: "\<forall>pre p post s valid_values.
         parameters = pre @ p # post \<and> (\<forall>q \<in> set pre. accepted required value_map h q)
         \<and> h p = Some (Str s) \<and> required p = Some True \<and> value_map p = Some valid_values
         \<and> s \<notin> set valid_values \<and> ''*'' \<notin> set valid_values \<longrightarrow>
         choose_sel env (MatchingSelector parameters required value_map selections match_selections) h
           = Inl (Exc BadValueError
                (''Key '' @ p @ ''='' @ s @ '' not in valid values '' @
                 repr_tuple (map repr_str valid_values)))"
    by (auto simp: validate_query_append bad_value_message_def)
  show ?thesis
    by (intro conjI i a b w c v m bv)
qed

text \<open>
  The theorem at the selector \<^verbatim>\<open>Match(("a", "b"), {('x', 'y'): 'f'})\<close>: a header
  without b, a header with a bad b, and a header that passes.
\<close>

theorem validate_query_witness:
  "choose_sel example_pylib order_example [''a'' \<mapsto> Str ''x'']
     = Inl (Exc MissingParameterError (''Required parameter '' @ [sq] @ ''b'' @ [sq] @ '' is missing.''))
   \<and> choose_sel example_pylib order_example [''a'' \<mapsto> Str ''x'', ''b'' \<mapsto> Str ''q'']
     = Inl (Exc BadValueError (''Key b=q not in valid values ('' @ [sq] @ ''y'' @ [sq] @ '',)''))
   \<and> validate_query example_pylib [''a'', ''b''] [''a'' \<mapsto> True, ''b'' \<mapsto> True]
        [''a'' \<mapsto> [''x''], ''b'' \<mapsto> [''y'']] [''a'' \<mapsto> Str ''x'', ''b'' \<mapsto> Str ''y''] = Inr ()"
proof -
  let ?ps = "[''a'', ''b'']"
  let ?req = "[''a'' \<mapsto> True, ''b'' \<mapsto> True]"
  let ?vm = "[''a'' \<mapsto> [''x''], ''b'' \<mapsto> [''y'']]"
  let ?sel = "[(Tuple [FStr ''x'', FStr ''y''], Terminal ''f'')]"
  let ?ms = "[(Tuple [FStr ''x'', FStr ''y''], [Matcher ''x'', Matcher ''y''], Terminal ''f'')]"
  note t = validate_query_first_offender [where parameters = ?ps and required = ?req
      and value_map = ?vm and selections = ?sel and match_selections = ?ms and env = example_pylib]
  have acc1: "accepted ?req ?vm [''a'' \<mapsto> Str ''x''] ''a''"
    and acc2: "accepted ?req ?vm [''a'' \<mapsto> Str ''x'', ''b'' \<mapsto> Str ''q''] ''a''"
    and acc3: "\<forall>p \<in> set ?ps. accepted ?req ?vm [''a'' \<mapsto> Str ''x'', ''b'' \<mapsto> Str ''y''] p"
    by (simp_all add: accepted_def)
  from t [where h = "[''a'' \<mapsto> Str ''x'']"]
  have "\<forall>pre p post.
         ?ps = pre @ p # post \<and> (\<forall>q \<in> set pre. accepted ?req ?vm [''a'' \<mapsto> Str ''x''] q)
         \<and> [''a'' \<mapsto> Str ''x''] p = None \<and> ?req p = Some True \<longrightarrow>
         choose_sel example_pylib (MatchingSelector ?ps ?req ?vm ?sel ?ms) [''a'' \<mapsto> Str ''x'']
           = Inl (Exc MissingParameterError (''Required parameter '' @ repr_str p @ '' is missing.''))"
    by blast
  from this [rule_format, of "[''a'']" "''b''" "[]"] acc1
  have 1: "choose_sel example_pylib order_example [''a'' \<mapsto> Str ''x'']
     = Inl (Exc MissingParameterError (''Required parameter '' @ [sq] @ ''b'' @ [sq] @ '' is missing.''))"
    by (simp add: order_example_def repr_str_def repr_char_def sq_def dq_def backslash_def Let_def)
  let ?h2 = "[''a'' \<mapsto> Str ''x'', ''b'' \<mapsto> Str ''q'']"
  from t [where h = ?h2]
  have "\<forall>pre p post s valid_values.
         ?ps = pre @ p # post \<and> (\<forall>q \<in> set pre. accepted ?req ?vm ?h2 q)
         \<and> ?h2 p = Some (Str s) \<and> ?req p = Some True \<and> ?vm p = Some valid_values
         \<and> s \<notin> set valid_values \<and> ''*'' \<notin> set valid_values \<longrightarrow>
         choose_sel example_pylib (MatchingSelector ?ps ?req ?vm ?sel ?ms) ?h2
           = Inl (Exc BadValueError
                (''Key '' @ p @ ''='' @ s @ '' not in valid values '' @
                 repr_tuple (map repr_str valid_values)))"
    by blast
  from this [rule_format, of "[''a'']" "''b''" "[]" "''q''" "[''y'']"] acc2
  have 2: "choose_sel example_pylib order_example ?h2
     = Inl (Exc BadValueError (''Key b=q not in valid values ('' @ [sq] @ ''y'' @ [sq] @ '',)''))"
    by (simp add: order_example_def repr_str_def repr_char_def sq_def dq_def backslash_def Let_def
        repr_tuple_def)
  from t [where h = "[''a'' \<mapsto> Str ''x'', ''b'' \<mapsto> Str ''y'']"] acc3
  have 3: "validate_query example_pylib ?ps ?req ?vm [''a'' \<mapsto> Str ''x'', ''b'' \<mapsto> Str ''y''] = Inr ()"
    by blast
  from 1 2 3 show ?thesis by simp
qed

text \<open>
  Claim C7 as stated has every query missing a required parameter raise MissingParameterError.
  For \<^verbatim>\<open>Match(("a", "b"), {('x', 'y'): 'f'})\<close> and the header \<^verbatim>\<open>{a: 'z'}\<close>
  the required b is missing, but a comes first and its value is not declared: the lookup raises
  BadValueError.
\<close>

theorem validate_query_order_counterexample:
  "MatchingSelector_init example_pylib [''a'', ''b''] [(Tuple [FStr ''x'', FStr ''y''], Terminal ''f'')]
     = Inr order_example
   \<and> [''a'' \<mapsto> Str ''z''] ''b'' = None
   \<and> choose_sel example_pylib order_example [''a'' \<mapsto> Str ''z'']
     = Inl (Exc BadValueError (''Key a=z not in valid values ('' @ [sq] @ ''x'' @ [sq] @ '',)''))"
  by (simp add: order_example_init)
     (simp add: order_example_def bad_value_message_def repr_str_def repr_char_def sq_def dq_def
       backslash_def Let_def repr_tuple_def)

section \<open>VersionDepSelector.__init__ (lines 1165 to 1171)\<close>

text \<open>
  \<^verbatim>\<open>parse_selections\<close> builds a dictionary keyed by VersionRelation objects. The class
  defines no \<^verbatim>\<open>__hash__\<close> and no \<^verbatim>\<open>__eq__\<close>, so no two entries are merged, and the
  order of its items is not determined by the source: the order of the list stands for it.
\<close>

fun parse_selections ::
  "pylib \<Rightarrow> (string \<times> choice) list \<Rightarrow> exc + (VersionRelation \<times> choice) list"
where
  "parse_selections env [] = Inr []"
| "parse_selections env (x # rest) =
     (case VersionRelation_init env (fst x) of
        Inl e \<Rightarrow> Inl e
      | Inr r \<Rightarrow>
          (case parse_selections env rest of
             Inl e \<Rightarrow> Inl e
           | Inr rs \<Rightarrow> Inr ((r, snd x) # rs)))"

definition VersionDepSelector_init ::
  "pylib \<Rightarrow> string \<Rightarrow> (string \<times> choice) list \<Rightarrow> exc + selector"
where
  "VersionDepSelector_init env versionvar selections =
     (case parse_selections env selections of
        Inl e \<Rightarrow> Inl e
      | Inr parsed \<Rightarrow>
          (case Selector_init VersionRelation_lt [] parsed of
             (ps, sels) \<Rightarrow> Inr (VersionDepSelector versionvar sels)))"

definition numeric_or_default :: "VersionRelation \<Rightarrow> bool" where
  "numeric_or_default r =
     (case version r of
        Num q \<Rightarrow> True
      | _ \<Rightarrow> r = \<lparr>relation = ''default'', version = Str ''default''\<rparr>)"

definition version_pylib :: pylib where
  "version_pylib =
     example_pylib
       \<lparr>eval_expr := (\<lambda>s. if s = ''3.1'' then Inr (Num (31 / 10))
                          else if s = ''5'' then Inr (Num 5)
                          else if s = ''(5, 0, 1)'' then Inr (Tup [5, 0, 1])
                          else Inl (Exc SyntaxError ''invalid syntax''))\<rparr>"

section \<open>The order of the keys\<close>

lemma field_lt_irrefl: "\<not> field_lt a a"
  by (cases a) simp_all

lemma field_lt_trans: "field_lt a b \<Longrightarrow> field_lt b c \<Longrightarrow> field_lt a c"
  by (cases a; cases b; cases c) auto

lemma field_lt_total: "a \<noteq> b \<Longrightarrow> field_lt a b \<or> field_lt b a"
  by (cases a; cases b) auto

lemma tuple_lt_irrefl: "\<not> tuple_lt a a"
  by (induction a) simp_all

lemma tuple_lt_trans: "tuple_lt a b \<Longrightarrow> tuple_lt b c \<Longrightarrow> tuple_lt a c"
proof (induction a b arbitrary: c rule: tuple_lt.induct)
  case 1
  then show ?case by simp
next
  case (2 y ys)
  then show ?case by (cases c) simp_all
next
  case (3 x xs)
  then show ?case by simp
next
  case (4 x xs y ys)
  show ?case
  proof (cases c)
    case Nil
    with 4 show ?thesis by simp
  next
    case (Cons z zs)
    show ?thesis
    proof (cases "x = y")
      case True
      with 4 Cons show ?thesis by (auto split: if_splits)
    next
      case False
      with 4 Cons show ?thesis
        using field_lt_trans [of x y z] field_lt_irrefl [of x]
        by (auto split: if_splits)
    qed
  qed
qed

lemma tuple_lt_total: "a \<noteq> b \<Longrightarrow> tuple_lt a b \<or> tuple_lt b a"
proof (induction a b rule: tuple_lt.induct)
  case (4 x xs y ys)
  then show ?case using field_lt_total [of x y] by auto
qed simp_all

lemma match_key_lt_irrefl: "\<not> match_key_lt a a"
  by (cases a) (simp_all add: tuple_lt_irrefl)

lemma match_key_lt_trans: "match_key_lt a b \<Longrightarrow> match_key_lt b c \<Longrightarrow> match_key_lt a c"
proof (cases a; cases b; cases c)
  fix x y z
  assume "match_key_lt a b" "match_key_lt b c" "a = Tuple x" "b = Tuple y" "c = Tuple z"
  then show ?thesis using tuple_lt_trans [of x y z] by simp
qed simp_all

lemma match_key_lt_total: "a \<noteq> b \<Longrightarrow> match_key_lt a b \<or> match_key_lt b a"
proof (cases a; cases b)
  fix x y
  assume "a \<noteq> b" "a = Tuple x" "b = Tuple y"
  then show ?thesis using tuple_lt_total [of x y] by simp
qed auto

lemma numeric_or_default_cases:
  "numeric_or_default r \<Longrightarrow>
   (\<exists>q. version r = Num q) \<or> r = \<lparr>relation = ''default'', version = Str ''default''\<rparr>"
  by (simp add: numeric_or_default_def split: pyval.splits)

lemma VersionRelation_lt_numeric:
  "version a = Num p \<Longrightarrow> version b = Num q \<Longrightarrow>
   VersionRelation_lt a b = (p < q \<or> p = q \<and> relation a < relation b)"
  by (auto simp: VersionRelation_lt_def VersionRelation_cmp_def cmp3_def)

lemma VersionRelation_lt_default_left:
  "\<not> VersionRelation_lt \<lparr>relation = ''default'', version = Str ''default''\<rparr> b"
  by (simp add: VersionRelation_lt_def VersionRelation_cmp_def)

lemma VersionRelation_lt_default_right:
  "version a = Num p \<Longrightarrow> VersionRelation_lt a \<lparr>relation = ''default'', version = Str ''default''\<rparr>"
  by (simp add: VersionRelation_lt_def VersionRelation_cmp_def cmp3_def)

lemma VersionRelation_lt_asym:
  assumes a: "numeric_or_default a" and b: "numeric_or_default b" and ab: "VersionRelation_lt a b"
  shows "\<not> VersionRelation_lt b a"
proof -
  from ab numeric_or_default_cases [OF a] obtain p where p: "version a = Num p"
    using VersionRelation_lt_default_left by blast
  from numeric_or_default_cases [OF b] show ?thesis
  proof
    assume "\<exists>q. version b = Num q"
    then obtain q where q: "version b = Num q" ..
    from ab show ?thesis
      by (auto simp: VersionRelation_lt_numeric [OF p q] VersionRelation_lt_numeric [OF q p])
  next
    assume "b = \<lparr>relation = ''default'', version = Str ''default''\<rparr>"
    then show ?thesis by (simp add: VersionRelation_lt_default_left)
  qed
qed

lemma VersionRelation_lt_total:
  assumes a: "numeric_or_default a" and b: "numeric_or_default b" and ab: "a \<noteq> b"
  shows "VersionRelation_lt a b \<or> VersionRelation_lt b a"
proof -
  from numeric_or_default_cases [OF a] numeric_or_default_cases [OF b] ab
  consider p q where "version a = Num p" "version b = Num q"
    | p where "version a = Num p" "b = \<lparr>relation = ''default'', version = Str ''default''\<rparr>"
    | q where "version b = Num q" "a = \<lparr>relation = ''default'', version = Str ''default''\<rparr>"
    by blast
  then show ?thesis
  proof cases
    case 1
    from ab 1 have "p \<noteq> q \<or> relation a \<noteq> relation b"
      by (cases a; cases b) auto
    then show ?thesis
      by (auto simp: VersionRelation_lt_numeric [OF 1] VersionRelation_lt_numeric [OF 1(2) 1(1)])
  next
    case 2
    then show ?thesis by (simp add: VersionRelation_lt_default_right)
  next
    case 3
    then show ?thesis by (simp add: VersionRelation_lt_default_right)
  qed
qed

lemma VersionRelation_lt_trans:
  assumes a: "numeric_or_default a" and b: "numeric_or_default b" and c: "numeric_or_default c"
    and ab: "VersionRelation_lt a b" and bc: "VersionRelation_lt b c"
  shows "VersionRelation_lt a c"
proof -
  from ab numeric_or_default_cases [OF a] obtain p where p: "version a = Num p"
    using VersionRelation_lt_default_left by blast
  from bc numeric_or_default_cases [OF b] obtain q where q: "version b = Num q"
    using VersionRelation_lt_default_left by blast
  from numeric_or_default_cases [OF c] show ?thesis
  proof
    assume "\<exists>r. version c = Num r"
    then obtain r where r: "version c = Num r" ..
    from ab bc show ?thesis
      by (auto simp: VersionRelation_lt_numeric [OF p q] VersionRelation_lt_numeric [OF q r]
          VersionRelation_lt_numeric [OF p r])
  next
    assume "c = \<lparr>relation = ''default'', version = Str ''default''\<rparr>"
    with p show ?thesis by (simp add: VersionRelation_lt_default_right)
  qed
qed

text \<open>
  On keys that a comparison orders strictly and totally, the sorted list of the items of a
  dictionary is strictly ascending.
\<close>

lemma sorted_items_strict:
  assumes irrefl: "\<And>a. a \<in> K \<Longrightarrow> \<not> lt a a"
    and trans: "\<And>a b c. a \<in> K \<Longrightarrow> b \<in> K \<Longrightarrow> c \<in> K \<Longrightarrow> lt a b \<Longrightarrow> lt b c \<Longrightarrow> lt a c"
    and total: "\<And>a b. a \<in> K \<Longrightarrow> b \<in> K \<Longrightarrow> a \<noteq> b \<Longrightarrow> lt a b \<or> lt b a"
    and K: "fst ` set items \<subseteq> K"
    and dict: "distinct (map fst items)"
  shows "sorted_wrt lt (keys (sorted_items lt items))"
proof -
  have asym: "\<not> lt b a" if "a \<in> K" "b \<in> K" "lt a b" for a b
    using irrefl [of a] trans [of a b a] that by blast
  have negtrans: "\<not> lt c a" if "a \<in> K" "b \<in> K" "c \<in> K" "\<not> lt b a" "\<not> lt c b" for a b c
  proof
    assume ca: "lt c a"
    from that(4) total [OF that(1) that(2)] have ab: "a = b \<or> lt a b" by blast
    from that(5) total [OF that(2) that(3)] have bc: "b = c \<or> lt b c" by blast
    from ab bc ca that show False
      using irrefl trans by metis
  qed
  have weak: "sorted_wrt (\<lambda>a b. \<not> lt (fst b) (fst a)) (sorted_items lt items)"
    by (rule sorted_wrt_sorted_items [where K = K, OF asym negtrans K])
  have d: "distinct (map fst (sorted_items lt items))"
    using dict by (simp add: distinct_sorted_items)
  have inK: "fst ` set (sorted_items lt items) \<subseteq> K"
    using K by (simp add: set_sorted_items)
  have strict: "sorted_wrt (\<lambda>a b. lt (fst a) (fst b)) xs"
    if "sorted_wrt (\<lambda>a b. \<not> lt (fst b) (fst a)) xs" "distinct (map fst xs)" "fst ` set xs \<subseteq> K"
    for xs :: "('a \<times> 'b) list"
    using that
  proof (induction xs)
    case Nil
    show ?case by simp
  next
    case (Cons x xs)
    have "lt (fst x) (fst y)" if y: "y \<in> set xs" for y
    proof -
      from Cons.prems y have "\<not> lt (fst y) (fst x)" "fst x \<noteq> fst y" "fst x \<in> K" "fst y \<in> K"
        by auto
      with total [of "fst x" "fst y"] show ?thesis by blast
    qed
    with Cons show ?case by auto
  qed
  from strict [OF weak d inK] show ?thesis
    by (simp add: keys_def sorted_wrt_map)
qed

lemma zip_keys_choices: "zip (keys sels) (choices sels) = sels"
  by (simp add: keys_def choices_def zip_map_fst_snd)


lemma parse_selections_choices:
  "parse_selections env vs = Inr parsed \<Longrightarrow> map snd parsed = map snd vs"
  by (induction vs arbitrary: parsed) (auto split: sum.splits)

text \<open>
  Sorted selections, for keys that comparison orders. Every constructor stores the items of its
  dictionary through \<^verbatim>\<open>Selector.__init__\<close>, sorted by key, and \<^verbatim>\<open>keys()\<close> and
  \<^verbatim>\<open>choices()\<close> enumerate the stored list, entry by entry. The stored list has the
  entries of the dictionary and its keys are strictly ascending: for the date strings of a
  UseAfterSelector, for the numbers of a LinearInterpolationSelector, for the match tuples of a
  MatchingSelector, and for the version relations of a VersionDepSelector when each has a
  numeric version or is 'default'. A selector is a value here and \<^verbatim>\<open>choose\<close> returns
  a result only, as no method of the source assigns \<^verbatim>\<open>_selections\<close> after the
  constructor.
\<close>

lemma Selector_selections_sorted:
  "(distinct (map fst datemapping) \<longrightarrow>
      (\<exists>sels. UseAfterSelector_init ps datemapping = UseAfterSelector ps sels
         \<and> set sels = set datemapping \<and> sorted_wrt (<) (keys sels)
         \<and> zip (keys sels) (choices sels) = sels))
   \<and> (distinct (map fst interpolation) \<longrightarrow>
      (\<exists>sels. LinearInterpolationSelector_init keyname interpolation
                 = LinearInterpolationSelector [keyname] sels
         \<and> set sels = set interpolation \<and> sorted_wrt (<) (keys sels)
         \<and> zip (keys sels) (choices sels) = sels))
   \<and> (distinct (map fst cases) \<and> MatchingSelector_init env parameters cases = Inr m \<longrightarrow>
      (\<exists>ps required value_map sels match_selections.
         m = MatchingSelector ps required value_map sels match_selections
         \<and> set sels = set cases \<and> sorted_wrt match_key_lt (keys sels)
         \<and> zip (keys sels) (choices sels) = sels))
   \<and> (parse_selections env relations = Inr parsed \<and> distinct (map fst parsed)
        \<and> (\<forall>r \<in> fst ` set parsed. numeric_or_default r) \<longrightarrow>
      (\<exists>sels. VersionDepSelector_init env versionvar relations
                 = Inr (VersionDepSelector versionvar sels)
         \<and> set sels = set parsed
         \<and> sorted_wrt (\<lambda>a b. VersionRelation_cmp a b < 0) (keys sels)
         \<and> zip (keys sels) (choices sels) = sels))"
proof (intro conjI impI)
  assume d: "distinct (map fst datemapping)"
  have "sorted_wrt (<) (keys (sorted_items (<) datemapping))"
    by (rule sorted_items_strict [where K = UNIV, OF _ _ _ _ d]) auto
  then show "\<exists>sels. UseAfterSelector_init ps datemapping = UseAfterSelector ps sels
         \<and> set sels = set datemapping \<and> sorted_wrt (<) (keys sels)
         \<and> zip (keys sels) (choices sels) = sels"
    by (simp add: UseAfterSelector_init_def Selector_init_def set_sorted_items zip_keys_choices)
next
  assume d: "distinct (map fst interpolation)"
  have "sorted_wrt (<) (keys (sorted_items (<) interpolation))"
    by (rule sorted_items_strict [where K = UNIV, OF _ _ _ _ d]) auto
  then show "\<exists>sels. LinearInterpolationSelector_init keyname interpolation
                 = LinearInterpolationSelector [keyname] sels
         \<and> set sels = set interpolation \<and> sorted_wrt (<) (keys sels)
         \<and> zip (keys sels) (choices sels) = sels"
    by (simp add: LinearInterpolationSelector_init_def Selector_init_def set_sorted_items
        zip_keys_choices)
next
  assume a: "distinct (map fst cases) \<and> MatchingSelector_init env parameters cases = Inr m"
  then have d: "distinct (map fst cases)" by simp
  have s: "sorted_wrt match_key_lt (keys (sorted_items match_key_lt cases))"
  proof (rule sorted_items_strict [where K = UNIV, OF _ _ _ _ d])
    fix a b c :: match_key
    show "\<not> match_key_lt a a" by (rule match_key_lt_irrefl)
    show "match_key_lt a b \<Longrightarrow> match_key_lt b c \<Longrightarrow> match_key_lt a c"
      by (rule match_key_lt_trans)
    show "a \<noteq> b \<Longrightarrow> match_key_lt a b \<or> match_key_lt b a"
      by (rule match_key_lt_total)
  qed simp
  from a obtain ps required value_map match_selections where
    "m = MatchingSelector ps required value_map (sorted_items match_key_lt cases) match_selections"
    by (auto simp: MatchingSelector_init_def Let_def split: prod.splits sum.splits)
  with s show "\<exists>ps required value_map sels match_selections.
         m = MatchingSelector ps required value_map sels match_selections
         \<and> set sels = set cases \<and> sorted_wrt match_key_lt (keys sels)
         \<and> zip (keys sels) (choices sels) = sels"
    by (simp add: set_sorted_items zip_keys_choices)
next
  assume a: "parse_selections env relations = Inr parsed \<and> distinct (map fst parsed)
        \<and> (\<forall>r \<in> fst ` set parsed. numeric_or_default r)"
  then have p: "parse_selections env relations = Inr parsed"
    and d: "distinct (map fst parsed)"
    and K: "fst ` set parsed \<subseteq> {r. numeric_or_default r}" by auto
  have "sorted_wrt VersionRelation_lt (keys (sorted_items VersionRelation_lt parsed))"
  proof (rule sorted_items_strict [where K = "{r. numeric_or_default r}", OF _ _ _ K d])
    fix a assume "a \<in> {r. numeric_or_default r}"
    then show "\<not> VersionRelation_lt a a"
      using VersionRelation_lt_asym [of a a] by auto
  next
    fix a b c
    assume "a \<in> {r. numeric_or_default r}" "b \<in> {r. numeric_or_default r}"
      "c \<in> {r. numeric_or_default r}" "VersionRelation_lt a b" "VersionRelation_lt b c"
    then show "VersionRelation_lt a c"
      using VersionRelation_lt_trans [of a b c] by simp
  next
    fix a b
    assume "a \<in> {r. numeric_or_default r}" "b \<in> {r. numeric_or_default r}" "a \<noteq> b"
    then show "VersionRelation_lt a b \<or> VersionRelation_lt b a"
      using VersionRelation_lt_total [of a b] by simp
  qed
  then have "sorted_wrt (\<lambda>a b. VersionRelation_cmp a b < 0)
      (keys (sorted_items VersionRelation_lt parsed))"
    by (simp add: VersionRelation_lt_def [abs_def])
  then show "\<exists>sels. VersionDepSelector_init env versionvar relations
                 = Inr (VersionDepSelector versionvar sels)
         \<and> set sels = set parsed
         \<and> sorted_wrt (\<lambda>a b. VersionRelation_cmp a b < 0) (keys sels)
         \<and> zip (keys sels) (choices sels) = sels"
    by (simp add: VersionDepSelector_init_def p Selector_init_def set_sorted_items zip_keys_choices)
qed


text \<open>
  The lemma at four dictionaries given out of order: two dates, the three numbers of the
  LinearInterpolationSelector docstring, the three cases of the MatchingSelector docstring and
  the three relations of the SWVersionDepSelector docstring.
\<close>

lemma Selector_selections_sorted_examples:
  "(\<exists>sels. UseAfterSelector_init [''DATE-OBS'', ''TIME-OBS'']
             [(''2005-01-01 00:00:00'', Terminal ''new''), (''2000-01-01 00:00:00'', Terminal ''old'')]
           = UseAfterSelector [''DATE-OBS'', ''TIME-OBS''] sels
      \<and> keys sels = [''2000-01-01 00:00:00'', ''2005-01-01 00:00:00'']
      \<and> choices sels = [Terminal ''old'', Terminal ''new'']
      \<and> sorted_wrt (<) (keys sels))
   \<and> (\<exists>sels. LinearInterpolationSelector_init ''w''
             [(5, Terminal ''c''), (12 / 10, Terminal ''a''), (15 / 10, Terminal ''b'')]
           = LinearInterpolationSelector [''w''] sels
      \<and> keys sels = [12 / 10, 15 / 10, 5]
      \<and> choices sels = [Terminal ''a'', Terminal ''b'', Terminal ''c'']
      \<and> sorted_wrt (<) (keys sels))
   \<and> (\<exists>ps required value_map sels match_selections.
         MatchingSelector_init example_pylib [''*foo'', ''bar''] example_selections
           = Inr (MatchingSelector ps required value_map sels match_selections)
      \<and> keys sels = [Tuple [FStr ''*'', FStr ''*''], Tuple [FStr ''1.0'', FStr ''*''],
                      Tuple [FStr ''1.0'', FStr ''2.0'']]
      \<and> choices sels = [Terminal ''300'', Terminal ''100'', Terminal ''200'']
      \<and> sorted_wrt match_key_lt (keys sels))
   \<and> (\<exists>sels. VersionDepSelector_init version_pylib ''sw_version''
             [(''default'', Terminal ''cref_flatfield_123.fits''),
              (''<5'', Terminal ''cref_flatfield_73.fits''),
              (''<3.1'', Terminal ''cref_flatfield_65.fits'')]
           = Inr (VersionDepSelector ''sw_version'' sels)
      \<and> keys sels = [\<lparr>relation = ''<'', version = Num (31 / 10)\<rparr>,
                      \<lparr>relation = ''<'', version = Num 5\<rparr>,
                      \<lparr>relation = ''default'', version = Str ''default''\<rparr>]
      \<and> choices sels = [Terminal ''cref_flatfield_65.fits'', Terminal ''cref_flatfield_73.fits'',
                         Terminal ''cref_flatfield_123.fits'']
      \<and> sorted_wrt (\<lambda>a b. VersionRelation_cmp a b < 0) (keys sels))"
proof -
  let ?dm = "[(''2005-01-01 00:00:00'', Terminal ''new''), (''2000-01-01 00:00:00'', Terminal ''old'')]"
  let ?li = "[(5 :: rat, Terminal ''c''), (12 / 10, Terminal ''a''), (15 / 10, Terminal ''b'')]"
  let ?vs = "[(''default'', Terminal ''cref_flatfield_123.fits''),
              (''<5'', Terminal ''cref_flatfield_73.fits''),
              (''<3.1'', Terminal ''cref_flatfield_65.fits'')]"
  let ?parsed = "[(\<lparr>relation = ''default'', version = Str ''default''\<rparr>, Terminal ''cref_flatfield_123.fits''),
                  (\<lparr>relation = ''<'', version = Num 5\<rparr>, Terminal ''cref_flatfield_73.fits''),
                  (\<lparr>relation = ''<'', version = Num (31 / 10)\<rparr>, Terminal ''cref_flatfield_65.fits'')]"
  note t = Selector_selections_sorted [where datemapping = ?dm and ps = "[''DATE-OBS'', ''TIME-OBS'']"
      and interpolation = ?li and keyname = "''w''" and cases = example_selections
      and env = version_pylib and parameters = "[''*foo'', ''bar'']" and m = example_match
      and relations = ?vs and parsed = ?parsed and versionvar = "''sw_version''"]
  have parse: "parse_selections version_pylib ?vs = Inr ?parsed"
    by (simp add: VersionRelation_init_def RELATION_RE_match_def startswith_def py_strip_def
        version_pylib_def example_pylib_def Let_def)
  have nd: "\<forall>r \<in> fst ` set ?parsed. numeric_or_default r"
    by (simp add: numeric_or_default_def)
  have ua: "UseAfterSelector_init [''DATE-OBS'', ''TIME-OBS''] ?dm
      = UseAfterSelector [''DATE-OBS'', ''TIME-OBS'']
          [(''2000-01-01 00:00:00'', Terminal ''old''), (''2005-01-01 00:00:00'', Terminal ''new'')]"
    by (simp add: UseAfterSelector_init_def Selector_init_def sorted_items_def)
  have li: "LinearInterpolationSelector_init ''w'' ?li
      = LinearInterpolationSelector [''w'']
          [(12 / 10, Terminal ''a''), (15 / 10, Terminal ''b''), (5, Terminal ''c'')]"
    by (simp add: LinearInterpolationSelector_init_def Selector_init_def sorted_items_def)
  have vd: "VersionDepSelector_init version_pylib ''sw_version'' ?vs
      = Inr (VersionDepSelector ''sw_version''
          [(\<lparr>relation = ''<'', version = Num (31 / 10)\<rparr>, Terminal ''cref_flatfield_65.fits''),
           (\<lparr>relation = ''<'', version = Num 5\<rparr>, Terminal ''cref_flatfield_73.fits''),
           (\<lparr>relation = ''default'', version = Str ''default''\<rparr>, Terminal ''cref_flatfield_123.fits'')])"
    unfolding VersionDepSelector_init_def parse
    by (simp add: Selector_init_def sorted_items_def VersionRelation_lt_def
        VersionRelation_cmp_def cmp3_def)
  have ms: "MatchingSelector_init version_pylib [''*foo'', ''bar''] example_selections = Inr example_match"
    by (rule example_match_init)
  have ms': "MatchingSelector_init example_pylib [''*foo'', ''bar''] example_selections = Inr example_match"
    by (rule example_match_init)
  from t have 1: "\<exists>sels. UseAfterSelector_init [''DATE-OBS'', ''TIME-OBS''] ?dm
           = UseAfterSelector [''DATE-OBS'', ''TIME-OBS''] sels
      \<and> keys sels = [''2000-01-01 00:00:00'', ''2005-01-01 00:00:00'']
      \<and> choices sels = [Terminal ''old'', Terminal ''new'']
      \<and> sorted_wrt (<) (keys sels)"
    unfolding ua by (auto simp: keys_def choices_def)
  from t have 2: "\<exists>sels. LinearInterpolationSelector_init ''w'' ?li
           = LinearInterpolationSelector [''w''] sels
      \<and> keys sels = [12 / 10, 15 / 10, 5]
      \<and> choices sels = [Terminal ''a'', Terminal ''b'', Terminal ''c'']
      \<and> sorted_wrt (<) (keys sels)"
    unfolding li by (auto simp: keys_def choices_def)
  from t ms have 3: "\<exists>ps required value_map sels match_selections.
         MatchingSelector_init example_pylib [''*foo'', ''bar''] example_selections
           = Inr (MatchingSelector ps required value_map sels match_selections)
      \<and> keys sels = [Tuple [FStr ''*'', FStr ''*''], Tuple [FStr ''1.0'', FStr ''*''],
                      Tuple [FStr ''1.0'', FStr ''2.0'']]
      \<and> choices sels = [Terminal ''300'', Terminal ''100'', Terminal ''200'']
      \<and> sorted_wrt match_key_lt (keys sels)"
    unfolding ms' by (auto simp: keys_def choices_def example_match_def example_selections_def)
  from t parse nd have 4: "\<exists>sels. VersionDepSelector_init version_pylib ''sw_version'' ?vs
           = Inr (VersionDepSelector ''sw_version'' sels)
      \<and> keys sels = [\<lparr>relation = ''<'', version = Num (31 / 10)\<rparr>,
                      \<lparr>relation = ''<'', version = Num 5\<rparr>,
                      \<lparr>relation = ''default'', version = Str ''default''\<rparr>]
      \<and> choices sels = [Terminal ''cref_flatfield_65.fits'', Terminal ''cref_flatfield_73.fits'',
                         Terminal ''cref_flatfield_123.fits'']
      \<and> sorted_wrt (\<lambda>a b. VersionRelation_cmp a b < 0) (keys sels)"
    unfolding vd by (auto simp: keys_def choices_def)
  from 1 2 3 4 show ?thesis by (intro conjI)
qed

text \<open>
  Claim C10 has every selector store its selections in ascending key order. The code does not
  for a VersionDepSelector with the tuple version of the class docstring and 'default': each of
  the two relations compares greater than the other, so \<^verbatim>\<open>sorted\<close> leaves the two
  items in the order the dictionary gives them, and in either order the first stored key
  compares greater than the second. With 'default' first, the lookup of version (5, 0, 1)
  returns the default file, where the docstring has 'default' selected when none of the other
  relations applies.
\<close>

theorem VersionDepSelector_tuple_default_unsorted:
  "VersionDepSelector_init version_pylib ''sw_version''
     [(''= (5, 0, 1)'', Terminal ''cref_flatfield_501.fits''),
      (''default'', Terminal ''cref_flatfield_500.fits'')]
   = Inr (VersionDepSelector ''sw_version''
       [(\<lparr>relation = ''='', version = Tup [5, 0, 1]\<rparr>, Terminal ''cref_flatfield_501.fits''),
        (\<lparr>relation = ''default'', version = Str ''default''\<rparr>, Terminal ''cref_flatfield_500.fits'')])
   \<and> VersionRelation_cmp \<lparr>relation = ''='', version = Tup [5, 0, 1]\<rparr>
        \<lparr>relation = ''default'', version = Str ''default''\<rparr> = 1
   \<and> VersionDepSelector_init version_pylib ''sw_version''
        [(''default'', Terminal ''cref_flatfield_500.fits''),
         (''= (5, 0, 1)'', Terminal ''cref_flatfield_501.fits'')]
      = Inr (VersionDepSelector ''sw_version''
          [(\<lparr>relation = ''default'', version = Str ''default''\<rparr>, Terminal ''cref_flatfield_500.fits''),
           (\<lparr>relation = ''='', version = Tup [5, 0, 1]\<rparr>, Terminal ''cref_flatfield_501.fits'')])
   \<and> VersionRelation_cmp \<lparr>relation = ''default'', version = Str ''default''\<rparr>
        \<lparr>relation = ''='', version = Tup [5, 0, 1]\<rparr> = 1
   \<and> choose_sel version_pylib
        (VersionDepSelector ''sw_version''
          [(\<lparr>relation = ''default'', version = Str ''default''\<rparr>, Terminal ''cref_flatfield_500.fits''),
           (\<lparr>relation = ''='', version = Tup [5, 0, 1]\<rparr>, Terminal ''cref_flatfield_501.fits'')])
        [''sw_version'' \<mapsto> Tup [5, 0, 1]]
      = Inr (Filename ''cref_flatfield_500.fits'')"
  by (simp add: VersionDepSelector_init_def VersionRelation_init_def RELATION_RE_match_def
      startswith_def py_strip_def version_pylib_def example_pylib_def Let_def Selector_init_def
      sorted_items_def VersionRelation_lt_def VersionRelation_cmp_def cmp3_def
      vd_scan.simps VersionRelation_cmp_value_def)

section \<open>InstrumentContext (rmap.py, lines 548 to 598)\<close>

text \<open>
  The attribute \<^verbatim>\<open>selections\<close> of an InstrumentContext maps each reftype, in lower case,
  to the ReferenceMapping loaded for it; \<^verbatim>\<open>ReferenceMapping.get_best_ref\<close> is
  \<^verbatim>\<open>self.selector.choose(header)\<close>, so a loaded ReferenceMapping is its selector here.
  Loading the files is not part of this: \<^verbatim>\<open>InstrumentContext_selections\<close> takes the
  reftypes of the selector of the instrument mapping with the selectors loaded for them.
\<close>

definition InstrumentContext_selections ::
  "(string \<times> selector) list \<Rightarrow> (string \<times> selector) list"
where
  "InstrumentContext_selections items =
     fold (\<lambda>(reftype, refmap) selections. dict_set (lower reftype) refmap selections) items []"

definition get_best_ref ::
  "pylib \<Rightarrow> (string \<times> selector) list \<Rightarrow> string \<Rightarrow> header \<Rightarrow> exc + result"
where
  "get_best_ref env selections reftype h =
     (case map_of selections (lower reftype) of
        None \<Rightarrow> Inl (key_error (lower reftype))
      | Some refmap \<Rightarrow> choose_sel env refmap h)"

text \<open>
  \<^verbatim>\<open>except Exception, exc\<close> catches every exception of the model, each of them a
  subclass of \<^verbatim>\<open>Exception\<close>; the entry is then a string, as a file name is.
\<close>

definition best_ref_entry ::
  "pylib \<Rightarrow> (string \<times> selector) list \<Rightarrow> string \<Rightarrow> header \<Rightarrow> result"
where
  "best_ref_entry env selections reftype h =
     (case get_best_ref env selections reftype h of
        Inr ref \<Rightarrow> ref
      | Inl e \<Rightarrow> Filename (''NOT FOUND '' @ str_exc e))"

fun best_references_loop ::
  "pylib \<Rightarrow> (string \<times> selector) list \<Rightarrow> header \<Rightarrow> string list \<Rightarrow> (string \<times> result) list \<Rightarrow>
   (string \<times> result) list"
where
  "best_references_loop env selections h [] refs = refs"
| "best_references_loop env selections h (reftype # rest) refs =
     best_references_loop env selections h rest
       (dict_set reftype (best_ref_entry env selections reftype h) refs)"

definition get_best_references ::
  "pylib \<Rightarrow> (string \<times> selector) list \<Rightarrow> header \<Rightarrow> (string \<times> result) list"
where
  "get_best_references env selections h =
     best_references_loop env selections h (map fst selections) []"

lemma lower_char_idem: "lower_char (lower_char c) = lower_char c"
  by (simp add: lower_char_def)

lemma lower_idem: "lower (lower s) = lower s"
  by (simp add: lower_def lower_char_idem)

lemma dict_set_keys:
  "map fst (dict_set k v d) = (if k \<in> fst ` set d then map fst d else map fst d @ [k])"
  by (induction d) (auto simp: dict_set_def)

lemma dict_set_key_set: "fst ` set (dict_set k v d) = insert k (fst ` set d)"
proof -
  have "set (map fst (dict_set k v d)) = insert k (set (map fst d))"
    by (simp add: dict_set_keys insert_absorb)
  then show ?thesis by simp
qed

lemma dict_set_distinct: "distinct (map fst d) \<Longrightarrow> distinct (map fst (dict_set k v d))"
  by (simp add: dict_set_keys)

lemma dict_set_append:
  "k \<notin> fst ` set d \<Longrightarrow> dict_set k v d = d @ [(k, v)]"
  by (simp add: dict_set_def)

lemma best_references_loop_map:
  "distinct (map fst refs @ reftypes) \<Longrightarrow>
   best_references_loop env selections h reftypes refs
     = refs @ map (\<lambda>reftype. (reftype, best_ref_entry env selections reftype h)) reftypes"
proof (induction reftypes arbitrary: refs)
  case Nil
  show ?case by simp
next
  case (Cons reftype rest)
  from Cons.prems have new: "reftype \<notin> fst ` set refs" by auto
  from Cons.prems have "distinct (map fst (refs @ [(reftype, best_ref_entry env selections reftype h)]) @ rest)"
    by auto
  from Cons.IH [OF this] new show ?case
    by (simp add: dict_set_append)
qed

lemma get_best_references_map:
  "distinct (map fst selections) \<Longrightarrow>
   get_best_references env selections h
     = map (\<lambda>reftype. (reftype, best_ref_entry env selections reftype h)) (map fst selections)"
  unfolding get_best_references_def
  using best_references_loop_map [of "[]" "map fst selections" env selections h] by simp

lemma InstrumentContext_selections_fold:
  "distinct (map fst d) \<Longrightarrow> (\<forall>k \<in> fst ` set d. lower k = k) \<Longrightarrow>
   distinct (map fst (fold (\<lambda>(reftype, refmap) selections. dict_set (lower reftype) refmap selections) items d))
   \<and> (\<forall>k \<in> fst ` set (fold (\<lambda>(reftype, refmap) selections. dict_set (lower reftype) refmap selections) items d).
         lower k = k)"
proof (induction items arbitrary: d)
  case Nil
  then show ?case by simp
next
  case (Cons x items)
  obtain reftype refmap where x: "x = (reftype, refmap)" by (cases x)
  have d: "distinct (map fst (dict_set (lower reftype) refmap d))"
    using Cons.prems(1) by (rule dict_set_distinct)
  have l: "\<forall>k \<in> fst ` set (dict_set (lower reftype) refmap d). lower k = k"
    unfolding dict_set_key_set using Cons.prems(2) by (simp add: lower_idem)
  from Cons.IH [OF d l] show ?case by (simp add: x)
qed

lemma InstrumentContext_selections_keys:
  "distinct (map fst (InstrumentContext_selections items))
   \<and> (\<forall>k \<in> fst ` set (InstrumentContext_selections items). lower k = k)"
  unfolding InstrumentContext_selections_def
  using InstrumentContext_selections_fold [of "[]" items] by simp

lemma map_of_entries:
  "k \<in> set ks \<Longrightarrow> map_of (map (\<lambda>k. (k, f k)) ks) k = Some (f k)"
  by (induction ks) auto

text \<open>
  Claim C8. For every instrument context and every header, \<^verbatim>\<open>get_best_references\<close>
  returns a dictionary whose keys are the reftypes of the context, each once. The entry of a
  reftype is what \<^verbatim>\<open>choose\<close> of its selector returns, or, when that raises, the
  string "NOT FOUND " followed by the message of the exception; the function itself raises
  nothing, so an exception for one reftype leaves the entries of the others as they are.
\<close>

theorem get_best_references_entries:
  "map fst (get_best_references env (InstrumentContext_selections items) h)
     = map fst (InstrumentContext_selections items)
   \<and> distinct (map fst (get_best_references env (InstrumentContext_selections items) h))
   \<and> (\<forall>(reftype, refmap) \<in> set (InstrumentContext_selections items).
         map_of (get_best_references env (InstrumentContext_selections items) h) reftype =
           Some (case choose_sel env refmap h of
                   Inr ref \<Rightarrow> ref
                 | Inl e \<Rightarrow> Filename (''NOT FOUND '' @ str_exc e)))"
proof -
  let ?selections = "InstrumentContext_selections items"
  from InstrumentContext_selections_keys [of items]
  have d: "distinct (map fst ?selections)"
    and l: "\<forall>k \<in> fst ` set ?selections. lower k = k" by simp_all
  note m = get_best_references_map [OF d, of env h]
  have keys: "map fst (get_best_references env ?selections h) = map fst ?selections"
    unfolding m by (simp add: comp_def)
  have entry: "map_of (get_best_references env ?selections h) reftype =
           Some (case choose_sel env refmap h of
                   Inr ref \<Rightarrow> ref
                 | Inl e \<Rightarrow> Filename (''NOT FOUND '' @ str_exc e))"
    if mem: "(reftype, refmap) \<in> set ?selections" for reftype refmap
  proof -
    from mem have k: "reftype \<in> set (map fst ?selections)" by force
    from mem l have low: "lower reftype = reftype" by force
    from mem d have "map_of ?selections reftype = Some refmap" by simp
    then have "best_ref_entry env ?selections reftype h =
        (case choose_sel env refmap h of
           Inr ref \<Rightarrow> ref
         | Inl e \<Rightarrow> Filename (''NOT FOUND '' @ str_exc e))"
      by (simp add: best_ref_entry_def get_best_ref_def low)
    with map_of_entries [OF k, of "\<lambda>reftype. best_ref_entry env ?selections reftype h"]
    show ?thesis unfolding m by simp
  qed
  from keys d entry show ?thesis by auto
qed

text \<open>
  The theorem at a context of two reftypes and a header without a date: the UseAfter selector
  of the first reftype raises KeyError, and the second reftype still gets its file.
\<close>

theorem get_best_references_witness:
  "map fst (get_best_references example_pylib
       (InstrumentContext_selections
          [(''DARK'', UseAfterSelector [''DATE-OBS''] [(''2000-01-01 00:00:00'', Terminal ''dark.fits'')]),
           (''BIAS'', example_match)])
       [''bar'' \<mapsto> Str ''2.0'']) = [''dark'', ''bias'']
   \<and> map_of (get_best_references example_pylib
       (InstrumentContext_selections
          [(''DARK'', UseAfterSelector [''DATE-OBS''] [(''2000-01-01 00:00:00'', Terminal ''dark.fits'')]),
           (''BIAS'', example_match)])
       [''bar'' \<mapsto> Str ''2.0'']) ''dark''
     = Some (Filename (''NOT FOUND '' @ [sq] @ ''DATE-OBS'' @ [sq]))
   \<and> map_of (get_best_references example_pylib
       (InstrumentContext_selections
          [(''DARK'', UseAfterSelector [''DATE-OBS''] [(''2000-01-01 00:00:00'', Terminal ''dark.fits'')]),
           (''BIAS'', example_match)])
       [''bar'' \<mapsto> Str ''2.0'']) ''bias''
     = Some (Filename ''200'')"
proof -
  let ?dark = "UseAfterSelector [''DATE-OBS''] [(''2000-01-01 00:00:00'', Terminal ''dark.fits'')]"
  let ?items = "[(''DARK'', ?dark), (''BIAS'', example_match)]"
  let ?h = "[''bar'' \<mapsto> Str ''2.0'']"
  have sel: "InstrumentContext_selections ?items = [(''dark'', ?dark), (''bias'', example_match)]"
    by (simp add: InstrumentContext_selections_def dict_set_def lower_def lower_char_def)
  have dark: "choose_sel example_pylib ?dark ?h = Inl (Exc KeyError ([sq] @ ''DATE-OBS'' @ [sq]))"
    by (simp add: use_after_date_def key_error_def repr_str_def repr_char_def sq_def dq_def
        backslash_def Let_def)
  have bias: "choose_sel example_pylib example_match ?h = Inr (Filename ''200'')"
    by (rule ex_bar)
  from get_best_references_entries [of example_pylib ?items ?h]
  show ?thesis
    unfolding sel by (simp add: dark bias del: choose_sel.simps)
qed

section \<open>MappingValidator (rmap.py, lines 118 to 182)\<close>















section \<open>Mapping.from_file (rmap.py, lines 219 to 268 and 341 to 361)\<close>














section \<open>What the validator does with a forbidden construct\<close>











section \<open>The checksum of a mapping file\<close>










text \<open>
  A reference mapping file of nine lines, with a comment after the checksum and a comment after
  the selector. The digest of its header is the SHA-1 of the eight lines without
  \<^verbatim>\<open>sha1sum\<close>.
\<close>

definition rmap_head :: "string list" where
  "rmap_head =
     [''header = {'' @ [CHR 0x0A],
      ''    'mapping' : 'reference','' @ [CHR 0x0A],
      ''    'observatory' : 'hst','' @ [CHR 0x0A],
      ''    'instrument' : 'acs','' @ [CHR 0x0A],
      ''    'reftype' : 'bias','' @ [CHR 0x0A],
      ''    'parkey' : (),'' @ [CHR 0x0A]]"

definition sha1sum_line :: "char \<Rightarrow> string" where
  "sha1sum_line c =
     ''    'sha1sum' : 'f3e39bdd68e38c0d8abf44f93bfb68cf64957c45', # '' @ [c, CHR 0x0A]"

definition selector_line :: "char \<Rightarrow> string" where
  "selector_line c = ''selector = {} # '' @ [c, CHR 0x0A]"

definition rmap_text :: "char \<Rightarrow> char \<Rightarrow> string" where
  "rmap_text c1 c2 = concat (rmap_head @ [sha1sum_line c1, ''}'' @ [CHR 0x0A]] @ [selector_line c2])"





subsection \<open>The example file\<close>







lemma rmap_text_length: "length (rmap_text CHR ''a'' CHR ''x'') = 220"
  by (simp add: rmap_text_def rmap_head_def sha1sum_line_def selector_line_def)


lemma rmap_texts_differ:
  "rmap_text CHR ''a'' CHR ''y'' \<noteq> rmap_text CHR ''a'' CHR ''x''"
  "rmap_text CHR ''b'' CHR ''x'' \<noteq> rmap_text CHR ''a'' CHR ''x''"
  by (simp_all add: rmap_text_def sha1sum_line_def selector_line_def)









end
